theory Spec2Isabelle
  imports
    Main
    "HOL-Library.AList"
    "HOL-Library.Char_ord"
    "HOL-Library.List_Lexorder"
    "HOL-Library.Product_Lexorder"
begin

section \<open>The client-side conversation cache\<close>

text \<open>
  A shallow embedding of the conversation cache of the admin-conversations page:
  \<^verbatim>\<open>getConversationCacheKey\<close>, \<^verbatim>\<open>initConversationCacheDB\<close>, \<^verbatim>\<open>getConversationCacheDB\<close>,
  \<^verbatim>\<open>getCachedConversations\<close>, \<^verbatim>\<open>deleteCachedConversation\<close>, \<^verbatim>\<open>cacheConversations\<close>,
  \<^verbatim>\<open>cacheToLocalStorage\<close> and \<^verbatim>\<open>clearOldCacheEntries\<close>.

  The browser is part of the model: IndexedDB (the structured tier) is an object store keyed
  by \<open>cacheKey\<close>, localStorage (the flat tier) is an ordered list of key/value strings with
  a size quota, \<^verbatim>\<open>Date.now()\<close> reads a clock of epoch milliseconds, and every call made to
  either tier is appended to a trace. A call takes the clock as the state gives it; between
  two calls the browser may set it to any later time. Platform failures are switches of the state: each
  function takes the state and returns its result together with the new state.
  Strings are lists of 8-bit code units (the Latin-1 range of JavaScript's code units).
\<close>

subsection \<open>Values\<close>

type_synonym item = string

text \<open>
  A payload is the object handed to \<^verbatim>\<open>cacheConversations\<close>: its \<^verbatim>\<open>conversations\<close> field
  (absent, or a list) and the other fields, which the cache never looks at.
\<close>

record payload =
  conversations :: "item list option"
  others :: "(string \<times> string) list"

text \<open>
  A stored record. A record that \<^verbatim>\<open>cacheConversations\<close> writes has every field; one persisted
  by other means may lack \<^verbatim>\<open>data\<close> (\<open>None\<close>: absent or falsy), \<^verbatim>\<open>timestamp\<close> or \<^verbatim>\<open>expiresAt\<close>
  (\<open>None\<close>: absent; a number otherwise).
\<close>

record cache_record =
  cacheKey :: string
  adminId :: string
  date :: string
  data :: "payload option"
  timestamp :: "nat option"
  expiresAt :: "nat option"
  conversationCount :: nat

text \<open>
  The \<^verbatim>\<open>date\<close> argument: a falsy value, a string, a \<^verbatim>\<open>Date\<close> object (given by what its
  \<^verbatim>\<open>toISOString()\<close> returns, \<open>None\<close> for an invalid date, where it throws a RangeError, and
  by what \<^verbatim>\<open>String(date)\<close> returns), or a truthy value of another type (given by its
  \<^verbatim>\<open>String\<close> form).
\<close>

datatype date_like =
    DateAbsent
  | DateString string
  | DateObject "string option" string
  | DateOther string

datatype error = RangeError | OpenError | InvalidStateError

text \<open>The three ways an asynchronous function ends.\<close>

datatype 'a promise = Resolved 'a | Rejected error | NeverSettles

datatype event =
    IdbOpen
  | IdbTransaction
  | IdbGet string
  | IdbPut string
  | IdbDelete string
  | IdbCursor
  | LsKeys
  | LsGetItem string
  | LsSetItem string string
  | LsRemoveItem string

text \<open>
  The platform and module state. \<open>INDEXEDDB_AVAILABLE\<close> and \<open>dbInstance\<close> are the module's
  own variables (\<open>dbInstance\<close> is \<open>True\<close> when it holds a database handle). The switches
  \<open>idb_open_fails\<close> (the open request fires \<^verbatim>\<open>onerror\<close>), \<open>idb_tx_throws\<close>
  (\<^verbatim>\<open>db.transaction\<close> throws), \<open>idb_get_fails\<close>, \<open>idb_put_fails\<close>, \<open>idb_cursor_fails\<close>
  (the request fires \<^verbatim>\<open>onerror\<close>) and \<open>ls_set_fails\<close> (\<^verbatim>\<open>setItem\<close> throws an error other
  than the quota error) say how the browser answers. \<open>clock\<close> is the time in epoch
  milliseconds at which a call starts, and \<open>clock_drift\<close> the milliseconds by which the
  clock has moved on when one call reads it a second time.
\<close>

record state =
  INDEXEDDB_AVAILABLE :: bool
  dbInstance :: bool
  idb_open_fails :: bool
  idb_tx_throws :: bool
  idb_get_fails :: bool
  idb_put_fails :: bool
  idb_cursor_fails :: bool
  idb_store :: "cache_record list"
  localStorage :: "(string \<times> string) list"
  ls_quota :: nat
  ls_set_fails :: bool
  clock :: nat
  clock_drift :: nat
  trace :: "event list"

text \<open>
  The platform's \<^verbatim>\<open>JSON\<close> object, a parameter of the model: \<open>stringify\<close> serializes a
  record, \<open>parse\<close> returns \<open>None\<close> where \<^verbatim>\<open>JSON.parse\<close> throws or yields a value whose
  fields cannot be read.
\<close>

record json =
  stringify :: "cache_record \<Rightarrow> string"
  parse :: "string \<Rightarrow> cache_record option"

subsection \<open>Constants\<close>

definition CONVERSATION_CACHE_PREFIX :: string where
  "CONVERSATION_CACHE_PREFIX = ''admin_conversations_cache_''"

definition CACHE_EXPIRY_HOURS :: nat where
  "CACHE_EXPIRY_HOURS = 24"

subsection \<open>Strings\<close>

text \<open>The white space and line terminators that \<^verbatim>\<open>String.prototype.trim\<close> removes.\<close>

definition js_whitespace :: "char \<Rightarrow> bool" where
  "js_whitespace c \<longleftrightarrow>
     c \<in> {CHR 0x09, CHR 0x0A, CHR 0x0B, CHR 0x0C, CHR 0x0D, CHR 0x20, CHR 0xA0}"

definition trim :: "string \<Rightarrow> string" where
  "trim s = rev (dropWhile js_whitespace (rev (dropWhile js_whitespace s)))"

definition startsWith :: "string \<Rightarrow> string \<Rightarrow> bool" where
  "startsWith p s \<longleftrightarrow> take (length p) s = p"

text \<open>\<^verbatim>\<open>s.split('T')[0]\<close>: the part of \<open>s\<close> before its first \<open>T\<close>.\<close>

definition before_T :: "string \<Rightarrow> string" where
  "before_T s = takeWhile (\<lambda>c. c \<noteq> CHR ''T'') s"

text \<open>The size of \<^verbatim>\<open>new Blob([s])\<close>: the length of \<open>s\<close> in UTF-8.\<close>

definition blob_size :: "string \<Rightarrow> nat" where
  "blob_size s = sum_list (map (\<lambda>c. if of_char c < (128::nat) then 1 else 2) s)"

subsection \<open>The cache key\<close>

text \<open>The \<^verbatim>\<open>normalizedDate\<close> of \<^verbatim>\<open>getConversationCacheKey\<close>.\<close>

fun normalizedDate :: "date_like \<Rightarrow> error + string" where
  "normalizedDate DateAbsent = Inr []"
| "normalizedDate (DateString s) =
     (if s = [] then Inr []
      else let t = trim s in
        if CHR ''T'' \<in> set t then Inr (before_T t) else Inr t)"
| "normalizedDate (DateObject isoString str) =
     (case isoString of None \<Rightarrow> Inl RangeError | Some i \<Rightarrow> Inr (before_T i))"
| "normalizedDate (DateOther str) = Inr []"

text \<open>The \<^verbatim>\<open>normalizedAdminId\<close>: \<^verbatim>\<open>String(adminId || '').trim()\<close>.\<close>

definition normalizedAdminId :: "string option \<Rightarrow> string" where
  "normalizedAdminId admin = trim (case admin of None \<Rightarrow> [] | Some s \<Rightarrow> s)"

definition getConversationCacheKey :: "string option \<Rightarrow> date_like \<Rightarrow> error + string" where
  "getConversationCacheKey admin dt =
     (case normalizedDate dt of
        Inl e \<Rightarrow> Inl e
      | Inr nd \<Rightarrow> Inr (normalizedAdminId admin @ ''_'' @ nd))"

subsection \<open>The platform\<close>

definition called :: "event \<Rightarrow> state \<Rightarrow> state" where
  "called e st = st\<lparr>trace := trace st @ [e]\<rparr>"

text \<open>
  Time. A \<^verbatim>\<open>Date\<close> holds a time value of at most 8.64e15 milliseconds, and \<^verbatim>\<open>Date.now()\<close>
  returns a time value: the clock's reading, at most that bound. \<open>Date_now\<close> is the first
  read of the clock in a call and \<open>Date_now_again\<close> the second one.
  \<^verbatim>\<open>new Date(x).toISOString()\<close> throws a RangeError when \<open>x\<close> is absent (the date is invalid)
  or lies beyond the largest time value.
\<close>

definition DATE_MAX :: nat where
  "DATE_MAX = 8640000000000000"

definition Date_now :: "state \<Rightarrow> nat" where
  "Date_now st = min (clock st) DATE_MAX"

definition Date_now_again :: "state \<Rightarrow> nat" where
  "Date_now_again st = min (clock st + clock_drift st) DATE_MAX"

definition toISOString_throws :: "nat option \<Rightarrow> bool" where
  "toISOString_throws x \<longleftrightarrow> (case x of None \<Rightarrow> True | Some t \<Rightarrow> t > DATE_MAX)"

text \<open>The object store: \<^verbatim>\<open>get\<close>, \<^verbatim>\<open>put\<close> (insert or overwrite by key path) and \<^verbatim>\<open>delete\<close>.\<close>

definition idb_get :: "string \<Rightarrow> cache_record list \<Rightarrow> cache_record option" where
  "idb_get k rs = find (\<lambda>r. cacheKey r = k) rs"

definition idb_put :: "cache_record \<Rightarrow> cache_record list \<Rightarrow> cache_record list" where
  "idb_put r rs = r # filter (\<lambda>x. cacheKey x \<noteq> cacheKey r) rs"

definition idb_delete :: "string \<Rightarrow> cache_record list \<Rightarrow> cache_record list" where
  "idb_delete k rs = filter (\<lambda>x. cacheKey x \<noteq> k) rs"

text \<open>
  \<^verbatim>\<open>index('timestamp').openCursor(null, 'prev')\<close>: the records that have a timestamp, by
  descending timestamp and, among equal timestamps, descending primary key. A record
  without a timestamp is not in the index.
\<close>

definition idb_index_key :: "cache_record \<Rightarrow> nat \<times> string" where
  "idb_index_key r = ((case timestamp r of None \<Rightarrow> 0 | Some t \<Rightarrow> t), cacheKey r)"

definition idb_cursor_prev :: "cache_record list \<Rightarrow> cache_record list" where
  "idb_cursor_prev rs = rev (sort_key idb_index_key (filter (\<lambda>r. timestamp r \<noteq> None) rs))"

definition idb_delete_request :: "string \<Rightarrow> state \<Rightarrow> state" where
  "idb_delete_request k st = (called (IdbDelete k) st)\<lparr>idb_store := idb_delete k (idb_store st)\<rparr>"

text \<open>
  localStorage: \<^verbatim>\<open>getItem\<close>, \<^verbatim>\<open>setItem\<close> and \<^verbatim>\<open>removeItem\<close>. \<^verbatim>\<open>setItem\<close> throws the
  quota error when the keys and values would together be longer than the quota, and
  then stores nothing.
\<close>

datatype set_outcome = Stored | QuotaExceededError | OtherError

definition ls_size :: "(string \<times> string) list \<Rightarrow> nat" where
  "ls_size kvs = sum_list (map (\<lambda>(k, v). length k + length v) kvs)"

definition ls_getItem :: "string \<Rightarrow> state \<Rightarrow> string option \<times> state" where
  "ls_getItem k st = (map_of (localStorage st) k, called (LsGetItem k) st)"

definition ls_setItem :: "string \<Rightarrow> string \<Rightarrow> state \<Rightarrow> set_outcome \<times> state" where
  "ls_setItem k v st =
     (let st1 = called (LsSetItem k v) st;
          new = AList.update k v (localStorage st1) in
      if ls_set_fails st1 then (OtherError, st1)
      else if ls_size new > ls_quota st1 then (QuotaExceededError, st1)
      else (Stored, st1\<lparr>localStorage := new\<rparr>))"

definition ls_removeItem :: "string \<Rightarrow> state \<Rightarrow> state" where
  "ls_removeItem k st = (called (LsRemoveItem k) st)\<lparr>localStorage := AList.delete k (localStorage st)\<rparr>"

subsection \<open>Opening the structured tier\<close>

definition initConversationCacheDB :: "state \<Rightarrow> bool promise \<times> state" where
  "initConversationCacheDB st =
     (if \<not> INDEXEDDB_AVAILABLE st then (Resolved False, st)
      else let st1 = called IdbOpen st in
        if idb_open_fails st1 then (Rejected OpenError, st1) else (Resolved True, st1))"

definition getConversationCacheDB :: "state \<Rightarrow> bool \<times> state" where
  "getConversationCacheDB st =
     (if \<not> INDEXEDDB_AVAILABLE st then (False, st)
      else if dbInstance st then (True, st)
      else case initConversationCacheDB st of
             (Resolved db, st1) \<Rightarrow> (db, st1\<lparr>dbInstance := db\<rparr>)
           | (_, st1) \<Rightarrow> (False, st1))"

subsection \<open>Lookup\<close>

text \<open>\<^verbatim>\<open>cachedData.expiresAt && now > cachedData.expiresAt\<close>\<close>

definition isExpired :: "cache_record \<Rightarrow> nat \<Rightarrow> bool" where
  "isExpired r now = (case expiresAt r of None \<Rightarrow> False | Some e \<Rightarrow> e \<noteq> 0 \<and> now > e)"

text \<open>
  \<^verbatim>\<open>deleteCachedConversation\<close> is called without \<^verbatim>\<open>await\<close>; its effect is part of the step
  that calls it.
\<close>

definition deleteCachedConversation :: "string \<Rightarrow> state \<Rightarrow> state" where
  "deleteCachedConversation k st =
     (let (db, st1) = getConversationCacheDB st;
          st2 = (if db then
                   (if idb_tx_throws st1 then called IdbTransaction st1
                    else idb_delete_request k (called IdbTransaction st1))
                 else st1)
      in ls_removeItem (CONVERSATION_CACHE_PREFIX @ k) st2)"

text \<open>
  With a database handle, \<^verbatim>\<open>getCachedConversations\<close> returns the promise it builds around
  the \<^verbatim>\<open>get\<close> request: an exception of \<^verbatim>\<open>db.transaction\<close> inside the promise's executor
  rejects that promise (the surrounding \<^verbatim>\<open>try\<close> never sees it), and both \<^verbatim>\<open>onsuccess\<close>
  without a record and \<^verbatim>\<open>onerror\<close> resolve it with \<^verbatim>\<open>null\<close>. The localStorage part runs
  when there is no handle.

  Two of the log lines format a date before the function goes on: the one of an expired
  record (\<^verbatim>\<open>new Date(expiresAt).toISOString()\<close>, before the purge) and the one of a hit
  (\<^verbatim>\<open>new Date(timestamp).toISOString()\<close>, before the payload is handed out). When that throws
  inside \<^verbatim>\<open>onsuccess\<close>, the promise is never resolved; when it throws in the localStorage
  part, the \<^verbatim>\<open>catch\<close> returns \<^verbatim>\<open>null\<close>. In both cases the record stays where it is.
\<close>

definition getCachedConversations ::
  "json \<Rightarrow> state \<Rightarrow> string option \<Rightarrow> date_like \<Rightarrow> payload option promise \<times> state" where
  "getCachedConversations J st admin dt =
     (case getConversationCacheKey admin dt of
        Inl e \<Rightarrow> (Rejected e, st)
      | Inr k \<Rightarrow>
          (let (db, st1) = getConversationCacheDB st in
           if db then
             (if idb_tx_throws st1 then (Rejected InvalidStateError, called IdbTransaction st1)
              else let st2 = called (IdbGet k) (called IdbTransaction st1) in
                if idb_get_fails st2 then (Resolved None, st2)
                else (case idb_get k (idb_store st2) of
                        None \<Rightarrow> (Resolved None, st2)
                      | Some cachedData \<Rightarrow>
                          if isExpired cachedData (Date_now st2)
                          then (if toISOString_throws (expiresAt cachedData)
                                then (NeverSettles, st2)
                                else (Resolved None, deleteCachedConversation k st2))
                          else (case data cachedData of
                                  None \<Rightarrow> (Resolved None, deleteCachedConversation k st2)
                                | Some d \<Rightarrow>
                                    if toISOString_throws (timestamp cachedData)
                                    then (NeverSettles, st2)
                                    else (Resolved (Some d), st2))))
           else
             (let localStorageKey = CONVERSATION_CACHE_PREFIX @ k;
                  (cached, st2) = ls_getItem localStorageKey st1 in
              case cached of
                None \<Rightarrow> (Resolved None, st2)
              | Some s \<Rightarrow>
                  if s = [] then (Resolved None, st2)
                  else (case parse J s of
                          None \<Rightarrow> (Resolved None, st2)
                        | Some parsed \<Rightarrow>
                            if isExpired parsed (Date_now st2)
                            then (if toISOString_throws (expiresAt parsed)
                                  then (Resolved None, st2)
                                  else (Resolved None, ls_removeItem localStorageKey st2))
                            else (case data parsed of
                                    None \<Rightarrow> (Resolved None, ls_removeItem localStorageKey st2)
                                  | Some d \<Rightarrow>
                                      if toISOString_throws (timestamp parsed)
                                      then (Resolved None, st2)
                                      else (Resolved (Some d), st2))))))"

subsection \<open>The eviction sweep\<close>

text \<open>
  The structured part of \<^verbatim>\<open>clearOldCacheEntries\<close>, from the moment the cursor has delivered
  every entry: the entries past the 50th are deleted, and when the serialized entries
  are together longer than 500 MiB and there are more than 30, the entries past the 30th
  are deleted too.
\<close>

definition totalSize :: "json \<Rightarrow> cache_record list \<Rightarrow> nat" where
  "totalSize J entries = foldl (\<lambda>sum entry. sum + length (stringify J entry)) 0 entries"

definition sweepEntries :: "json \<Rightarrow> cache_record list \<Rightarrow> state \<Rightarrow> state" where
  "sweepEntries J entries st =
     (if entries = [] then st
      else
        let total = totalSize J entries;
            maxEntries = 50;
            st1 = (if length entries > maxEntries
                   then foldl (\<lambda>s entry. idb_delete_request (cacheKey entry) s)
                          (called IdbTransaction st) (drop maxEntries entries)
                   else st);
            st2 = (if total > 500 * 1024 * 1024 \<and> length entries > 30
                   then foldl (\<lambda>s entry. idb_delete_request (cacheKey entry) s)
                          (called IdbTransaction st1) (drop 30 entries)
                   else st1)
        in st2)"

text \<open>
  The localStorage part of \<^verbatim>\<open>clearOldCacheEntries\<close>: the keys with the cache prefix or the
  older prefix \<^verbatim>\<open>conversations_cache_\<close>, each with the timestamp of its parsed value (0 when
  it has none or does not parse), sorted by descending timestamp; the entries past the
  5th are removed.
\<close>

record ls_entry =
  entry_key :: string
  entry_timestamp :: nat
  entry_size :: nat
  entry_conversationCount :: nat

definition cacheEntry :: "json \<Rightarrow> state \<Rightarrow> string \<Rightarrow> ls_entry" where
  "cacheEntry J st k =
     (case map_of (localStorage st) k of
        None \<Rightarrow> \<lparr>entry_key = k, entry_timestamp = 0, entry_size = 0, entry_conversationCount = 0\<rparr>
      | Some s \<Rightarrow>
          (case parse J s of
             None \<Rightarrow> \<lparr>entry_key = k, entry_timestamp = 0, entry_size = 0, entry_conversationCount = 0\<rparr>
           | Some parsed \<Rightarrow>
               \<lparr>entry_key = k,
                entry_timestamp = (case timestamp parsed of None \<Rightarrow> 0 | Some t \<Rightarrow> t),
                entry_size = blob_size s,
                entry_conversationCount =
                  (case data parsed of
                     None \<Rightarrow> 0
                   | Some d \<Rightarrow> (case conversations d of None \<Rightarrow> 0 | Some cs \<Rightarrow> length cs))\<rparr>))"

definition isCacheKey :: "string \<Rightarrow> bool" where
  "isCacheKey k \<longleftrightarrow> k \<noteq> [] \<and>
     (startsWith CONVERSATION_CACHE_PREFIX k \<or> startsWith ''conversations_cache_'' k)"

definition clearOldLocalStorage :: "json \<Rightarrow> state \<Rightarrow> state" where
  "clearOldLocalStorage J st =
     (let st1 = called LsKeys st;
          cacheKeys = filter isCacheKey (map fst (localStorage st1))
      in if cacheKeys = [] then st1
         else
           let st2 = foldl (\<lambda>s k. called (LsGetItem k) s) st1 cacheKeys;
               cacheEntries = sort_key (\<lambda>e. - int (entry_timestamp e)) (map (cacheEntry J st1) cacheKeys)
           in if length cacheEntries > 5
              then foldl (\<lambda>s entry. ls_removeItem (entry_key entry) s) st2 (drop 5 cacheEntries)
              else st2)"

text \<open>
  \<^verbatim>\<open>clearOldCacheEntries\<close>: with a database handle it returns the promise built around the
  cursor request, so the localStorage part runs only without a handle.
\<close>

definition clearOldCacheEntries :: "json \<Rightarrow> state \<Rightarrow> unit promise \<times> state" where
  "clearOldCacheEntries J st =
     (let (db, st1) = getConversationCacheDB st in
      if db then
        (if idb_tx_throws st1 then (Rejected InvalidStateError, called IdbTransaction st1)
         else let st2 = called IdbCursor (called IdbTransaction st1) in
           if idb_cursor_fails st2 then (Resolved (), st2)
           else (Resolved (), sweepEntries J (idb_cursor_prev (idb_store st2)) st2))
      else (Resolved (), clearOldLocalStorage J st1))"

subsection \<open>Store\<close>

text \<open>
  The \<^verbatim>\<open>!verifyCache\<close> test: \<^verbatim>\<open>getItem\<close> returned \<^verbatim>\<open>null\<close> or the empty string.

  \<^verbatim>\<open>cacheToLocalStorage\<close>: the size test comes before \<^verbatim>\<open>setItem\<close>. After the first write
  and its verification the success log formats \<^verbatim>\<open>new Date(cacheData.expiresAt)\<close>; when that
  throws, the \<^verbatim>\<open>catch\<close> finds no quota error and returns \<^verbatim>\<open>false\<close>, with the value
  written. A quota error of \<^verbatim>\<open>setItem\<close> is answered by \<^verbatim>\<open>await clearOldCacheEntries()\<close>
  (whose rejection is the function's own) and one more \<^verbatim>\<open>setItem\<close>.
\<close>

definition falsy :: "string option \<Rightarrow> bool" where
  "falsy v \<longleftrightarrow> (case v of None \<Rightarrow> True | Some s \<Rightarrow> s = [])"

definition cacheToLocalStorage ::
  "json \<Rightarrow> string \<Rightarrow> cache_record \<Rightarrow> state \<Rightarrow> bool promise \<times> state" where
  "cacheToLocalStorage J k cacheData st =
     (let localStorageKey = CONVERSATION_CACHE_PREFIX @ k;
          cacheString = stringify J cacheData
      in if length cacheString > 2 * 1024 * 1024 then (Resolved False, st)
         else
           (case ls_setItem localStorageKey cacheString st of
              (Stored, st1) \<Rightarrow>
                (let (verifyCache, st2) = ls_getItem localStorageKey st1
                 in if falsy verifyCache then (Resolved False, st2)
                    else if toISOString_throws (expiresAt cacheData) then (Resolved False, st2)
                    else (Resolved True, st2))
            | (QuotaExceededError, st1) \<Rightarrow>
                (case clearOldCacheEntries J st1 of
                   (Resolved u, st2) \<Rightarrow>
                     (case ls_setItem localStorageKey (stringify J cacheData) st2 of
                        (Stored, st3) \<Rightarrow>
                          (let (verifyCache, st4) = ls_getItem localStorageKey st3
                           in if \<not> falsy verifyCache then (Resolved True, st4)
                              else (Resolved False, st4))
                      | (_, st3) \<Rightarrow> (Resolved False, st3))
                 | (Rejected e, st2) \<Rightarrow> (Rejected e, st2)
                 | (NeverSettles, st2) \<Rightarrow> (NeverSettles, st2))
            | (OtherError, st1) \<Rightarrow> (Resolved False, st1)))"

text \<open>\<^verbatim>\<open>String(adminId)\<close> and \<^verbatim>\<open>String(date)\<close>.\<close>

definition String_of_admin :: "string option \<Rightarrow> string" where
  "String_of_admin admin = (case admin of None \<Rightarrow> ''null'' | Some s \<Rightarrow> s)"

fun String_of_date :: "date_like \<Rightarrow> string" where
  "String_of_date DateAbsent = ''null''"
| "String_of_date (DateString s) = s"
| "String_of_date (DateObject isoString str) = str"
| "String_of_date (DateOther str) = str"

text \<open>The truth value of the arguments in \<^verbatim>\<open>!adminId || !date || !data\<close>.\<close>

definition admin_truthy :: "string option \<Rightarrow> bool" where
  "admin_truthy admin \<longleftrightarrow> (case admin of None \<Rightarrow> False | Some s \<Rightarrow> s \<noteq> [])"

fun date_truthy :: "date_like \<Rightarrow> bool" where
  "date_truthy DateAbsent = False"
| "date_truthy (DateString s) = (s \<noteq> [])"
| "date_truthy (DateObject isoString str) = True"
| "date_truthy (DateOther str) = True"

text \<open>
  The \<^verbatim>\<open>cacheData\<close> object that \<^verbatim>\<open>cacheConversations\<close> builds: \<^verbatim>\<open>expiresAt\<close> from the first
  read of the clock, \<^verbatim>\<open>timestamp\<close> from the second.
\<close>

definition buildCacheData ::
  "state \<Rightarrow> string \<Rightarrow> string option \<Rightarrow> date_like \<Rightarrow> payload \<Rightarrow> cache_record" where
  "buildCacheData st k admin dt d =
     (let expires = Date_now st + (CACHE_EXPIRY_HOURS * 60 * 60 * 1000) in
      \<lparr>cacheKey = k,
       adminId = String_of_admin admin,
       date = String_of_date dt,
       data = Some d,
       timestamp = Some (Date_now_again st),
       expiresAt = Some expires,
       conversationCount = (case conversations d of None \<Rightarrow> 0 | Some cs \<Rightarrow> length cs)\<rparr>)"

text \<open>
  \<^verbatim>\<open>cacheConversations\<close>. With a database handle it returns the promise built around the
  \<^verbatim>\<open>put\<close> request: an exception of \<^verbatim>\<open>db.transaction\<close> rejects it, \<^verbatim>\<open>onsuccess\<close> resolves
  it with \<^verbatim>\<open>true\<close>, and \<^verbatim>\<open>onerror\<close> resolves it with what \<^verbatim>\<open>cacheToLocalStorage\<close> gives
  (the promise stays pending if that call rejects). The log of \<^verbatim>\<open>onsuccess\<close> formats
  \<^verbatim>\<open>new Date(expiresAt)\<close> before \<^verbatim>\<open>resolve(true)\<close>; when that throws, the promise is never
  resolved, and the exception in the handler aborts the transaction, which undoes the
  \<^verbatim>\<open>put\<close>.
\<close>

definition cacheConversations ::
  "json \<Rightarrow> state \<Rightarrow> string option \<Rightarrow> date_like \<Rightarrow> payload option \<Rightarrow> bool promise \<times> state" where
  "cacheConversations J st admin dt dat =
     (if \<not> admin_truthy admin \<or> \<not> date_truthy dt \<or> dat = None then (Resolved False, st)
      else
        (case getConversationCacheKey admin dt of
           Inl e \<Rightarrow> (Rejected e, st)
         | Inr k \<Rightarrow>
             (let cacheData = buildCacheData st k admin dt (the dat);
                  (db, st1) = getConversationCacheDB st
              in if db then
                   (if idb_tx_throws st1 then (Rejected InvalidStateError, called IdbTransaction st1)
                    else let st2 = called (IdbPut k) (called IdbTransaction st1) in
                      if \<not> idb_put_fails st2
                      then (if toISOString_throws (expiresAt cacheData) then (NeverSettles, st2)
                            else (Resolved True,
                                  st2\<lparr>idb_store := idb_put cacheData (idb_store st2)\<rparr>))
                      else (case cacheToLocalStorage J k cacheData st2 of
                              (Resolved result, st3) \<Rightarrow> (Resolved result, st3)
                            | (_, st3) \<Rightarrow> (NeverSettles, st3)))
                 else cacheToLocalStorage J k cacheData st1)))"

subsection \<open>The documented shapes of a date\<close>

text \<open>
  The dates the cache is documented to accept: a string \<^verbatim>\<open>YYYY-MM-DD\<close>, a string that goes
  on with the date-time separator \<^verbatim>\<open>T\<close> after such a date, or a \<^verbatim>\<open>Date\<close> object whose ISO
  string has that shape.
\<close>

definition is_digit :: "char \<Rightarrow> bool" where
  "is_digit c \<longleftrightarrow> CHR ''0'' \<le> c \<and> c \<le> CHR ''9''"

definition is_ymd :: "string \<Rightarrow> bool" where
  "is_ymd s \<longleftrightarrow> length s = 10 \<and> list_all is_digit (take 4 s) \<and> s ! 4 = CHR ''-'' \<and>
     list_all is_digit (take 2 (drop 5 s)) \<and> s ! 7 = CHR ''-'' \<and> list_all is_digit (drop 8 s)"

definition is_timestamped :: "string \<Rightarrow> bool" where
  "is_timestamped s \<longleftrightarrow> is_ymd (take 10 s) \<and> length s > 10 \<and> s ! 10 = CHR ''T''"

fun valid_date :: "date_like \<Rightarrow> bool" where
  "valid_date (DateString s) = (is_ymd s \<or> is_timestamped s)"
| "valid_date (DateObject isoString str) =
     (case isoString of None \<Rightarrow> False | Some i \<Rightarrow> is_timestamped i)"
| "valid_date DateAbsent = False"
| "valid_date (DateOther str) = False"

text \<open>
  The calendar date that a date of these shapes denotes: the first ten characters of the
  string, or of the ISO string of the \<^verbatim>\<open>Date\<close> object.
\<close>

fun calendar_date :: "date_like \<Rightarrow> string" where
  "calendar_date (DateString s) = take 10 s"
| "calendar_date (DateObject isoString str) = (case isoString of None \<Rightarrow> [] | Some i \<Rightarrow> take 10 i)"
| "calendar_date DateAbsent = []"
| "calendar_date (DateOther str) = []"

subsection \<open>Observations of a state\<close>

text \<open>
  \<open>structured_open\<close>: \<^verbatim>\<open>getConversationCacheDB\<close> gives a handle in this state.
  \<open>open_events\<close>: the call to \<^verbatim>\<open>indexedDB.open\<close> it makes on the way.
  \<open>consulted_record\<close>: the record that a lookup of the key reads in this state, from the
  object store when there is a handle and from the parsed localStorage value otherwise.
  \<open>cache_keys\<close>: the localStorage keys that belong to the cache.
\<close>

definition structured_open :: "state \<Rightarrow> bool" where
  "structured_open st \<longleftrightarrow> INDEXEDDB_AVAILABLE st \<and> (dbInstance st \<or> \<not> idb_open_fails st)"

definition open_events :: "state \<Rightarrow> event list" where
  "open_events st = (if INDEXEDDB_AVAILABLE st \<and> \<not> dbInstance st then [IdbOpen] else [])"

definition consulted_record :: "json \<Rightarrow> state \<Rightarrow> string \<Rightarrow> cache_record option" where
  "consulted_record J st k =
     (if structured_open st then idb_get k (idb_store st)
      else case map_of (localStorage st) (CONVERSATION_CACHE_PREFIX @ k) of
             None \<Rightarrow> None
           | Some s \<Rightarrow> if s = [] then None else parse J s)"

definition cache_keys :: "state \<Rightarrow> string list" where
  "cache_keys st = filter isCacheKey (map fst (localStorage st))"

fun is_idb_event :: "event \<Rightarrow> bool" where
  "is_idb_event IdbOpen = True"
| "is_idb_event IdbTransaction = True"
| "is_idb_event (IdbGet k) = True"
| "is_idb_event (IdbPut k) = True"
| "is_idb_event (IdbDelete k) = True"
| "is_idb_event IdbCursor = True"
| "is_idb_event LsKeys = False"
| "is_idb_event (LsGetItem k) = False"
| "is_idb_event (LsSetItem k v) = False"
| "is_idb_event (LsRemoveItem k) = False"

text \<open>\<open>opened\<close>: the state that \<^verbatim>\<open>getConversationCacheDB\<close> leaves.\<close>

definition opened :: "state \<Rightarrow> state" where
  "opened st = snd (getConversationCacheDB st)"

subsection \<open>Example states\<close>

text \<open>
  A browser with IndexedDB, nothing stored and no failure switched on, at
  2024-03-05T10:00:00Z; two payloads; three stored records for the key of owner 42 on
  2024-03-05; and a \<^verbatim>\<open>JSON\<close> whose \<open>parse\<close> reads back the serialized form of one given
  record.
\<close>

definition fresh_state :: state where
  "fresh_state =
     \<lparr>INDEXEDDB_AVAILABLE = True, dbInstance = False, idb_open_fails = False,
      idb_tx_throws = False, idb_get_fails = False, idb_put_fails = False,
      idb_cursor_fails = False, idb_store = [], localStorage = [], ls_quota = 5000,
      ls_set_fails = False, clock = 1709632800000, clock_drift = 0, trace = []\<rparr>"

definition payload_with_list :: payload where
  "payload_with_list = \<lparr>conversations = Some [''c1'', ''c2''], others = [(''has_more'', ''false'')]\<rparr>"

definition payload_without_list :: payload where
  "payload_without_list = \<lparr>conversations = None, others = [(''total'', ''0'')]\<rparr>"

definition record_with_list :: cache_record where
  "record_with_list =
     \<lparr>cacheKey = ''42_2024-03-05'', adminId = ''42'', date = ''2024-03-05'',
      data = Some payload_with_list, timestamp = Some 1709632800000,
      expiresAt = Some 1709719200000, conversationCount = 2\<rparr>"

definition record_without_list :: cache_record where
  "record_without_list =
     \<lparr>cacheKey = ''42_2024-03-05'', adminId = ''42'', date = ''2024-03-05'',
      data = Some payload_without_list, timestamp = Some 1709632800000,
      expiresAt = Some 1709719200000, conversationCount = 0\<rparr>"

definition record_without_payload :: cache_record where
  "record_without_payload =
     \<lparr>cacheKey = ''42_2024-03-05'', adminId = ''42'', date = ''2024-03-05'',
      data = None, timestamp = Some 1709632800000,
      expiresAt = Some 1709719200000, conversationCount = 0\<rparr>"

definition example_json :: "cache_record \<Rightarrow> json" where
  "example_json r0 =
     \<lparr>stringify = (\<lambda>r. ''{'' @ cacheKey r @ ''}''),
      parse = (\<lambda>s. if s = ''{'' @ cacheKey r0 @ ''}'' then Some r0 else None)\<rparr>"

text \<open>
  \<open>keep_count\<close>: how many of the newest entries the structured sweep keeps.
  \<open>sixty_records\<close>: sixty records with distinct keys, written one millisecond apart.
\<close>

definition keep_count :: "json \<Rightarrow> cache_record list \<Rightarrow> nat" where
  "keep_count J entries = (if totalSize J entries > 500 * 1024 * 1024 then 30 else 50)"

definition numbered_record :: "nat \<Rightarrow> cache_record" where
  "numbered_record i =
     \<lparr>cacheKey = replicate (Suc i) (CHR ''k''), adminId = ''42'', date = ''2024-03-05'',
      data = Some payload_with_list, timestamp = Some (1709632800000 + i),
      expiresAt = Some (1709719200000 + i), conversationCount = 2\<rparr>"

definition sixty_records :: "cache_record list" where
  "sixty_records = map numbered_record [0..<60]"

text \<open>
  \<open>flat_entries\<close>: the \<^verbatim>\<open>cacheEntries\<close> of the localStorage sweep, sorted newest first.
\<close>

definition flat_entries :: "json \<Rightarrow> state \<Rightarrow> ls_entry list" where
  "flat_entries J st =
     sort_key (\<lambda>e. - int (entry_timestamp e)) (map (cacheEntry J st) (cache_keys st))"

subsection \<open>Sessions\<close>

text \<open>
  \<open>calls_made st st'\<close>: the calls appended to the trace between two states.
  \<open>allowed_call st\<close>: a call that is consistent with the module state \<open>st\<close>, namely an
  IndexedDB call only when IndexedDB is available and \<^verbatim>\<open>indexedDB.open\<close> only when no handle
  is cached. \<open>evolves st st'\<close>: \<open>st'\<close> extends the trace of \<open>st\<close> by allowed calls, under
  the same platform switches, and keeps a cached handle; where \<^verbatim>\<open>indexedDB.open\<close> does not
  fail, the calls contain it once when a handle has been cached on the way, and not at all
  otherwise.
  \<open>session J st st'\<close>: \<open>st'\<close> is reached from \<open>st\<close> by lookups, stores and sweeps.
\<close>

definition calls_made :: "state \<Rightarrow> state \<Rightarrow> event list" where
  "calls_made st st' = drop (length (trace st)) (trace st')"

definition allowed_call :: "state \<Rightarrow> event \<Rightarrow> bool" where
  "allowed_call st e \<longleftrightarrow>
     (is_idb_event e \<longrightarrow> INDEXEDDB_AVAILABLE st) \<and> (e = IdbOpen \<longrightarrow> \<not> dbInstance st)"

definition evolves :: "state \<Rightarrow> state \<Rightarrow> bool" where
  "evolves st st' \<longleftrightarrow>
     (\<exists>evs. trace st' = trace st @ evs \<and> list_all (allowed_call st) evs \<and>
        (\<not> idb_open_fails st \<longrightarrow>
           count_list evs IdbOpen = (if dbInstance st' \<and> \<not> dbInstance st then 1 else 0))) \<and>
     INDEXEDDB_AVAILABLE st' = INDEXEDDB_AVAILABLE st \<and>
     idb_open_fails st' = idb_open_fails st \<and>
     idb_tx_throws st' = idb_tx_throws st \<and>
     idb_get_fails st' = idb_get_fails st \<and>
     idb_put_fails st' = idb_put_fails st \<and>
     idb_cursor_fails st' = idb_cursor_fails st \<and>
     ls_quota st' = ls_quota st \<and>
     ls_set_fails st' = ls_set_fails st \<and>
     clock st' = clock st \<and>
     clock_drift st' = clock_drift st \<and>
     (dbInstance st \<longrightarrow> dbInstance st') \<and>
     (dbInstance st' \<longrightarrow> dbInstance st \<or> structured_open st)"

inductive session :: "json \<Rightarrow> state \<Rightarrow> state \<Rightarrow> bool" for J :: json and st :: state where
  start: "session J st st"
| lookup: "session J st st1 \<Longrightarrow> st2 = snd (getCachedConversations J st1 admin dt) \<Longrightarrow>
     session J st st2"
| store: "session J st st1 \<Longrightarrow> st2 = snd (cacheConversations J st1 admin dt dat) \<Longrightarrow>
     session J st st2"
| sweep: "session J st st1 \<Longrightarrow> st2 = snd (clearOldCacheEntries J st1) \<Longrightarrow>
     session J st st2"

text \<open>
  \<open>stamp_json\<close>: a \<^verbatim>\<open>JSON\<close> whose \<open>parse\<close> reads the timestamp of a value off its length.
  \<open>quota_state\<close>: a browser with a database handle whose \<^verbatim>\<open>put\<close> requests fail, and a
  localStorage that six older cache entries fill up to 183 of 210 units.
\<close>

definition stamp_json :: json where
  "stamp_json =
     \<lparr>stringify = (\<lambda>r. ''{'' @ cacheKey r @ ''}''),
      parse = (\<lambda>s. Some (record_with_list\<lparr>timestamp := Some (length s)\<rparr>))\<rparr>"

definition quota_state :: state where
  "quota_state =
     fresh_state
       \<lparr>dbInstance := True, idb_put_fails := True,
        localStorage :=
          [(''admin_conversations_cache_a'', ''xxx''), (''admin_conversations_cache_b'', ''x''),
           (''admin_conversations_cache_c'', ''xxxxxx''), (''admin_conversations_cache_d'', ''xx''),
           (''admin_conversations_cache_e'', ''xxxxx''), (''admin_conversations_cache_f'', ''xxxx'')],
        ls_quota := 210\<rparr>"

section \<open>The platform and the lookup, step by step\<close>

lemma called_fields [simp]:
  "trace (called e st) = trace st @ [e]"
  "INDEXEDDB_AVAILABLE (called e st) = INDEXEDDB_AVAILABLE st"
  "dbInstance (called e st) = dbInstance st"
  "idb_open_fails (called e st) = idb_open_fails st"
  "idb_tx_throws (called e st) = idb_tx_throws st"
  "idb_get_fails (called e st) = idb_get_fails st"
  "idb_put_fails (called e st) = idb_put_fails st"
  "idb_cursor_fails (called e st) = idb_cursor_fails st"
  "idb_store (called e st) = idb_store st"
  "localStorage (called e st) = localStorage st"
  "ls_quota (called e st) = ls_quota st"
  "ls_set_fails (called e st) = ls_set_fails st"
  "clock (called e st) = clock st"
  "clock_drift (called e st) = clock_drift st"
  by (simp_all add: called_def)

lemma getConversationCacheDB_eq:
  "getConversationCacheDB st =
     (structured_open st,
      if INDEXEDDB_AVAILABLE st \<and> \<not> dbInstance st
      then (called IdbOpen st)\<lparr>dbInstance := \<not> idb_open_fails st\<rparr> else st)"
  by (simp add: getConversationCacheDB_def initConversationCacheDB_def structured_open_def Let_def called_def)

lemma getConversationCacheDB_opened:
  "getConversationCacheDB st = (structured_open st, opened st)"
  by (simp add: opened_def getConversationCacheDB_eq)

lemma opened_fields [simp]:
  "trace (opened st) = trace st @ open_events st"
  "INDEXEDDB_AVAILABLE (opened st) = INDEXEDDB_AVAILABLE st"
  "dbInstance (opened st) = (if INDEXEDDB_AVAILABLE st then dbInstance st \<or> \<not> idb_open_fails st else dbInstance st)"
  "idb_open_fails (opened st) = idb_open_fails st"
  "idb_tx_throws (opened st) = idb_tx_throws st"
  "idb_get_fails (opened st) = idb_get_fails st"
  "idb_put_fails (opened st) = idb_put_fails st"
  "idb_cursor_fails (opened st) = idb_cursor_fails st"
  "idb_store (opened st) = idb_store st"
  "localStorage (opened st) = localStorage st"
  "ls_quota (opened st) = ls_quota st"
  "ls_set_fails (opened st) = ls_set_fails st"
  "clock (opened st) = clock st"
  "clock_drift (opened st) = clock_drift st"
  by (simp_all add: opened_def getConversationCacheDB_eq open_events_def)

lemma structured_open_opened [simp]: "structured_open (opened st) = structured_open st"
  by (auto simp: structured_open_def)

lemma open_events_opened [simp]: "structured_open st \<Longrightarrow> open_events (opened st) = []"
  by (auto simp: structured_open_def open_events_def)


lemma ls_removeItem_fields [simp]:
  "trace (ls_removeItem k st) = trace st @ [LsRemoveItem k]"
  "localStorage (ls_removeItem k st) = AList.delete k (localStorage st)"
  "INDEXEDDB_AVAILABLE (ls_removeItem k st) = INDEXEDDB_AVAILABLE st"
  "dbInstance (ls_removeItem k st) = dbInstance st"
  "idb_open_fails (ls_removeItem k st) = idb_open_fails st"
  "idb_tx_throws (ls_removeItem k st) = idb_tx_throws st"
  "idb_get_fails (ls_removeItem k st) = idb_get_fails st"
  "idb_put_fails (ls_removeItem k st) = idb_put_fails st"
  "idb_cursor_fails (ls_removeItem k st) = idb_cursor_fails st"
  "idb_store (ls_removeItem k st) = idb_store st"
  "ls_quota (ls_removeItem k st) = ls_quota st"
  "ls_set_fails (ls_removeItem k st) = ls_set_fails st"
  "clock (ls_removeItem k st) = clock st"
  "clock_drift (ls_removeItem k st) = clock_drift st"
  by (simp_all add: ls_removeItem_def)

lemma idb_delete_request_fields [simp]:
  "trace (idb_delete_request k st) = trace st @ [IdbDelete k]"
  "idb_store (idb_delete_request k st) = idb_delete k (idb_store st)"
  "localStorage (idb_delete_request k st) = localStorage st"
  "INDEXEDDB_AVAILABLE (idb_delete_request k st) = INDEXEDDB_AVAILABLE st"
  "dbInstance (idb_delete_request k st) = dbInstance st"
  "idb_open_fails (idb_delete_request k st) = idb_open_fails st"
  "idb_tx_throws (idb_delete_request k st) = idb_tx_throws st"
  "idb_get_fails (idb_delete_request k st) = idb_get_fails st"
  "idb_put_fails (idb_delete_request k st) = idb_put_fails st"
  "idb_cursor_fails (idb_delete_request k st) = idb_cursor_fails st"
  "ls_quota (idb_delete_request k st) = ls_quota st"
  "ls_set_fails (idb_delete_request k st) = ls_set_fails st"
  "clock (idb_delete_request k st) = clock st"
  "clock_drift (idb_delete_request k st) = clock_drift st"
  by (simp_all add: idb_delete_request_def)

text \<open>
  The clock: a call that only touches the tiers reads the same time, and the log of an
  expired record cannot throw, because its expiry lies before a time value.
\<close>

lemma Date_now_cong: "clock st' = clock st \<Longrightarrow> Date_now st' = Date_now st"
  by (simp add: Date_now_def)

lemma Date_now_fields [simp]:
  "Date_now (called e st) = Date_now st"
  "Date_now (opened st) = Date_now st"
  by (simp_all add: Date_now_def)

lemma Date_now_le: "Date_now st \<le> DATE_MAX" "Date_now_again st \<le> DATE_MAX"
  "Date_now st \<le> Date_now_again st" "clock_drift st = 0 \<Longrightarrow> Date_now_again st = Date_now st"
  by (auto simp: Date_now_def Date_now_again_def min_def)

lemma expired_log_safe:
  assumes "isExpired r (Date_now st)" shows "\<not> toISOString_throws (expiresAt r)"
  using assms Date_now_le(1) [of st]
  by (auto simp: isExpired_def toISOString_throws_def split: option.splits)

lemma structured_open_cong:
  "INDEXEDDB_AVAILABLE st' = INDEXEDDB_AVAILABLE st \<Longrightarrow> dbInstance st' = dbInstance st \<Longrightarrow>
   idb_open_fails st' = idb_open_fails st \<Longrightarrow> structured_open st' = structured_open st"
  by (simp add: structured_open_def)

lemma idb_get_delete [simp]: "idb_get k (idb_delete k rs) = None"
  by (simp add: idb_get_def idb_delete_def find_None_iff)

lemma idb_get_put [simp]: "idb_get (cacheKey r) (idb_put r rs) = Some r"
  by (simp add: idb_get_def idb_put_def)

lemma map_of_delete_same [simp]: "map_of (AList.delete k al) k = None"
  by (simp add: delete_conv')

lemma map_of_update_same [simp]: "map_of (AList.update k v al) k = Some v"
  by (simp add: update_conv')

text \<open>The purge after a structured lookup: the handle is there and the transaction opens.\<close>

lemma deleteCachedConversation_open:
  assumes "structured_open st" "dbInstance st" "\<not> idb_tx_throws st"
  shows "deleteCachedConversation k st =
           ls_removeItem (CONVERSATION_CACHE_PREFIX @ k) (idb_delete_request k (called IdbTransaction st))"
  using assms
  by (simp add: deleteCachedConversation_def getConversationCacheDB_eq structured_open_def)

lemma lookup_structured:
  assumes "getConversationCacheKey admin dt = Inr k" "structured_open st" "\<not> idb_tx_throws st"
    "\<not> idb_get_fails st"
  shows "getCachedConversations J st admin dt =
    (let st2 = called (IdbGet k) (called IdbTransaction (opened st)) in
     case idb_get k (idb_store st) of
       None \<Rightarrow> (Resolved None, st2)
     | Some r \<Rightarrow>
         if isExpired r (Date_now st) \<or> data r = None
         then (Resolved None,
               ls_removeItem (CONVERSATION_CACHE_PREFIX @ k)
                 (idb_delete_request k (called IdbTransaction st2)))
         else if toISOString_throws (timestamp r) then (NeverSettles, st2)
         else (Resolved (data r), st2))"
proof -
  let ?st2 = "called (IdbGet k) (called IdbTransaction (opened st))"
  have so: "structured_open ?st2" using assms(2) by (simp add: structured_open_def)
  have db: "dbInstance ?st2" using assms(2) by (auto simp: structured_open_def)
  have del: "deleteCachedConversation k ?st2 =
      ls_removeItem (CONVERSATION_CACHE_PREFIX @ k) (idb_delete_request k (called IdbTransaction ?st2))"
    using so db assms(3) by (intro deleteCachedConversation_open) simp_all
  have safe: "isExpired r (Date_now st) \<Longrightarrow> \<not> toISOString_throws (expiresAt r)" for r
    by (rule expired_log_safe)
  show ?thesis
    using assms safe
    by (auto simp: getCachedConversations_def getConversationCacheDB_opened Let_def del
             split: option.splits)
qed

lemma lookup_flat:
  assumes "getConversationCacheKey admin dt = Inr k" "\<not> structured_open st"
  shows "getCachedConversations J st admin dt =
    (let key = CONVERSATION_CACHE_PREFIX @ k;
         st2 = called (LsGetItem key) (opened st) in
     case consulted_record J st k of
       None \<Rightarrow> (Resolved None, st2)
     | Some r \<Rightarrow>
         if isExpired r (Date_now st) \<or> data r = None
         then (Resolved None, ls_removeItem key st2)
         else if toISOString_throws (timestamp r) then (Resolved None, st2)
         else (Resolved (data r), st2))"
proof -
  have safe: "isExpired r (Date_now st) \<Longrightarrow> \<not> toISOString_throws (expiresAt r)" for r
    by (rule expired_log_safe)
  show ?thesis
    using assms safe
    by (auto simp: getCachedConversations_def getConversationCacheDB_opened Let_def ls_getItem_def
             consulted_record_def split: option.splits)
qed

lemma lookup_structured_miss:
  assumes "getConversationCacheKey admin dt = Inr k" "structured_open st" "\<not> idb_tx_throws st"
    "idb_get_fails st \<or> idb_get k (idb_store st) = None"
  shows "getCachedConversations J st admin dt =
           (Resolved None, called (IdbGet k) (called IdbTransaction (opened st)))"
  using assms
  by (auto simp: getCachedConversations_def getConversationCacheDB_opened Let_def
           split: option.splits)

lemma consulted_record_cong:
  assumes "structured_open st' = structured_open st" "idb_store st' = idb_store st"
    "localStorage st' = localStorage st"
  shows "consulted_record J st' k = consulted_record J st k"
  using assms by (simp add: consulted_record_def)

text \<open>
  The result of a lookup that reads its tier without an error, for a record whose
  timestamp the hit log can format.
\<close>

lemma lookup_result:
  assumes "getConversationCacheKey admin dt = Inr k"
    and "\<not> (structured_open st \<and> (idb_tx_throws st \<or> idb_get_fails st))"
    and "\<And>r. consulted_record J st k = Some r \<Longrightarrow> \<not> toISOString_throws (timestamp r)"
  shows "fst (getCachedConversations J st admin dt) =
           Resolved (case consulted_record J st k of
                       None \<Rightarrow> None
                     | Some r \<Rightarrow> if isExpired r (Date_now st) then None else data r)"
proof (cases "structured_open st")
  case True
  then show ?thesis using assms
    by (simp add: lookup_structured Let_def consulted_record_def split: option.splits)
next
  case False
  then show ?thesis using assms(1,3)
    by (simp add: lookup_flat Let_def split: option.splits)
qed

text \<open>The result when the hit log throws: the two tiers differ.\<close>

lemma lookup_log_throws:
  assumes "getConversationCacheKey admin dt = Inr k"
    and "\<not> (structured_open st \<and> (idb_tx_throws st \<or> idb_get_fails st))"
    and "consulted_record J st k = Some r" "\<not> isExpired r (Date_now st)" "data r = Some d"
    and "toISOString_throws (timestamp r)"
  shows "fst (getCachedConversations J st admin dt) =
           (if structured_open st then NeverSettles else Resolved None)"
proof (cases "structured_open st")
  case True
  then show ?thesis using assms
    by (simp add: lookup_structured Let_def consulted_record_def split: option.splits)
next
  case False
  then show ?thesis using assms
    by (simp add: lookup_flat Let_def split: option.splits)
qed

lemma lookup_miss:
  assumes "getConversationCacheKey admin dt = Inr k"
    and "\<not> (structured_open st \<and> (idb_tx_throws st \<or> idb_get_fails st))"
    and "consulted_record J st k = Some r" "isExpired r (Date_now st) \<or> data r = None"
  shows "fst (getCachedConversations J st admin dt) = Resolved None"
proof (cases "structured_open st")
  case True
  then show ?thesis using assms
    by (auto simp: lookup_structured Let_def consulted_record_def)
next
  case False
  then show ?thesis using assms
    by (auto simp: lookup_flat Let_def)
qed

lemma lookup_purges:
  assumes "getConversationCacheKey admin dt = Inr k"
    and "\<not> (structured_open st \<and> (idb_tx_throws st \<or> idb_get_fails st))"
    and "consulted_record J st k = Some r" "isExpired r (Date_now st) \<or> data r = None"
  shows "consulted_record J (snd (getCachedConversations J st admin dt)) k = None"
proof (cases "structured_open st")
  case True
  then show ?thesis using assms
    by (auto simp: lookup_structured Let_def consulted_record_def structured_open_def)
next
  case False
  then show ?thesis using assms
    by (auto simp: lookup_flat Let_def consulted_record_def structured_open_def)
qed

lemma lookup_hit_keeps:
  assumes "getConversationCacheKey admin dt = Inr k"
    and "\<not> (structured_open st \<and> (idb_tx_throws st \<or> idb_get_fails st))"
    and "consulted_record J st k = Some r" "\<not> isExpired r (Date_now st)" "data r = Some d"
  shows "idb_store (snd (getCachedConversations J st admin dt)) = idb_store st \<and>
         localStorage (snd (getCachedConversations J st admin dt)) = localStorage st \<and>
         consulted_record J (snd (getCachedConversations J st admin dt)) k = Some r"
proof (cases "structured_open st")
  case True
  then show ?thesis using assms
    by (auto simp: lookup_structured Let_def consulted_record_def structured_open_def)
next
  case False
  then show ?thesis using assms
    by (auto simp: lookup_flat Let_def consulted_record_def structured_open_def)
qed

lemmas example_defs =
  fresh_state_def payload_with_list_def payload_without_list_def record_with_list_def
  record_without_list_def record_without_payload_def example_json_def

lemmas model_defs =
  getCachedConversations_def getConversationCacheKey_def normalizedAdminId_def trim_def
  js_whitespace_def before_T_def getConversationCacheDB_def initConversationCacheDB_def
  called_def idb_get_def isExpired_def deleteCachedConversation_def ls_getItem_def
  ls_removeItem_def idb_delete_request_def idb_delete_def CONVERSATION_CACHE_PREFIX_def
  structured_open_def consulted_record_def Date_now_def Date_now_again_def DATE_MAX_def
  toISOString_throws_def

lemma key_42: "getConversationCacheKey (Some ''42'') (DateString ''2024-03-05'') = Inr ''42_2024-03-05''"
  by (simp add: getConversationCacheKey_def normalizedAdminId_def trim_def js_whitespace_def)

section \<open>What every operation leaves unchanged\<close>

lemma count_once:
  assumes "c1 = (if d1 \<and> \<not> d0 then 1 else 0)" "c2 = (if d2 \<and> \<not> d1 then 1 else 0)"
    "d0 \<longrightarrow> d1" "d1 \<longrightarrow> d2"
  shows "c1 + c2 = (if d2 \<and> \<not> d0 then (1::nat) else 0)"
  using assms by (cases d0; cases d1; cases d2) simp_all

lemma evolves_refl [simp]: "evolves st st"
  by (simp add: evolves_def)

lemma evolves_structured_open: "evolves st st' \<Longrightarrow> structured_open st' = structured_open st"
  unfolding evolves_def structured_open_def by blast

lemma evolves_switches:
  assumes "evolves st st'"
  shows "INDEXEDDB_AVAILABLE st' = INDEXEDDB_AVAILABLE st" "idb_open_fails st' = idb_open_fails st"
    "idb_tx_throws st' = idb_tx_throws st" "idb_get_fails st' = idb_get_fails st"
    "idb_put_fails st' = idb_put_fails st" "idb_cursor_fails st' = idb_cursor_fails st"
    "ls_quota st' = ls_quota st" "ls_set_fails st' = ls_set_fails st"
    "clock st' = clock st" "clock_drift st' = clock_drift st"
    "dbInstance st \<longrightarrow> dbInstance st'" "dbInstance st' \<longrightarrow> dbInstance st \<or> structured_open st"
  using assms unfolding evolves_def by blast+

lemma allowed_call_mono:
  assumes "evolves st st1" "allowed_call st1 e" shows "allowed_call st e"
  using assms(2) evolves_switches(1,11) [OF assms(1)] by (auto simp: allowed_call_def)

lemma evolves_trace:
  assumes "evolves st st'"
  obtains evs where "trace st' = trace st @ evs" "list_all (allowed_call st) evs"
    "\<not> idb_open_fails st \<longrightarrow>
       count_list evs IdbOpen = (if dbInstance st' \<and> \<not> dbInstance st then 1 else 0)"
proof -
  from assms have "\<exists>evs. trace st' = trace st @ evs \<and> list_all (allowed_call st) evs \<and>
    (\<not> idb_open_fails st \<longrightarrow>
       count_list evs IdbOpen = (if dbInstance st' \<and> \<not> dbInstance st then 1 else 0))"
    unfolding evolves_def by (rule conjunct1)
  then show ?thesis using that by blast
qed

lemma evolves_trans:
  assumes a: "evolves st st1" and b: "evolves st1 st2"
  shows "evolves st st2"
proof -
  from a obtain e1 where e1: "trace st1 = trace st @ e1" "list_all (allowed_call st) e1"
    "\<not> idb_open_fails st \<longrightarrow>
       count_list e1 IdbOpen = (if dbInstance st1 \<and> \<not> dbInstance st then 1 else 0)"
    by (rule evolves_trace)
  from b obtain e2 where e2: "trace st2 = trace st1 @ e2" "list_all (allowed_call st1) e2"
    "\<not> idb_open_fails st1 \<longrightarrow>
       count_list e2 IdbOpen = (if dbInstance st2 \<and> \<not> dbInstance st1 then 1 else 0)"
    by (rule evolves_trace)
  note sa = evolves_switches [OF a] and sb = evolves_switches [OF b]
  have "list_all (allowed_call st) e2"
    using e2(2) allowed_call_mono [OF a] by (simp add: list_all_iff)
  then have al: "list_all (allowed_call st) (e1 @ e2)" using e1(2) by simp
  have cnt: "count_list (e1 @ e2) IdbOpen = (if dbInstance st2 \<and> \<not> dbInstance st then 1 else 0)"
    if "\<not> idb_open_fails st"
  proof -
    have c1: "count_list e1 IdbOpen = (if dbInstance st1 \<and> \<not> dbInstance st then 1 else 0)"
      using e1(3) that by simp
    have c2: "count_list e2 IdbOpen = (if dbInstance st2 \<and> \<not> dbInstance st1 then 1 else 0)"
      using e2(3) that sa(2) by simp
    show ?thesis unfolding count_list_append by (rule count_once [OF c1 c2 sa(11) sb(11)])
  qed
  have tr: "trace st2 = trace st @ (e1 @ e2)" using e1(1) e2(1) by simp
  have t: "\<exists>evs. trace st2 = trace st @ evs \<and> list_all (allowed_call st) evs \<and>
    (\<not> idb_open_fails st \<longrightarrow>
       count_list evs IdbOpen = (if dbInstance st2 \<and> \<not> dbInstance st then 1 else 0))"
    using tr al cnt by blast
  have so: "structured_open st1 = structured_open st" using a by (rule evolves_structured_open)
  have d: "dbInstance st2 \<longrightarrow> dbInstance st \<or> structured_open st"
    using sa(12) sb(12) so by blast
  have k: "dbInstance st \<longrightarrow> dbInstance st2" using sa(11) sb(11) by blast
  show ?thesis
    unfolding evolves_def
    by (intro conjI t d k) (simp_all only: sa(1-10) sb(1-10))
qed

lemma evolves_called:
  assumes "allowed_call st e" "e \<noteq> IdbOpen" shows "evolves st (called e st)"
  using assms by (simp add: evolves_def)

lemma evolves_called_ls [simp]:
  "evolves st (called LsKeys st)" "evolves st (called (LsGetItem k) st)"
  "evolves st (called (LsSetItem k v) st)" "evolves st (called (LsRemoveItem k) st)"
  by (simp_all add: evolves_called allowed_call_def)

lemma evolves_called_idb:
  assumes "INDEXEDDB_AVAILABLE st"
  shows "evolves st (called IdbTransaction st)" "evolves st (called (IdbGet k) st)"
    "evolves st (called (IdbPut k) st)" "evolves st (called (IdbDelete k) st)"
    "evolves st (called IdbCursor st)"
  using assms by (simp_all add: evolves_called allowed_call_def)

lemma evolves_stores [simp]:
  "evolves st (st\<lparr>idb_store := x\<rparr>)" "evolves st (st\<lparr>localStorage := y\<rparr>)"
  by (simp_all add: evolves_def structured_open_def)

lemma evolves_ls_removeItem [simp]: "evolves st (ls_removeItem k st)"
  unfolding ls_removeItem_def
  by (rule evolves_trans [OF evolves_called_ls(4) evolves_stores(2)])

lemma evolves_ls_getItem [simp]: "evolves st (snd (ls_getItem k st))"
  by (simp add: ls_getItem_def)

lemma evolves_ls_setItem [simp]: "evolves st (snd (ls_setItem k v st))"
  unfolding ls_setItem_def Let_def
  by (auto intro: evolves_trans [OF evolves_called_ls(3) evolves_stores(2)])

lemma evolves_idb_delete_request:
  assumes "INDEXEDDB_AVAILABLE st" shows "evolves st (idb_delete_request k st)"
  unfolding idb_delete_request_def
  by (rule evolves_trans [OF evolves_called_idb(4) [OF assms] evolves_stores(1)])

lemma evolves_opened [simp]: "evolves st (opened st)"
  by (auto simp: evolves_def open_events_def allowed_call_def structured_open_def)

lemma structured_open_available: "structured_open st \<Longrightarrow> INDEXEDDB_AVAILABLE st"
  by (simp add: structured_open_def)

lemma evolves_available: "evolves st st' \<Longrightarrow> INDEXEDDB_AVAILABLE st' = INDEXEDDB_AVAILABLE st"
  by (rule evolves_switches(1))

lemma evolves_deleteCachedConversation [simp]: "evolves st (deleteCachedConversation k st)"
proof -
  let ?st1 = "opened st"
  let ?st2 = "if structured_open st then
                (if idb_tx_throws ?st1 then called IdbTransaction ?st1
                 else idb_delete_request k (called IdbTransaction ?st1))
              else ?st1"
  have eq: "deleteCachedConversation k st = ls_removeItem (CONVERSATION_CACHE_PREFIX @ k) ?st2"
    by (simp add: deleteCachedConversation_def getConversationCacheDB_opened Let_def)
  have "evolves ?st1 ?st2"
  proof (cases "structured_open st")
    case True
    then have av: "INDEXEDDB_AVAILABLE ?st1" by (simp add: structured_open_available)
    have t: "evolves ?st1 (called IdbTransaction ?st1)" using av by (rule evolves_called_idb)
    have "evolves (called IdbTransaction ?st1) (idb_delete_request k (called IdbTransaction ?st1))"
      using av by (intro evolves_idb_delete_request) simp
    with t have "evolves ?st1 (idb_delete_request k (called IdbTransaction ?st1))"
      by (rule evolves_trans)
    with t True show ?thesis by simp
  next
    case False
    then show ?thesis by simp
  qed
  then have "evolves st ?st2" by (rule evolves_trans [OF evolves_opened])
  then show ?thesis unfolding eq by (rule evolves_trans) simp
qed


text \<open>
  A lookup of a well-formed key, a sweep and a store of valid arguments start with
  \<^verbatim>\<open>getConversationCacheDB\<close>; what follows keeps the handle it has cached.
\<close>

lemma evolves_lookup_opened:
  assumes key: "getConversationCacheKey admin dt = Inr k"
  shows "evolves (opened st) (snd (getCachedConversations J st admin dt))"
proof -
  let ?st1 = "opened st"
  show ?thesis
  proof (cases "structured_open st")
    case True
    then have av: "INDEXEDDB_AVAILABLE ?st1" by (simp add: structured_open_available)
    let ?tx = "called IdbTransaction ?st1"
    let ?st2 = "called (IdbGet k) ?tx"
    have tx: "evolves ?st1 ?tx" using av by (rule evolves_called_idb(1))
    have "evolves ?tx ?st2" using av by (intro evolves_called_idb) simp
    with tx have st2: "evolves ?st1 ?st2" by (rule evolves_trans)
    have del: "evolves ?st1 (deleteCachedConversation k ?st2)"
      using st2 by (rule evolves_trans) simp
    show ?thesis
      using key True tx st2 del
      by (simp add: getCachedConversations_def getConversationCacheDB_opened Let_def
            split: option.splits)
  next
    case False
    let ?key = "CONVERSATION_CACHE_PREFIX @ k"
    let ?st2 = "called (LsGetItem ?key) ?st1"
    have st2: "evolves ?st1 ?st2" by simp
    have rm: "evolves ?st1 (ls_removeItem ?key ?st2)" using st2 by (rule evolves_trans) simp
    show ?thesis
      using key False st2 rm
      by (simp add: getCachedConversations_def getConversationCacheDB_opened Let_def
            ls_getItem_def split: option.splits)
  qed
qed

lemma evolves_lookup [simp]: "evolves st (snd (getCachedConversations J st admin dt))"
proof (cases "getConversationCacheKey admin dt")
  case (Inl e)
  then show ?thesis by (simp add: getCachedConversations_def)
next
  case (Inr k)
  then have "evolves (opened st) (snd (getCachedConversations J st admin dt))"
    by (rule evolves_lookup_opened)
  then show ?thesis by (rule evolves_trans [OF evolves_opened])
qed

lemma evolves_fold:
  assumes "\<And>s x. P s \<Longrightarrow> evolves s (f s x) \<and> P (f s x)" "P st"
  shows "evolves st (foldl f st xs)"
  using assms(2)
proof (induction xs arbitrary: st)
  case Nil
  show ?case by simp
next
  case (Cons x xs)
  have a: "evolves st (f st x)" "P (f st x)" using assms(1) [OF Cons.prems] by simp_all
  have "evolves (f st x) (foldl f (f st x) xs)" using a(2) by (rule Cons.IH)
  with a(1) show ?case by (simp add: evolves_trans)
qed

lemma evolves_sweepEntries:
  assumes "INDEXEDDB_AVAILABLE st" shows "evolves st (sweepEntries J entries st)"
proof -
  have fold: "evolves s (foldl (\<lambda>s entry. idb_delete_request (cacheKey entry) s)
                  (called IdbTransaction s) es)" if "INDEXEDDB_AVAILABLE s" for s es
  proof -
    have "evolves (called IdbTransaction s)
            (foldl (\<lambda>s entry. idb_delete_request (cacheKey entry) s) (called IdbTransaction s) es)"
      by (rule evolves_fold [where P = INDEXEDDB_AVAILABLE])
         (use that in \<open>simp_all add: evolves_idb_delete_request\<close>)
    then show ?thesis by (rule evolves_trans [OF evolves_called_idb(1) [OF that]])
  qed
  let ?st1 = "if length entries > 50
              then foldl (\<lambda>s entry. idb_delete_request (cacheKey entry) s)
                     (called IdbTransaction st) (drop 50 entries)
              else st"
  have s1: "evolves st ?st1" by (simp add: fold [OF assms])
  then have av1: "INDEXEDDB_AVAILABLE ?st1" using assms by (simp only: evolves_available)
  have "evolves ?st1 (foldl (\<lambda>s entry. idb_delete_request (cacheKey entry) s)
                  (called IdbTransaction ?st1) (drop 30 entries))"
    using av1 by (rule fold)
  with s1 have s2: "evolves st (foldl (\<lambda>s entry. idb_delete_request (cacheKey entry) s)
                  (called IdbTransaction ?st1) (drop 30 entries))"
    by (rule evolves_trans)
  show ?thesis
  proof (cases "totalSize J entries > 500 * 1024 * 1024 \<and> length entries > 30")
    case True
    then show ?thesis using s2 by (simp add: sweepEntries_def Let_def)
  next
    case False
    then show ?thesis using s1 by (auto simp: sweepEntries_def Let_def)
  qed
qed

lemma evolves_clearOldLocalStorage [simp]: "evolves st (clearOldLocalStorage J st)"
proof -
  let ?st1 = "called LsKeys st"
  have s1: "evolves st ?st1" by simp
  have "evolves ?st1 (foldl (\<lambda>s k. called (LsGetItem k) s) ?st1 ks)" for ks
    by (rule evolves_fold [where P = "\<lambda>s. True"]) simp_all
  with s1 have s2: "evolves st (foldl (\<lambda>s k. called (LsGetItem k) s) ?st1 ks)" for ks
    by (rule evolves_trans)
  have "evolves s (foldl (\<lambda>s entry. ls_removeItem (entry_key entry) s) s es)" for s es
    by (rule evolves_fold [where P = "\<lambda>s. True"]) simp_all
  with s2 have s3: "evolves st (foldl (\<lambda>s entry. ls_removeItem (entry_key entry) s)
      (foldl (\<lambda>s k. called (LsGetItem k) s) ?st1 ks) es)" for ks es
    by (rule evolves_trans)
  show ?thesis
    unfolding clearOldLocalStorage_def Let_def
    by (simp add: s1 s2 s3 del: sort_key_simps)
qed

lemma evolves_sweep_opened: "evolves (opened st) (snd (clearOldCacheEntries J st))"
proof (cases "structured_open st")
  case True
  let ?st1 = "opened st"
  have av: "INDEXEDDB_AVAILABLE ?st1" using True by (simp add: structured_open_available)
  let ?tx = "called IdbTransaction ?st1"
  let ?st2 = "called IdbCursor ?tx"
  have tx: "evolves ?st1 ?tx" using av by (rule evolves_called_idb(1))
  have "evolves ?tx ?st2" using av by (intro evolves_called_idb) simp
  with tx have st2: "evolves ?st1 ?st2" by (rule evolves_trans)
  have "evolves ?st2 (sweepEntries J es ?st2)" for es
    using av by (intro evolves_sweepEntries) simp
  with st2 have sw: "evolves ?st1 (sweepEntries J es ?st2)" for es by (rule evolves_trans)
  show ?thesis using True tx st2 sw
    by (simp add: clearOldCacheEntries_def getConversationCacheDB_opened Let_def)
next
  case False
  then show ?thesis
    by (simp add: clearOldCacheEntries_def getConversationCacheDB_opened)
qed

lemma evolves_clearOldCacheEntries [simp]: "evolves st (snd (clearOldCacheEntries J st))"
  by (rule evolves_trans [OF evolves_opened evolves_sweep_opened])

lemma evolves_cacheToLocalStorage [simp]: "evolves st (snd (cacheToLocalStorage J k r st))"
proof -
  let ?key = "CONVERSATION_CACHE_PREFIX @ k"
  let ?v = "stringify J r"
  obtain o1 st1 where o1: "ls_setItem ?key ?v st = (o1, st1)" by (cases "ls_setItem ?key ?v st")
  have s1: "evolves st st1" using evolves_ls_setItem [of st ?key ?v] by (simp add: o1)
  have get: "evolves s (snd (ls_getItem ?key s))" for s by simp
  have s1g: "evolves st (snd (ls_getItem ?key st1))" using s1 get by (rule evolves_trans)
  obtain p2 st2 where p2: "clearOldCacheEntries J st1 = (p2, st2)"
    by (cases "clearOldCacheEntries J st1")
  have s2: "evolves st st2"
    using s1 evolves_clearOldCacheEntries [of st1 J] unfolding p2 snd_conv by (rule evolves_trans)
  obtain o3 st3 where o3: "ls_setItem ?key ?v st2 = (o3, st3)" by (cases "ls_setItem ?key ?v st2")
  have s3: "evolves st st3"
    using s2 evolves_ls_setItem [of st2 ?key ?v] unfolding o3 snd_conv by (rule evolves_trans)
  have s4: "evolves st (snd (ls_getItem ?key st3))" using s3 get by (rule evolves_trans)
  show ?thesis
  proof (cases "length ?v > 2 * 1024 * 1024")
    case True
    then show ?thesis by (simp add: cacheToLocalStorage_def)
  next
    case small: False
    show ?thesis
    proof (cases o1)
      case Stored
      then show ?thesis using small o1 s1g
        by (simp add: cacheToLocalStorage_def Let_def case_prod_unfold)
    next
      case OtherError
      then show ?thesis using small o1 s1 by (simp add: cacheToLocalStorage_def Let_def)
    next
      case QuotaExceededError
      show ?thesis
      proof (cases p2)
        case (Resolved u)
        then show ?thesis using small o1 QuotaExceededError p2 o3 s3 s4
          by (cases o3) (simp_all add: cacheToLocalStorage_def Let_def case_prod_unfold)
      next
        case (Rejected e)
        then show ?thesis using small o1 QuotaExceededError p2 s2
          by (simp add: cacheToLocalStorage_def Let_def)
      next
        case NeverSettles
        then show ?thesis using small o1 QuotaExceededError p2 s2
          by (simp add: cacheToLocalStorage_def Let_def)
      qed
    qed
  qed
qed

lemma evolves_store_opened:
  assumes valid: "admin_truthy admin" "date_truthy dt"
    and key: "getConversationCacheKey admin dt = Inr k"
  shows "evolves (opened st) (snd (cacheConversations J st admin dt (Some d)))"
proof -
  let ?st1 = "opened st"
  let ?r = "buildCacheData st k admin dt d"
  show ?thesis
  proof (cases "structured_open st")
    case True
    then have av: "INDEXEDDB_AVAILABLE ?st1" by (simp add: structured_open_available)
    let ?tx = "called IdbTransaction ?st1"
    let ?st2 = "called (IdbPut k) ?tx"
    have tx: "evolves ?st1 ?tx" using av by (rule evolves_called_idb(1))
    have "evolves ?tx ?st2" using av by (intro evolves_called_idb) simp
    with tx have st2: "evolves ?st1 ?st2" by (rule evolves_trans)
    have put: "evolves ?st1 (?st2\<lparr>idb_store := x\<rparr>)" for x
      using st2 by (rule evolves_trans) simp
    have fb: "evolves ?st1 (snd (cacheToLocalStorage J k ?r ?st2))"
      using st2 by (rule evolves_trans) simp
    obtain p st3 where p: "cacheToLocalStorage J k ?r ?st2 = (p, st3)"
      by (cases "cacheToLocalStorage J k ?r ?st2")
    have fb': "evolves ?st1 st3" using fb by (simp add: p)
    show ?thesis
      using valid key True tx st2 put fb' p
      by (cases p) (auto simp: cacheConversations_def getConversationCacheDB_opened Let_def)
  next
    case False
    then show ?thesis using valid key
      by (simp add: cacheConversations_def getConversationCacheDB_opened Let_def)
  qed
qed

lemma evolves_cacheConversations [simp]: "evolves st (snd (cacheConversations J st admin dt dat))"
proof (cases "\<not> admin_truthy admin \<or> \<not> date_truthy dt \<or> dat = None")
  case True
  then show ?thesis by (simp add: cacheConversations_def)
next
  case valid: False
  then obtain d where d: "dat = Some d" by auto
  show ?thesis
  proof (cases "getConversationCacheKey admin dt")
    case (Inl e)
    then show ?thesis using valid by (simp add: cacheConversations_def)
  next
    case (Inr k)
    have "evolves (opened st) (snd (cacheConversations J st admin dt (Some d)))"
      using valid Inr by (intro evolves_store_opened) simp_all
    then show ?thesis unfolding d by (rule evolves_trans [OF evolves_opened])
  qed
qed

text \<open>So each of them leaves a handle cached when the open succeeds.\<close>

lemma opened_handle: "structured_open st \<Longrightarrow> dbInstance (opened st)"
  by (auto simp: structured_open_def)

lemma handle_cached:
  assumes "structured_open st"
  shows "dbInstance (snd (clearOldCacheEntries J st))"
    "getConversationCacheKey admin dt = Inr k \<Longrightarrow>
       dbInstance (snd (getCachedConversations J st admin dt))"
    "admin_truthy admin \<Longrightarrow> date_truthy dt \<Longrightarrow> getConversationCacheKey admin dt = Inr k \<Longrightarrow>
       dbInstance (snd (cacheConversations J st admin dt (Some d)))"
proof -
  note h = opened_handle [OF assms]
  show "dbInstance (snd (clearOldCacheEntries J st))"
    using evolves_switches(11) [OF evolves_sweep_opened, of st J] h by simp
  show "dbInstance (snd (getCachedConversations J st admin dt))"
    if "getConversationCacheKey admin dt = Inr k"
    using evolves_switches(11) [OF evolves_lookup_opened [OF that], of st J] h by simp
  show "dbInstance (snd (cacheConversations J st admin dt (Some d)))"
    if "admin_truthy admin" "date_truthy dt" "getConversationCacheKey admin dt = Inr k"
    using evolves_switches(11) [OF evolves_store_opened [OF that], of st J d] h by simp
qed

lemma session_evolves: "session J st st' \<Longrightarrow> evolves st st'"
proof (induction rule: session.induct)
  case start
  show ?case by simp
next
  case (lookup st1 st2 admin dt)
  then show ?case by (auto intro: evolves_trans)
next
  case (store st1 st2 admin dt dat)
  then show ?case by (auto intro: evolves_trans)
next
  case (sweep st1 st2)
  then show ?case by (auto intro: evolves_trans)
qed

lemma evolves_calls_made:
  assumes "evolves st st'"
  shows "trace st' = trace st @ calls_made st st'" "list_all (allowed_call st) (calls_made st st')"
    "\<not> idb_open_fails st \<Longrightarrow>
       count_list (calls_made st st') IdbOpen = (if dbInstance st' \<and> \<not> dbInstance st then 1 else 0)"
proof -
  from assms obtain evs where "trace st' = trace st @ evs" "list_all (allowed_call st) evs"
    "\<not> idb_open_fails st \<longrightarrow>
       count_list evs IdbOpen = (if dbInstance st' \<and> \<not> dbInstance st then 1 else 0)"
    by (rule evolves_trace)
  then show "trace st' = trace st @ calls_made st st'"
    "list_all (allowed_call st) (calls_made st st')"
    "\<not> idb_open_fails st \<Longrightarrow>
       count_list (calls_made st st') IdbOpen = (if dbInstance st' \<and> \<not> dbInstance st then 1 else 0)"
    by (simp_all add: calls_made_def)
qed

lemmas store_defs =
  cacheConversations_def admin_truthy_def buildCacheData_def cacheToLocalStorage_def
  ls_setItem_def ls_size_def falsy_def idb_put_def String_of_admin_def CACHE_EXPIRY_HOURS_def

section \<open>Where a store puts the record\<close>

lemma ls_setItem_Stored:
  assumes "ls_setItem k v st = (Stored, st1)"
  shows "localStorage st1 = AList.update k v (localStorage st)"
  using assms by (auto simp: ls_setItem_def Let_def split: if_splits)

lemma ls_getItem_eq: "ls_getItem k st = (map_of (localStorage st) k, called (LsGetItem k) st)"
  by (simp add: ls_getItem_def)

lemma cacheToLocalStorage_True:
  assumes "cacheToLocalStorage J k r st = (Resolved True, st')"
  shows "map_of (localStorage st') (CONVERSATION_CACHE_PREFIX @ k) = Some (stringify J r) \<and>
         stringify J r \<noteq> []"
proof -
  let ?key = "CONVERSATION_CACHE_PREFIX @ k"
  let ?v = "stringify J r"
  obtain o1 st1 where o1: "ls_setItem ?key ?v st = (o1, st1)" by (cases "ls_setItem ?key ?v st")
  obtain p2 st2 where p2: "clearOldCacheEntries J st1 = (p2, st2)"
    by (cases "clearOldCacheEntries J st1")
  obtain o3 st3 where o3: "ls_setItem ?key ?v st2 = (o3, st3)" by (cases "ls_setItem ?key ?v st2")
  have small: "\<not> length ?v > 2 * 1024 * 1024"
    using assms by (auto simp: cacheToLocalStorage_def)
  show ?thesis
  proof (cases o1)
    case Stored
    then have "localStorage st1 = AList.update ?key ?v (localStorage st)"
      using o1 by (simp add: ls_setItem_Stored)
    then show ?thesis using assms small o1 Stored
      by (auto simp: cacheToLocalStorage_def Let_def ls_getItem_eq falsy_def split: if_splits)
  next
    case OtherError
    then show ?thesis using assms small o1 by (simp add: cacheToLocalStorage_def Let_def)
  next
    case QuotaExceededError
    show ?thesis
    proof (cases p2)
      case (Resolved u)
      show ?thesis
      proof (cases o3)
        case Stored
        then have "localStorage st3 = AList.update ?key ?v (localStorage st2)"
          using o3 by (simp add: ls_setItem_Stored)
        then show ?thesis using assms small o1 QuotaExceededError p2 Resolved o3 Stored
          by (auto simp: cacheToLocalStorage_def Let_def ls_getItem_eq falsy_def split: if_splits)
      next
        case QuotaExceededError
        then show ?thesis using assms small o1 \<open>o1 = QuotaExceededError\<close> p2 Resolved o3
          by (simp add: cacheToLocalStorage_def Let_def)
      next
        case OtherError
        then show ?thesis using assms small o1 QuotaExceededError p2 Resolved o3
          by (simp add: cacheToLocalStorage_def Let_def)
      qed
    next
      case (Rejected e)
      then show ?thesis using assms small o1 QuotaExceededError p2
        by (simp add: cacheToLocalStorage_def Let_def)
    next
      case NeverSettles
      then show ?thesis using assms small o1 QuotaExceededError p2
        by (simp add: cacheToLocalStorage_def Let_def)
    qed
  qed
qed

lemma buildCacheData_fields [simp]:
  "cacheKey (buildCacheData st k admin dt d) = k"
  "data (buildCacheData st k admin dt d) = Some d"
  "timestamp (buildCacheData st k admin dt d) = Some (Date_now_again st)"
  "expiresAt (buildCacheData st k admin dt d) = Some (Date_now st + 24 * 60 * 60 * 1000)"
  by (simp_all add: buildCacheData_def CACHE_EXPIRY_HOURS_def Let_def)

text \<open>The record that a store builds is not expired at the store's time, and the hit log can
  format its timestamp.\<close>

lemma buildCacheData_fresh:
  "\<not> isExpired (buildCacheData st k admin dt d) (Date_now st)"
  "\<not> toISOString_throws (timestamp (buildCacheData st k admin dt d))"
  using Date_now_le(2) [of st] by (simp_all add: isExpired_def toISOString_throws_def)

text \<open>Where a store that reports success has put the record.\<close>

lemma store_True:
  assumes key: "getConversationCacheKey admin dt = Inr k"
    and put: "cacheConversations J st admin dt (Some d) = (Resolved True, st1)"
  shows "if structured_open st \<and> \<not> idb_put_fails st
         then \<not> idb_tx_throws st \<and> idb_get k (idb_store st1) = Some (buildCacheData st k admin dt d)
         else map_of (localStorage st1) (CONVERSATION_CACHE_PREFIX @ k) =
                Some (stringify J (buildCacheData st k admin dt d)) \<and>
              stringify J (buildCacheData st k admin dt d) \<noteq> []"
proof -
  let ?r = "buildCacheData st k admin dt d"
  have valid: "admin_truthy admin" "date_truthy dt"
    using put by (auto simp: cacheConversations_def split: if_splits)
  show ?thesis
  proof (cases "structured_open st")
    case False
    then have "cacheToLocalStorage J k ?r (opened st) = (Resolved True, st1)"
      using put key valid
      by (simp add: cacheConversations_def getConversationCacheDB_opened Let_def)
    then show ?thesis using False by (simp add: cacheToLocalStorage_True)
  next
    case True
    then have tx: "\<not> idb_tx_throws st"
      using put key valid
      by (auto simp: cacheConversations_def getConversationCacheDB_opened Let_def split: if_splits)
    let ?st2 = "called (IdbPut k) (called IdbTransaction (opened st))"
    show ?thesis
    proof (cases "idb_put_fails st")
      case False
      then have "st1 = ?st2\<lparr>idb_store := idb_put ?r (idb_store ?st2)\<rparr>"
        using put key valid True tx
        by (simp add: cacheConversations_def getConversationCacheDB_opened Let_def
              split: if_splits)
      then have "idb_get k (idb_store st1) = Some ?r"
        using idb_get_put [of ?r] by simp
      then show ?thesis using True False tx by simp
    next
      case fails: True
      obtain p st3 where p: "cacheToLocalStorage J k ?r ?st2 = (p, st3)"
        by (cases "cacheToLocalStorage J k ?r ?st2")
      have "p = Resolved True \<and> st3 = st1"
        using put key valid True tx fails p
        by (cases p) (auto simp: cacheConversations_def getConversationCacheDB_opened Let_def)
      then show ?thesis using p fails by (simp add: cacheToLocalStorage_True)
    qed
  qed
qed

lemma store_evolves:
  assumes "cacheConversations J st admin dt dat = (res, st1)"
  shows "evolves st st1"
  using evolves_cacheConversations [of st J admin dt dat] assms by simp

lemma built_record_fresh:
  "buildCacheData fresh_state ''42_2024-03-05'' (Some ''42'') (DateString ''2024-03-05'')
     payload_with_list = record_with_list"
  by (simp add: buildCacheData_def String_of_admin_def CACHE_EXPIRY_HOURS_def example_defs
        Date_now_def Date_now_again_def DATE_MAX_def)

lemma example_codec:
  "parse (example_json record_with_list) (stringify (example_json record_with_list) record_with_list) =
     Some record_with_list"
  by (simp add: example_json_def)

lemmas sweep_defs =
  clearOldCacheEntries_def sweepEntries_def idb_cursor_prev_def clearOldLocalStorage_def
  cacheEntry_def isCacheKey_def startsWith_def AList.delete_eq totalSize_def

section \<open>Store, then lookup\<close>

text \<open>
  Claim C1, as the code has it. If a store of a payload reports success, the record it
  built survives \<^verbatim>\<open>JSON.stringify\<close> and \<^verbatim>\<open>JSON.parse\<close>, and the structured tier, when
  there is a handle, performs the \<^verbatim>\<open>put\<close> and answers \<^verbatim>\<open>get\<close> requests, then a lookup of
  the same owner and date right after it returns that payload.
\<close>

theorem store_then_lookup:
  assumes key: "getConversationCacheKey admin dt = Inr k"
    and put: "cacheConversations J st admin dt (Some d) = (Resolved True, st1)"
    and codec: "parse J (stringify J (buildCacheData st k admin dt d)) =
                  Some (buildCacheData st k admin dt d)"
    and tier: "structured_open st \<longrightarrow> \<not> idb_put_fails st \<and> \<not> idb_get_fails st"
  shows "fst (getCachedConversations J st1 admin dt) = Resolved (Some d)"
proof -
  let ?r = "buildCacheData st k admin dt d"
  have ev: "evolves st st1" using put by (rule store_evolves)
  then have so: "structured_open st1 = structured_open st" by (rule evolves_structured_open)
  have flags: "idb_tx_throws st1 = idb_tx_throws st" "idb_get_fails st1 = idb_get_fails st"
    "clock st1 = clock st"
    by (rule evolves_switches [OF ev])+
  note where_put = store_True [OF key put]
  have tx: "structured_open st \<longrightarrow> \<not> idb_tx_throws st" using where_put tier by auto
  have rec: "consulted_record J st1 k = Some ?r"
    using where_put tier codec by (auto simp: consulted_record_def so)
  have ok: "\<not> (structured_open st1 \<and> (idb_tx_throws st1 \<or> idb_get_fails st1))"
    using tier tx by (simp add: so flags)
  have now: "Date_now st1 = Date_now st" using flags(3) by (rule Date_now_cong)
  have fresh: "\<not> isExpired ?r (Date_now st1)" unfolding now by (rule buildCacheData_fresh)
  have "\<not> toISOString_throws (timestamp r)" if "consulted_record J st1 k = Some r" for r
    using that rec buildCacheData_fresh(2) [of st k admin dt d] by simp
  then have "fst (getCachedConversations J st1 admin dt) =
      Resolved (case consulted_record J st1 k of
                  None \<Rightarrow> None
                | Some r \<Rightarrow> if isExpired r (Date_now st1) then None else data r)"
    by (rule lookup_result [OF key ok])
  then show ?thesis using rec fresh by simp
qed

theorem store_then_lookup_witness:
  "getConversationCacheKey (Some ''42'') (DateString ''2024-03-05'') = Inr ''42_2024-03-05'' \<and>
   parse (example_json record_with_list)
     (stringify (example_json record_with_list)
        (buildCacheData fresh_state ''42_2024-03-05'' (Some ''42'') (DateString ''2024-03-05'')
           payload_with_list)) =
     Some (buildCacheData fresh_state ''42_2024-03-05'' (Some ''42'') (DateString ''2024-03-05'')
             payload_with_list) \<and>
   structured_open fresh_state \<and> \<not> idb_put_fails fresh_state \<and> \<not> idb_get_fails fresh_state \<and>
   fst (cacheConversations (example_json record_with_list) fresh_state
          (Some ''42'') (DateString ''2024-03-05'') (Some payload_with_list)) = Resolved True \<and>
   fst (getCachedConversations (example_json record_with_list)
          (snd (cacheConversations (example_json record_with_list) fresh_state
                  (Some ''42'') (DateString ''2024-03-05'') (Some payload_with_list)))
          (Some ''42'') (DateString ''2024-03-05'')) = Resolved (Some payload_with_list) \<and>
   \<not> structured_open (fresh_state\<lparr>INDEXEDDB_AVAILABLE := False\<rparr>) \<and>
   fst (cacheConversations (example_json record_with_list)
          (fresh_state\<lparr>INDEXEDDB_AVAILABLE := False\<rparr>)
          (Some ''42'') (DateString ''2024-03-05'') (Some payload_with_list)) = Resolved True \<and>
   fst (getCachedConversations (example_json record_with_list)
          (snd (cacheConversations (example_json record_with_list)
                  (fresh_state\<lparr>INDEXEDDB_AVAILABLE := False\<rparr>)
                  (Some ''42'') (DateString ''2024-03-05'') (Some payload_with_list)))
          (Some ''42'') (DateString ''2024-03-05'')) = Resolved (Some payload_with_list)"
proof -
  define J where "J = example_json record_with_list"
  define flat where "flat = fresh_state\<lparr>INDEXEDDB_AVAILABLE := False\<rparr>"
  define res where "res = cacheConversations J fresh_state
          (Some ''42'') (DateString ''2024-03-05'') (Some payload_with_list)"
  define res' where "res' = cacheConversations J flat
          (Some ''42'') (DateString ''2024-03-05'') (Some payload_with_list)"
  have ok: "fst res = Resolved True"
    by (simp add: res_def J_def model_defs store_defs example_defs Let_def)
  then have put: "cacheConversations J fresh_state
          (Some ''42'') (DateString ''2024-03-05'') (Some payload_with_list) = (Resolved True, snd res)"
    by (simp add: res_def prod_eq_iff)
  have ok': "fst res' = Resolved True"
    by (simp add: res'_def flat_def J_def model_defs store_defs example_defs Let_def)
  then have put': "cacheConversations J flat
          (Some ''42'') (DateString ''2024-03-05'') (Some payload_with_list) = (Resolved True, snd res')"
    by (simp add: res'_def prod_eq_iff)
  have b: "buildCacheData flat ''42_2024-03-05'' (Some ''42'') (DateString ''2024-03-05'')
      payload_with_list = record_with_list"
    by (simp add: flat_def buildCacheData_def String_of_admin_def CACHE_EXPIRY_HOURS_def example_defs
          Date_now_def Date_now_again_def DATE_MAX_def)
  have codec: "parse J (stringify J (buildCacheData fresh_state ''42_2024-03-05'' (Some ''42'')
      (DateString ''2024-03-05'') payload_with_list)) =
     Some (buildCacheData fresh_state ''42_2024-03-05'' (Some ''42'') (DateString ''2024-03-05'')
             payload_with_list)"
    unfolding built_record_fresh J_def by (rule example_codec)
  have codec': "parse J (stringify J (buildCacheData flat ''42_2024-03-05'' (Some ''42'')
      (DateString ''2024-03-05'') payload_with_list)) =
     Some (buildCacheData flat ''42_2024-03-05'' (Some ''42'') (DateString ''2024-03-05'')
             payload_with_list)"
    unfolding b J_def by (rule example_codec)
  have t: "structured_open fresh_state" "\<not> idb_put_fails fresh_state" "\<not> idb_get_fails fresh_state"
    by (simp_all add: structured_open_def fresh_state_def)
  then have tier: "structured_open fresh_state \<longrightarrow>
      \<not> idb_put_fails fresh_state \<and> \<not> idb_get_fails fresh_state" by simp
  have t': "\<not> structured_open flat" by (simp add: structured_open_def flat_def)
  then have tier': "structured_open flat \<longrightarrow> \<not> idb_put_fails flat \<and> \<not> idb_get_fails flat" by simp
  from store_then_lookup [OF key_42 put codec tier]
  have hit: "fst (getCachedConversations J (snd res) (Some ''42'') (DateString ''2024-03-05'')) =
      Resolved (Some payload_with_list)" .
  from store_then_lookup [OF key_42 put' codec' tier']
  have hit': "fst (getCachedConversations J (snd res') (Some ''42'') (DateString ''2024-03-05'')) =
      Resolved (Some payload_with_list)" .
  from key_42 codec t ok hit t' ok' hit' show ?thesis
    unfolding res_def res'_def flat_def J_def by (intro conjI)
qed

text \<open>
  Claim C1 as stated fails: with a handle whose \<^verbatim>\<open>put\<close> request fails, the store of a
  valid payload of 15 serialized characters succeeds through localStorage, and the
  lookup that follows reads the object store alone and reports a miss.
\<close>

theorem store_then_lookup_counterexample:
  "fst (cacheConversations (example_json record_with_list)
          (fresh_state\<lparr>dbInstance := True, idb_put_fails := True\<rparr>)
          (Some ''42'') (DateString ''2024-03-05'') (Some payload_with_list)) = Resolved True \<and>
   conversations payload_with_list = Some [''c1'', ''c2''] \<and>
   length (stringify (example_json record_with_list) record_with_list) = 15 \<and>
   parse (example_json record_with_list)
     (stringify (example_json record_with_list) record_with_list) = Some record_with_list \<and>
   fst (getCachedConversations (example_json record_with_list)
          (snd (cacheConversations (example_json record_with_list)
                  (fresh_state\<lparr>dbInstance := True, idb_put_fails := True\<rparr>)
                  (Some ''42'') (DateString ''2024-03-05'') (Some payload_with_list)))
          (Some ''42'') (DateString ''2024-03-05'')) = Resolved None \<and>
   map_of (localStorage (snd (cacheConversations (example_json record_with_list)
                  (fresh_state\<lparr>dbInstance := True, idb_put_fails := True\<rparr>)
                  (Some ''42'') (DateString ''2024-03-05'') (Some payload_with_list))))
     ''admin_conversations_cache_42_2024-03-05'' = Some ''{42_2024-03-05}''"
  by (simp add: model_defs store_defs example_defs Let_def)

section \<open>What a lookup validates\<close>

text \<open>
  Claim C2, as the code has it. When the lookup of a key reads a record (from the object
  store with a handle, from localStorage without one) and no read error occurs: a record
  without a payload is reported as a miss and is gone from that store afterwards; a record
  with a payload that has not expired, and whose timestamp the hit log can format, is
  returned as a hit and stays, whether or not the payload has a \<^verbatim>\<open>conversations\<close> list.
\<close>

theorem lookup_validates_payload_presence:
  assumes "getConversationCacheKey admin dt = Inr k"
    and "\<not> (structured_open st \<and> (idb_tx_throws st \<or> idb_get_fails st))"
    and "consulted_record J st k = Some r"
  shows "(data r = None \<longrightarrow>
            fst (getCachedConversations J st admin dt) = Resolved None \<and>
            consulted_record J (snd (getCachedConversations J st admin dt)) k = None) \<and>
         (\<forall>d. data r = Some d \<and> \<not> isExpired r (Date_now st) \<and>
              \<not> toISOString_throws (timestamp r) \<longrightarrow>
            fst (getCachedConversations J st admin dt) = Resolved (Some d) \<and>
            consulted_record J (snd (getCachedConversations J st admin dt)) k = Some r)"
proof (intro conjI impI allI)
  assume "data r = None"
  then show "fst (getCachedConversations J st admin dt) = Resolved None"
    using assms by (intro lookup_miss [where r = r]) simp_all
  show "consulted_record J (snd (getCachedConversations J st admin dt)) k = None"
    using \<open>data r = None\<close> assms by (intro lookup_purges [where r = r]) simp_all
next
  fix d assume d: "data r = Some d \<and> \<not> isExpired r (Date_now st) \<and>
    \<not> toISOString_throws (timestamp r)"
  then have "\<not> toISOString_throws (timestamp r')" if "consulted_record J st k = Some r'" for r'
    using that assms(3) by simp
  then have "fst (getCachedConversations J st admin dt) =
      Resolved (case consulted_record J st k of
                  None \<Rightarrow> None
                | Some r \<Rightarrow> if isExpired r (Date_now st) then None else data r)"
    by (rule lookup_result [OF assms(1,2)])
  then show "fst (getCachedConversations J st admin dt) = Resolved (Some d)"
    using d assms(3) by simp
  show "consulted_record J (snd (getCachedConversations J st admin dt)) k = Some r"
    using d lookup_hit_keeps [OF assms, of d] by simp
qed

theorem lookup_validates_payload_presence_witness:
  "getConversationCacheKey (Some ''42'') (DateString ''2024-03-05'') = Inr ''42_2024-03-05'' \<and>
   \<not> (structured_open (fresh_state\<lparr>idb_store := [record_without_payload]\<rparr>) \<and>
      (idb_tx_throws (fresh_state\<lparr>idb_store := [record_without_payload]\<rparr>) \<or>
       idb_get_fails (fresh_state\<lparr>idb_store := [record_without_payload]\<rparr>))) \<and>
   consulted_record (example_json record_without_payload)
     (fresh_state\<lparr>idb_store := [record_without_payload]\<rparr>) ''42_2024-03-05'' =
     Some record_without_payload \<and>
   data record_without_payload = None \<and>
   fst (getCachedConversations (example_json record_without_payload)
          (fresh_state\<lparr>idb_store := [record_without_payload]\<rparr>)
          (Some ''42'') (DateString ''2024-03-05'')) = Resolved None \<and>
   consulted_record (example_json record_without_payload)
     (snd (getCachedConversations (example_json record_without_payload)
             (fresh_state\<lparr>idb_store := [record_without_payload]\<rparr>)
             (Some ''42'') (DateString ''2024-03-05''))) ''42_2024-03-05'' = None \<and>
   \<not> (structured_open (fresh_state\<lparr>idb_store := [record_without_list]\<rparr>) \<and>
      (idb_tx_throws (fresh_state\<lparr>idb_store := [record_without_list]\<rparr>) \<or>
       idb_get_fails (fresh_state\<lparr>idb_store := [record_without_list]\<rparr>))) \<and>
   consulted_record (example_json record_without_list)
     (fresh_state\<lparr>idb_store := [record_without_list]\<rparr>) ''42_2024-03-05'' =
     Some record_without_list \<and>
   data record_without_list = Some payload_without_list \<and>
   \<not> isExpired record_without_list (Date_now (fresh_state\<lparr>idb_store := [record_without_list]\<rparr>)) \<and>
   \<not> toISOString_throws (timestamp record_without_list) \<and>
   fst (getCachedConversations (example_json record_without_list)
          (fresh_state\<lparr>idb_store := [record_without_list]\<rparr>)
          (Some ''42'') (DateString ''2024-03-05'')) = Resolved (Some payload_without_list) \<and>
   consulted_record (example_json record_without_list)
     (snd (getCachedConversations (example_json record_without_list)
             (fresh_state\<lparr>idb_store := [record_without_list]\<rparr>)
             (Some ''42'') (DateString ''2024-03-05''))) ''42_2024-03-05'' = Some record_without_list"
proof -
  define st where "st = fresh_state\<lparr>idb_store := [record_without_payload]\<rparr>"
  define J where "J = example_json record_without_payload"
  define st' where "st' = fresh_state\<lparr>idb_store := [record_without_list]\<rparr>"
  define J' where "J' = example_json record_without_list"
  have h2: "\<not> (structured_open st \<and> (idb_tx_throws st \<or> idb_get_fails st))"
    by (simp add: fresh_state_def st_def)
  have h3: "consulted_record J st ''42_2024-03-05'' = Some record_without_payload"
    by (simp add: consulted_record_def structured_open_def fresh_state_def idb_get_def
          record_without_payload_def st_def)
  have h4: "data record_without_payload = None" by (simp add: record_without_payload_def)
  have g2: "\<not> (structured_open st' \<and> (idb_tx_throws st' \<or> idb_get_fails st'))"
    by (simp add: fresh_state_def st'_def)
  have g3: "consulted_record J' st' ''42_2024-03-05'' = Some record_without_list"
    by (simp add: consulted_record_def structured_open_def fresh_state_def idb_get_def
          record_without_list_def st'_def)
  have g4: "data record_without_list = Some payload_without_list"
    by (simp add: record_without_list_def)
  have g5: "\<not> isExpired record_without_list (Date_now st')"
    by (simp add: isExpired_def record_without_list_def st'_def fresh_state_def Date_now_def
          DATE_MAX_def)
  have g6: "\<not> toISOString_throws (timestamp record_without_list)"
    by (simp add: toISOString_throws_def record_without_list_def DATE_MAX_def)
  note miss = lookup_validates_payload_presence [OF key_42 h2 h3, THEN conjunct1, rule_format, OF h4]
  have "data record_without_list = Some payload_without_list \<and>
      \<not> isExpired record_without_list (Date_now st') \<and>
      \<not> toISOString_throws (timestamp record_without_list)" using g4 g5 g6 by simp
  note hit = lookup_validates_payload_presence [OF key_42 g2 g3, THEN conjunct2, rule_format, OF this]
  from key_42 h2 h3 h4 miss g2 g3 g4 g5 g6 hit show ?thesis
    unfolding st_def J_def st'_def J'_def by (intro conjI) simp_all
qed

text \<open>
  Claim C2 as stated fails: a stored record whose payload has no \<^verbatim>\<open>conversations\<close> list
  is a hit in either tier and stays in the store.
\<close>

theorem payload_without_list_counterexample:
  "fst (getCachedConversations (example_json record_without_list)
          (fresh_state\<lparr>idb_store := [record_without_list]\<rparr>)
          (Some ''42'') (DateString ''2024-03-05'')) = Resolved (Some payload_without_list) \<and>
   conversations payload_without_list = None \<and>
   idb_store (snd (getCachedConversations (example_json record_without_list)
          (fresh_state\<lparr>idb_store := [record_without_list]\<rparr>)
          (Some ''42'') (DateString ''2024-03-05''))) = [record_without_list] \<and>
   fst (getCachedConversations (example_json record_without_list)
          (fresh_state\<lparr>INDEXEDDB_AVAILABLE := False,
             localStorage := [(''admin_conversations_cache_42_2024-03-05'', ''{42_2024-03-05}'')]\<rparr>)
          (Some ''42'') (DateString ''2024-03-05'')) = Resolved (Some payload_without_list) \<and>
   localStorage (snd (getCachedConversations (example_json record_without_list)
          (fresh_state\<lparr>INDEXEDDB_AVAILABLE := False,
             localStorage := [(''admin_conversations_cache_42_2024-03-05'', ''{42_2024-03-05}'')]\<rparr>)
          (Some ''42'') (DateString ''2024-03-05''))) =
     [(''admin_conversations_cache_42_2024-03-05'', ''{42_2024-03-05}'')]"
  by (simp add: model_defs example_defs Let_def)

section \<open>When the flat tier is consulted\<close>

lemma lookup_flat_trace:
  assumes "getConversationCacheKey admin dt = Inr k" "\<not> structured_open st"
  shows "trace (snd (getCachedConversations J st admin dt)) =
           trace st @ open_events st @ LsGetItem (CONVERSATION_CACHE_PREFIX @ k) #
             (case consulted_record J st k of
                None \<Rightarrow> []
              | Some r \<Rightarrow> if isExpired r (Date_now st) \<or> data r = None
                          then [LsRemoveItem (CONVERSATION_CACHE_PREFIX @ k)] else [])"
  using assms by (simp add: lookup_flat Let_def split: option.splits)

text \<open>
  Claim C3, as the code has it. Without a database handle the lookup reads localStorage:
  it calls \<^verbatim>\<open>getItem\<close> and removes an expired or payload-less entry. For a record whose
  timestamp the hit log can format, its answer is the one the structured lookup gives for
  the same record: a miss when the record is expired or has no payload, the payload
  otherwise; and in either tier the record that made the lookup a miss is gone afterwards.
  With a handle, a transaction that opens and a \<^verbatim>\<open>get\<close> request that succeeds without a
  record, the lookup resolves with \<^verbatim>\<open>null\<close> after the two IndexedDB calls alone:
  localStorage is neither read nor changed.
\<close>

theorem flat_tier_consulted_without_handle:
  assumes "getConversationCacheKey admin dt = Inr k"
  shows "(\<not> structured_open st \<longrightarrow>
            trace (snd (getCachedConversations J st admin dt)) =
              trace st @ open_events st @ LsGetItem (CONVERSATION_CACHE_PREFIX @ k) #
                (case consulted_record J st k of
                   None \<Rightarrow> []
                 | Some r \<Rightarrow> if isExpired r (Date_now st) \<or> data r = None
                             then [LsRemoveItem (CONVERSATION_CACHE_PREFIX @ k)] else [])) \<and>
         (\<not> (structured_open st \<and> (idb_tx_throws st \<or> idb_get_fails st)) \<and>
          (\<forall>r. consulted_record J st k = Some r \<longrightarrow> \<not> toISOString_throws (timestamp r)) \<longrightarrow>
            fst (getCachedConversations J st admin dt) =
              Resolved (case consulted_record J st k of
                          None \<Rightarrow> None
                        | Some r \<Rightarrow> if isExpired r (Date_now st) then None else data r)) \<and>
         (\<forall>r. \<not> (structured_open st \<and> (idb_tx_throws st \<or> idb_get_fails st)) \<and>
              consulted_record J st k = Some r \<and> (isExpired r (Date_now st) \<or> data r = None) \<longrightarrow>
            fst (getCachedConversations J st admin dt) = Resolved None \<and>
            consulted_record J (snd (getCachedConversations J st admin dt)) k = None) \<and>
         (structured_open st \<and> \<not> idb_tx_throws st \<and> \<not> idb_get_fails st \<and>
          idb_get k (idb_store st) = None \<longrightarrow>
            fst (getCachedConversations J st admin dt) = Resolved None \<and>
            trace (snd (getCachedConversations J st admin dt)) =
              trace st @ open_events st @ [IdbTransaction, IdbGet k] \<and>
            localStorage (snd (getCachedConversations J st admin dt)) = localStorage st)"
proof (intro conjI impI allI)
  assume no: "\<not> structured_open st"
  show "trace (snd (getCachedConversations J st admin dt)) =
      trace st @ open_events st @ LsGetItem (CONVERSATION_CACHE_PREFIX @ k) #
        (case consulted_record J st k of
           None \<Rightarrow> []
         | Some r \<Rightarrow> if isExpired r (Date_now st) \<or> data r = None
                     then [LsRemoveItem (CONVERSATION_CACHE_PREFIX @ k)] else [])"
    using assms no by (rule lookup_flat_trace)
next
  assume a: "\<not> (structured_open st \<and> (idb_tx_throws st \<or> idb_get_fails st)) \<and>
    (\<forall>r. consulted_record J st k = Some r \<longrightarrow> \<not> toISOString_throws (timestamp r))"
  then have ok: "\<not> (structured_open st \<and> (idb_tx_throws st \<or> idb_get_fails st))"
    by (rule conjunct1)
  have "\<not> toISOString_throws (timestamp r)" if "consulted_record J st k = Some r" for r
    using a that by blast
  then show "fst (getCachedConversations J st admin dt) =
      Resolved (case consulted_record J st k of
                  None \<Rightarrow> None
                | Some r \<Rightarrow> if isExpired r (Date_now st) then None else data r)"
    by (rule lookup_result [OF assms ok])
next
  fix r
  assume a: "\<not> (structured_open st \<and> (idb_tx_throws st \<or> idb_get_fails st)) \<and>
    consulted_record J st k = Some r \<and> (isExpired r (Date_now st) \<or> data r = None)"
  then have ok: "\<not> (structured_open st \<and> (idb_tx_throws st \<or> idb_get_fails st))"
    and r: "consulted_record J st k = Some r"
    and bad: "isExpired r (Date_now st) \<or> data r = None"
    by auto
  show "fst (getCachedConversations J st admin dt) = Resolved None"
    using assms ok r bad by (rule lookup_miss)
  show "consulted_record J (snd (getCachedConversations J st admin dt)) k = None"
    using assms ok r bad by (rule lookup_purges)
next
  assume a: "structured_open st \<and> \<not> idb_tx_throws st \<and> \<not> idb_get_fails st \<and>
          idb_get k (idb_store st) = None"
  have eq: "getCachedConversations J st admin dt =
      (Resolved None, called (IdbGet k) (called IdbTransaction (opened st)))"
    using assms a by (intro lookup_structured_miss) simp_all
  show "fst (getCachedConversations J st admin dt) = Resolved None" by (simp add: eq)
  show "trace (snd (getCachedConversations J st admin dt)) =
      trace st @ open_events st @ [IdbTransaction, IdbGet k]" by (simp add: eq)
  show "localStorage (snd (getCachedConversations J st admin dt)) = localStorage st"
    by (simp add: eq)
qed

theorem flat_tier_consulted_without_handle_witness:
  "getConversationCacheKey (Some ''42'') (DateString ''2024-03-05'') = Inr ''42_2024-03-05'' \<and>
   \<not> structured_open (fresh_state\<lparr>INDEXEDDB_AVAILABLE := False,
        localStorage := [(''admin_conversations_cache_42_2024-03-05'', ''{42_2024-03-05}'')]\<rparr>) \<and>
   consulted_record (example_json record_with_list)
     (fresh_state\<lparr>INDEXEDDB_AVAILABLE := False,
        localStorage := [(''admin_conversations_cache_42_2024-03-05'', ''{42_2024-03-05}'')]\<rparr>)
     ''42_2024-03-05'' = Some record_with_list \<and>
   \<not> toISOString_throws (timestamp record_with_list) \<and>
   fst (getCachedConversations (example_json record_with_list)
          (fresh_state\<lparr>INDEXEDDB_AVAILABLE := False,
             localStorage := [(''admin_conversations_cache_42_2024-03-05'', ''{42_2024-03-05}'')]\<rparr>)
          (Some ''42'') (DateString ''2024-03-05'')) = Resolved (Some payload_with_list) \<and>
   trace (snd (getCachedConversations (example_json record_with_list)
          (fresh_state\<lparr>INDEXEDDB_AVAILABLE := False,
             localStorage := [(''admin_conversations_cache_42_2024-03-05'', ''{42_2024-03-05}'')]\<rparr>)
          (Some ''42'') (DateString ''2024-03-05''))) =
     [LsGetItem ''admin_conversations_cache_42_2024-03-05''] \<and>
   consulted_record (example_json record_without_payload)
     (fresh_state\<lparr>INDEXEDDB_AVAILABLE := False,
        localStorage := [(''admin_conversations_cache_42_2024-03-05'', ''{42_2024-03-05}'')]\<rparr>)
     ''42_2024-03-05'' = Some record_without_payload \<and>
   data record_without_payload = None \<and>
   fst (getCachedConversations (example_json record_without_payload)
          (fresh_state\<lparr>INDEXEDDB_AVAILABLE := False,
             localStorage := [(''admin_conversations_cache_42_2024-03-05'', ''{42_2024-03-05}'')]\<rparr>)
          (Some ''42'') (DateString ''2024-03-05'')) = Resolved None \<and>
   consulted_record (example_json record_without_payload)
     (snd (getCachedConversations (example_json record_without_payload)
          (fresh_state\<lparr>INDEXEDDB_AVAILABLE := False,
             localStorage := [(''admin_conversations_cache_42_2024-03-05'', ''{42_2024-03-05}'')]\<rparr>)
          (Some ''42'') (DateString ''2024-03-05''))) ''42_2024-03-05'' = None \<and>
   structured_open fresh_state \<and> \<not> idb_tx_throws fresh_state \<and> \<not> idb_get_fails fresh_state \<and>
   idb_get ''42_2024-03-05'' (idb_store fresh_state) = None \<and>
   fst (getCachedConversations (example_json record_with_list) fresh_state
          (Some ''42'') (DateString ''2024-03-05'')) = Resolved None \<and>
   trace (snd (getCachedConversations (example_json record_with_list) fresh_state
          (Some ''42'') (DateString ''2024-03-05''))) =
     [IdbOpen, IdbTransaction, IdbGet ''42_2024-03-05'']"
proof -
  define flat where "flat = fresh_state\<lparr>INDEXEDDB_AVAILABLE := False,
        localStorage := [(''admin_conversations_cache_42_2024-03-05'', ''{42_2024-03-05}'')]\<rparr>"
  define J where "J = example_json record_with_list"
  define J' where "J' = example_json record_without_payload"
  have f1: "\<not> structured_open flat" by (simp add: structured_open_def fresh_state_def flat_def)
  then have ok: "\<not> (structured_open flat \<and> (idb_tx_throws flat \<or> idb_get_fails flat))" by simp
  have f2: "consulted_record J flat ''42_2024-03-05'' = Some record_with_list"
    by (simp add: consulted_record_def structured_open_def example_defs
          CONVERSATION_CACHE_PREFIX_def flat_def J_def)
  have f3: "\<not> isExpired record_with_list (Date_now flat)"
    "data record_with_list = Some payload_with_list"
    by (simp_all add: isExpired_def example_defs flat_def Date_now_def DATE_MAX_def)
  have f4: "open_events flat = []" "trace flat = []"
    by (simp_all add: open_events_def fresh_state_def flat_def)
  have f5: "\<not> toISOString_throws (timestamp record_with_list)"
    by (simp add: toISOString_throws_def record_with_list_def DATE_MAX_def)
  have g2: "consulted_record J' flat ''42_2024-03-05'' = Some record_without_payload"
    by (simp add: consulted_record_def structured_open_def example_defs
          CONVERSATION_CACHE_PREFIX_def flat_def J'_def)
  have g3: "data record_without_payload = None" by (simp add: record_without_payload_def)
  have s1: "structured_open fresh_state" "\<not> idb_tx_throws fresh_state"
    "\<not> idb_get_fails fresh_state" "idb_get ''42_2024-03-05'' (idb_store fresh_state) = None"
    by (simp_all add: structured_open_def fresh_state_def idb_get_def)
  have s2: "open_events fresh_state = [IdbOpen]" "trace fresh_state = []"
    by (simp_all add: open_events_def fresh_state_def)
  note main = flat_tier_consulted_without_handle [OF key_42]
  have tr: "trace (snd (getCachedConversations J flat (Some ''42'') (DateString ''2024-03-05''))) =
      [LsGetItem ''admin_conversations_cache_42_2024-03-05'']"
    using main [of flat J, THEN conjunct1] f1 f2 f3 f4 by (simp add: CONVERSATION_CACHE_PREFIX_def)
  have "\<forall>r. consulted_record J flat ''42_2024-03-05'' = Some r \<longrightarrow>
      \<not> toISOString_throws (timestamp r)" using f2 f5 by simp
  with ok have hit: "fst (getCachedConversations J flat (Some ''42'') (DateString ''2024-03-05'')) =
      Resolved (Some payload_with_list)"
    using main [of flat J, THEN conjunct2, THEN conjunct1] f2 f3 by simp
  have miss: "fst (getCachedConversations J' flat (Some ''42'') (DateString ''2024-03-05'')) =
      Resolved None \<and>
    consulted_record J' (snd (getCachedConversations J' flat (Some ''42'')
      (DateString ''2024-03-05''))) ''42_2024-03-05'' = None"
    using main [of flat J', THEN conjunct2, THEN conjunct2, THEN conjunct1] ok g2 g3 by blast
  have sm: "fst (getCachedConversations J fresh_state (Some ''42'') (DateString ''2024-03-05'')) =
      Resolved None \<and>
    trace (snd (getCachedConversations J fresh_state (Some ''42'') (DateString ''2024-03-05''))) =
      [IdbOpen, IdbTransaction, IdbGet ''42_2024-03-05'']"
    using main [of fresh_state J, THEN conjunct2, THEN conjunct2, THEN conjunct2] s1 s2 by simp
  from key_42 f1 f2 f5 hit tr g2 g3 miss s1 sm show ?thesis
    unfolding flat_def J_def J'_def by (intro conjI) simp_all
qed

text \<open>
  Claim C3 as stated fails: with a handle, no record in the object store and a fresh
  record for the key in localStorage, the lookup reports a miss and never calls
  \<^verbatim>\<open>getItem\<close>; the same localStorage gives a hit when IndexedDB is not available.
\<close>

theorem structured_miss_counterexample:
  "structured_open (fresh_state\<lparr>dbInstance := True,
        localStorage := [(''admin_conversations_cache_42_2024-03-05'', ''{42_2024-03-05}'')]\<rparr>) \<and>
   fst (getCachedConversations (example_json record_with_list)
          (fresh_state\<lparr>dbInstance := True,
             localStorage := [(''admin_conversations_cache_42_2024-03-05'', ''{42_2024-03-05}'')]\<rparr>)
          (Some ''42'') (DateString ''2024-03-05'')) = Resolved None \<and>
   trace (snd (getCachedConversations (example_json record_with_list)
          (fresh_state\<lparr>dbInstance := True,
             localStorage := [(''admin_conversations_cache_42_2024-03-05'', ''{42_2024-03-05}'')]\<rparr>)
          (Some ''42'') (DateString ''2024-03-05''))) = [IdbTransaction, IdbGet ''42_2024-03-05''] \<and>
   fst (getCachedConversations (example_json record_with_list)
          (fresh_state\<lparr>INDEXEDDB_AVAILABLE := False,
             localStorage := [(''admin_conversations_cache_42_2024-03-05'', ''{42_2024-03-05}'')]\<rparr>)
          (Some ''42'') (DateString ''2024-03-05'')) = Resolved (Some payload_with_list)"
  by (simp add: model_defs example_defs Let_def)

section \<open>The retry after a quota error\<close>

text \<open>
  Claim C4 on the code. In \<open>quota_state\<close> the store falls back to localStorage, whose
  \<^verbatim>\<open>setItem\<close> throws the quota error. \<^verbatim>\<open>clearOldCacheEntries\<close> has a database handle, so it
  walks the object store and never reaches its localStorage part: localStorage is left
  as it was, the one retry fails again and the store reports failure. In the same state
  without IndexedDB the localStorage sweep runs, removes the oldest entry, and the one
  retry succeeds.
\<close>

theorem quota_sweep_misses_localStorage:
  "fst (cacheConversations stamp_json quota_state
          (Some ''42'') (DateString ''2024-03-05'') (Some payload_with_list)) = Resolved False \<and>
   localStorage (snd (cacheConversations stamp_json quota_state
          (Some ''42'') (DateString ''2024-03-05'') (Some payload_with_list))) =
     localStorage quota_state \<and>
   trace (snd (cacheConversations stamp_json quota_state
          (Some ''42'') (DateString ''2024-03-05'') (Some payload_with_list))) =
     [IdbTransaction, IdbPut ''42_2024-03-05'',
      LsSetItem ''admin_conversations_cache_42_2024-03-05'' ''{42_2024-03-05}'',
      IdbTransaction, IdbCursor,
      LsSetItem ''admin_conversations_cache_42_2024-03-05'' ''{42_2024-03-05}''] \<and>
   fst (cacheConversations stamp_json (quota_state\<lparr>INDEXEDDB_AVAILABLE := False\<rparr>)
          (Some ''42'') (DateString ''2024-03-05'') (Some payload_with_list)) = Resolved True \<and>
   trace (snd (cacheConversations stamp_json (quota_state\<lparr>INDEXEDDB_AVAILABLE := False\<rparr>)
          (Some ''42'') (DateString ''2024-03-05'') (Some payload_with_list))) =
     [LsSetItem ''admin_conversations_cache_42_2024-03-05'' ''{42_2024-03-05}'',
      LsKeys,
      LsGetItem ''admin_conversations_cache_a'', LsGetItem ''admin_conversations_cache_b'',
      LsGetItem ''admin_conversations_cache_c'', LsGetItem ''admin_conversations_cache_d'',
      LsGetItem ''admin_conversations_cache_e'', LsGetItem ''admin_conversations_cache_f'',
      LsRemoveItem ''admin_conversations_cache_b'',
      LsSetItem ''admin_conversations_cache_42_2024-03-05'' ''{42_2024-03-05}'',
      LsGetItem ''admin_conversations_cache_42_2024-03-05'']"
  by (simp add: model_defs store_defs sweep_defs example_defs stamp_json_def quota_state_def Let_def)

theorem quota_sweep_misses_localStorage_witness:
  "fst (cacheConversations stamp_json quota_state
          (Some ''42'') (DateString ''2024-03-05'') (Some payload_with_list)) = Resolved False \<and>
   localStorage (snd (cacheConversations stamp_json quota_state
          (Some ''42'') (DateString ''2024-03-05'') (Some payload_with_list))) =
     localStorage quota_state \<and>
   fst (cacheConversations stamp_json (quota_state\<lparr>INDEXEDDB_AVAILABLE := False\<rparr>)
          (Some ''42'') (DateString ''2024-03-05'') (Some payload_with_list)) = Resolved True"
  using quota_sweep_misses_localStorage by (elim conjE) (intro conjI)

section \<open>The structured tier over a session\<close>

text \<open>
  Claim C5, as the code has it. Over any sequence of lookups, stores and sweeps: when
  IndexedDB is not available, it stays so, \<^verbatim>\<open>getConversationCacheDB\<close> gives no handle and no
  call is made to the structured tier; once a handle is cached it stays cached, is
  returned as it is, and \<^verbatim>\<open>indexedDB.open\<close> is not called again; but after an open that
  failed nothing is cached, so the next \<^verbatim>\<open>getConversationCacheDB\<close> calls \<^verbatim>\<open>indexedDB.open\<close>
  again (and gives no handle if that open fails too). On a page that starts without a
  handle and whose open succeeds, \<^verbatim>\<open>indexedDB.open\<close> is called at most once in the whole
  session, and exactly once when a handle is cached at its end; the next
  \<^verbatim>\<open>getConversationCacheDB\<close> gives a handle, opening only if none is cached yet; and every
  sweep, every lookup of a well-formed key and every store of valid arguments leaves the
  handle cached.
\<close>

theorem structured_tier_session:
  assumes "session J st st'"
  shows "(\<not> INDEXEDDB_AVAILABLE st \<longrightarrow>
            \<not> INDEXEDDB_AVAILABLE st' \<and> getConversationCacheDB st' = (False, st') \<and>
            list_all (\<lambda>e. \<not> is_idb_event e) (calls_made st st')) \<and>
         (INDEXEDDB_AVAILABLE st \<and> dbInstance st \<longrightarrow>
            dbInstance st' \<and> getConversationCacheDB st' = (True, st') \<and>
            IdbOpen \<notin> set (calls_made st st')) \<and>
         (INDEXEDDB_AVAILABLE st \<and> \<not> dbInstance st \<and> idb_open_fails st \<longrightarrow>
            \<not> dbInstance st' \<and> getConversationCacheDB st' = (False, called IdbOpen st')) \<and>
         (INDEXEDDB_AVAILABLE st \<and> \<not> dbInstance st \<and> \<not> idb_open_fails st \<longrightarrow>
            count_list (calls_made st st') IdbOpen = (if dbInstance st' then 1 else 0) \<and>
            getConversationCacheDB st' =
              (True, if dbInstance st' then st' else (called IdbOpen st')\<lparr>dbInstance := True\<rparr>) \<and>
            dbInstance (snd (clearOldCacheEntries J st')) \<and>
            (\<forall>admin dt k. getConversationCacheKey admin dt = Inr k \<longrightarrow>
               dbInstance (snd (getCachedConversations J st' admin dt))) \<and>
            (\<forall>admin dt k d. admin_truthy admin \<and> date_truthy dt \<and>
                 getConversationCacheKey admin dt = Inr k \<longrightarrow>
               dbInstance (snd (cacheConversations J st' admin dt (Some d)))))"
proof -
  have ev: "evolves st st'" using assms by (rule session_evolves)
  note calls = evolves_calls_made(2) [OF ev]
  have av: "INDEXEDDB_AVAILABLE st' = INDEXEDDB_AVAILABLE st"
    and op: "idb_open_fails st' = idb_open_fails st"
    and keep: "dbInstance st \<longrightarrow> dbInstance st'"
    and fresh: "dbInstance st' \<longrightarrow> dbInstance st \<or> structured_open st"
    by (rule evolves_switches [OF ev])+
  show ?thesis
  proof (intro conjI impI allI)
    assume a: "\<not> INDEXEDDB_AVAILABLE st"
    show "\<not> INDEXEDDB_AVAILABLE st'" using a av by simp
    then show "getConversationCacheDB st' = (False, st')"
      by (simp add: getConversationCacheDB_def)
    show "list_all (\<lambda>e. \<not> is_idb_event e) (calls_made st st')"
      using calls a by (auto simp: list_all_iff allowed_call_def)
  next
    assume a: "INDEXEDDB_AVAILABLE st \<and> dbInstance st"
    then show d: "dbInstance st'" using keep by simp
    show "getConversationCacheDB st' = (True, st')"
      using a d av by (simp add: getConversationCacheDB_def)
    show "IdbOpen \<notin> set (calls_made st st')"
      using calls a by (auto simp: list_all_iff allowed_call_def)
  next
    assume a: "INDEXEDDB_AVAILABLE st \<and> \<not> dbInstance st \<and> idb_open_fails st"
    then have "\<not> structured_open st" by (simp add: structured_open_def)
    then show d: "\<not> dbInstance st'" using a fresh by simp
    show "getConversationCacheDB st' = (False, called IdbOpen st')"
      using a d av op
      by (simp add: getConversationCacheDB_def initConversationCacheDB_def Let_def)
  next
    assume a: "INDEXEDDB_AVAILABLE st \<and> \<not> dbInstance st \<and> \<not> idb_open_fails st"
    then have so: "structured_open st'" using av op by (simp add: structured_open_def)
    show "count_list (calls_made st st') IdbOpen = (if dbInstance st' then 1 else 0)"
      using evolves_calls_made(3) [OF ev] a by simp
    show "getConversationCacheDB st' =
        (True, if dbInstance st' then st' else (called IdbOpen st')\<lparr>dbInstance := True\<rparr>)"
      using a av op by (simp add: getConversationCacheDB_eq structured_open_def)
    show "dbInstance (snd (clearOldCacheEntries J st'))" using so by (rule handle_cached(1))
    show "dbInstance (snd (getCachedConversations J st' admin dt))"
      if "getConversationCacheKey admin dt = Inr k" for admin dt k
      using so that by (rule handle_cached(2))
    show "dbInstance (snd (cacheConversations J st' admin dt (Some d)))"
      if "admin_truthy admin \<and> date_truthy dt \<and> getConversationCacheKey admin dt = Inr k"
      for admin dt k d
      using that handle_cached(3) [OF so, of admin dt k J d] by blast
  qed
qed

theorem structured_tier_session_witness:
  "session (example_json record_with_list) (fresh_state\<lparr>INDEXEDDB_AVAILABLE := False\<rparr>)
     (snd (getCachedConversations (example_json record_with_list)
        (snd (cacheConversations (example_json record_with_list)
                (fresh_state\<lparr>INDEXEDDB_AVAILABLE := False\<rparr>)
                (Some ''42'') (DateString ''2024-03-05'') (Some payload_with_list)))
        (Some ''42'') (DateString ''2024-03-05''))) \<and>
   \<not> INDEXEDDB_AVAILABLE (fresh_state\<lparr>INDEXEDDB_AVAILABLE := False\<rparr>) \<and>
   calls_made (fresh_state\<lparr>INDEXEDDB_AVAILABLE := False\<rparr>)
     (snd (getCachedConversations (example_json record_with_list)
        (snd (cacheConversations (example_json record_with_list)
                (fresh_state\<lparr>INDEXEDDB_AVAILABLE := False\<rparr>)
                (Some ''42'') (DateString ''2024-03-05'') (Some payload_with_list)))
        (Some ''42'') (DateString ''2024-03-05''))) =
     [LsSetItem ''admin_conversations_cache_42_2024-03-05'' ''{42_2024-03-05}'',
      LsGetItem ''admin_conversations_cache_42_2024-03-05'',
      LsGetItem ''admin_conversations_cache_42_2024-03-05''] \<and>
   list_all (\<lambda>e. \<not> is_idb_event e)
     (calls_made (fresh_state\<lparr>INDEXEDDB_AVAILABLE := False\<rparr>)
     (snd (getCachedConversations (example_json record_with_list)
        (snd (cacheConversations (example_json record_with_list)
                (fresh_state\<lparr>INDEXEDDB_AVAILABLE := False\<rparr>)
                (Some ''42'') (DateString ''2024-03-05'') (Some payload_with_list)))
        (Some ''42'') (DateString ''2024-03-05'')))) \<and>
   INDEXEDDB_AVAILABLE fresh_state \<and> \<not> dbInstance fresh_state \<and> \<not> idb_open_fails fresh_state \<and>
   calls_made fresh_state
     (snd (getCachedConversations (example_json record_with_list)
        (snd (cacheConversations (example_json record_with_list) fresh_state
                (Some ''42'') (DateString ''2024-03-05'') (Some payload_with_list)))
        (Some ''42'') (DateString ''2024-03-05''))) =
     [IdbOpen, IdbTransaction, IdbPut ''42_2024-03-05'', IdbTransaction, IdbGet ''42_2024-03-05''] \<and>
   dbInstance
     (snd (getCachedConversations (example_json record_with_list)
        (snd (cacheConversations (example_json record_with_list) fresh_state
                (Some ''42'') (DateString ''2024-03-05'') (Some payload_with_list)))
        (Some ''42'') (DateString ''2024-03-05''))) \<and>
   count_list (calls_made fresh_state
     (snd (getCachedConversations (example_json record_with_list)
        (snd (cacheConversations (example_json record_with_list) fresh_state
                (Some ''42'') (DateString ''2024-03-05'') (Some payload_with_list)))
        (Some ''42'') (DateString ''2024-03-05'')))) IdbOpen = 1 \<and>
   dbInstance (snd (cacheConversations (example_json record_with_list) fresh_state
                (Some ''42'') (DateString ''2024-03-05'') (Some payload_with_list))) \<and>
   IdbOpen \<notin> set (calls_made
     (snd (cacheConversations (example_json record_with_list) fresh_state
             (Some ''42'') (DateString ''2024-03-05'') (Some payload_with_list)))
     (snd (getCachedConversations (example_json record_with_list)
        (snd (cacheConversations (example_json record_with_list)
                (snd (cacheConversations (example_json record_with_list) fresh_state
                        (Some ''42'') (DateString ''2024-03-05'') (Some payload_with_list)))
                (Some ''42'') (DateString ''2024-03-05'') (Some payload_with_list)))
        (Some ''42'') (DateString ''2024-03-05'')))) \<and>
   INDEXEDDB_AVAILABLE (fresh_state\<lparr>idb_open_fails := True\<rparr>) \<and>
   \<not> dbInstance (fresh_state\<lparr>idb_open_fails := True\<rparr>) \<and>
   idb_open_fails (fresh_state\<lparr>idb_open_fails := True\<rparr>) \<and>
   \<not> dbInstance
     (snd (getCachedConversations (example_json record_with_list)
        (snd (cacheConversations (example_json record_with_list)
                (fresh_state\<lparr>idb_open_fails := True\<rparr>)
                (Some ''42'') (DateString ''2024-03-05'') (Some payload_with_list)))
        (Some ''42'') (DateString ''2024-03-05'')))"
proof -
  define J where "J = example_json record_with_list"
  define after where "after st =
    snd (getCachedConversations J
           (snd (cacheConversations J st (Some ''42'') (DateString ''2024-03-05'')
                   (Some payload_with_list)))
           (Some ''42'') (DateString ''2024-03-05''))" for st
  have s: "session J st (after st)" for st
    unfolding after_def
    by (rule session.lookup [OF session.store [OF session.start refl] refl])
  define st0 where "st0 = fresh_state\<lparr>INDEXEDDB_AVAILABLE := False\<rparr>"
  define st1 where "st1 = snd (cacheConversations J fresh_state (Some ''42'')
    (DateString ''2024-03-05'') (Some payload_with_list))"
  define st2 where "st2 = fresh_state\<lparr>idb_open_fails := True\<rparr>"
  have na: "\<not> INDEXEDDB_AVAILABLE st0" by (simp add: st0_def)
  have hf: "INDEXEDDB_AVAILABLE fresh_state" "\<not> dbInstance fresh_state"
    "\<not> idb_open_fails fresh_state"
    by (simp_all add: fresh_state_def)
  have so: "structured_open fresh_state" using hf by (simp add: structured_open_def)
  have d1: "dbInstance st1"
    unfolding st1_def
    by (rule handle_cached(3) [OF so _ _ key_42]) (simp_all add: admin_truthy_def)
  have "evolves fresh_state st1" unfolding st1_def by simp
  then have "INDEXEDDB_AVAILABLE st1" using hf(1) by (simp only: evolves_available)
  with d1 have h1: "INDEXEDDB_AVAILABLE st1 \<and> dbInstance st1" by simp
  have h2: "INDEXEDDB_AVAILABLE st2" "\<not> dbInstance st2" "idb_open_fails st2"
    by (simp_all add: st2_def fresh_state_def)
  have c: "calls_made st0 (after st0) =
     [LsSetItem ''admin_conversations_cache_42_2024-03-05'' ''{42_2024-03-05}'',
      LsGetItem ''admin_conversations_cache_42_2024-03-05'',
      LsGetItem ''admin_conversations_cache_42_2024-03-05'']"
    by (simp add: calls_made_def after_def st0_def J_def model_defs store_defs example_defs Let_def)
  have cf: "calls_made fresh_state (after fresh_state) =
     [IdbOpen, IdbTransaction, IdbPut ''42_2024-03-05'', IdbTransaction, IdbGet ''42_2024-03-05'']"
    by (simp add: calls_made_def after_def J_def model_defs store_defs example_defs Let_def)
  from structured_tier_session [OF s [of st0]] na
  have a0: "list_all (\<lambda>e. \<not> is_idb_event e) (calls_made st0 (after st0))" by blast
  note once = structured_tier_session [OF s [of fresh_state], THEN conjunct2, THEN conjunct2,
    THEN conjunct2, rule_format, OF conjI [OF hf(1) conjI [OF hf(2,3)]]]
  have df: "dbInstance (after fresh_state)"
    using once [THEN conjunct1] cf by (simp split: if_splits)
  then have n1: "count_list (calls_made fresh_state (after fresh_state)) IdbOpen = 1"
    using once [THEN conjunct1] by simp
  from structured_tier_session [OF s [of st1], THEN conjunct2, THEN conjunct1, rule_format, OF h1]
  have a1: "IdbOpen \<notin> set (calls_made st1 (after st1))" by blast
  from structured_tier_session [OF s [of st2]] h2
  have a2: "\<not> dbInstance (after st2)" by blast
  from s [of st0] na c a0 hf cf df n1 d1 a1 h2 a2 show ?thesis
    unfolding after_def st0_def st1_def st2_def J_def by (intro conjI)
qed

text \<open>
  Claim C5 as stated fails: after a failed open, a second lookup calls
  \<^verbatim>\<open>indexedDB.open\<close> again; and when that later open succeeds, the next store goes to
  the structured tier.
\<close>

theorem failed_open_retried_counterexample:
  "trace (snd (getCachedConversations (example_json record_with_list)
        (snd (getCachedConversations (example_json record_with_list)
                (fresh_state\<lparr>idb_open_fails := True\<rparr>)
                (Some ''42'') (DateString ''2024-03-05'')))
        (Some ''42'') (DateString ''2024-03-05''))) =
     [IdbOpen, LsGetItem ''admin_conversations_cache_42_2024-03-05'',
      IdbOpen, LsGetItem ''admin_conversations_cache_42_2024-03-05''] \<and>
   trace (snd (cacheConversations (example_json record_with_list)
        ((snd (getCachedConversations (example_json record_with_list)
                (fresh_state\<lparr>idb_open_fails := True\<rparr>)
                (Some ''42'') (DateString ''2024-03-05'')))\<lparr>idb_open_fails := False\<rparr>)
        (Some ''42'') (DateString ''2024-03-05'') (Some payload_with_list))) =
     [IdbOpen, LsGetItem ''admin_conversations_cache_42_2024-03-05'',
      IdbOpen, IdbTransaction, IdbPut ''42_2024-03-05'']"
  by (simp add: model_defs store_defs example_defs Let_def)

section \<open>Expiry\<close>

text \<open>
  Claim C6, as the code has it. A store that reports success at time \<open>T\<close> (the first read
  of the clock) has built a record with \<open>expiresAt = T + 24h\<close> and with the second read of
  the clock as its \<open>timestamp\<close>, which is \<open>T\<close> when the clock has not moved in between.
  If the record survives \<^verbatim>\<open>JSON.stringify\<close> and \<^verbatim>\<open>JSON.parse\<close> and the structured tier, when
  there is a handle, performs the \<^verbatim>\<open>put\<close> and answers \<^verbatim>\<open>get\<close> requests, the lookup of the
  key reads that record, and at any later time \<open>t\<close> that the clock can show: it is a hit that leaves the record as
  it is (so its \<open>expiresAt\<close> never moves) as long as \<open>t\<close> is at most \<open>T + 24h\<close>, in particular
  at \<open>T + 23h59m\<close>, and a miss that purges the record once \<open>t\<close> is past it, in particular at
  \<open>T + 24h01m\<close>.
\<close>

theorem expiry_after_24_hours:
  assumes key: "getConversationCacheKey admin dt = Inr k"
    and put: "cacheConversations J st admin dt (Some d) = (Resolved True, st1)"
    and codec: "parse J (stringify J (buildCacheData st k admin dt d)) =
                  Some (buildCacheData st k admin dt d)"
    and tier: "structured_open st \<longrightarrow> \<not> idb_put_fails st \<and> \<not> idb_get_fails st"
  shows "let r = buildCacheData st k admin dt d; T = Date_now st in
           expiresAt r = Some (T + 24 * 60 * 60 * 1000) \<and>
           timestamp r = Some (Date_now_again st) \<and>
           T \<le> Date_now_again st \<and>
           (clock_drift st = 0 \<longrightarrow> timestamp r = Some T) \<and>
           consulted_record J st1 k = Some r \<and>
           (\<forall>t. t \<le> DATE_MAX \<longrightarrow>
              (t \<le> T + 24 * 60 * 60 * 1000 \<longrightarrow>
                 fst (getCachedConversations J (st1\<lparr>clock := t\<rparr>) admin dt) = Resolved (Some d) \<and>
                 consulted_record J
                   (snd (getCachedConversations J (st1\<lparr>clock := t\<rparr>) admin dt)) k = Some r) \<and>
              (t = T + (23 * 60 + 59) * 60 * 1000 \<longrightarrow>
                 fst (getCachedConversations J (st1\<lparr>clock := t\<rparr>) admin dt) = Resolved (Some d)) \<and>
              (t > T + 24 * 60 * 60 * 1000 \<longrightarrow>
                 fst (getCachedConversations J (st1\<lparr>clock := t\<rparr>) admin dt) = Resolved None \<and>
                 consulted_record J
                   (snd (getCachedConversations J (st1\<lparr>clock := t\<rparr>) admin dt)) k = None) \<and>
              (t = T + (24 * 60 + 1) * 60 * 1000 \<longrightarrow>
                 fst (getCachedConversations J (st1\<lparr>clock := t\<rparr>) admin dt) = Resolved None \<and>
                 consulted_record J
                   (snd (getCachedConversations J (st1\<lparr>clock := t\<rparr>) admin dt)) k = None))"
proof -
  define r where "r = buildCacheData st k admin dt d"
  define T where "T = Date_now st"
  have f: "expiresAt r = Some (T + 24 * 60 * 60 * 1000)" "timestamp r = Some (Date_now_again st)"
    "data r = Some d"
    by (simp_all add: r_def T_def)
  have le: "T \<le> Date_now_again st" unfolding T_def by (rule Date_now_le(3))
  have same: "clock_drift st = 0 \<longrightarrow> timestamp r = Some T"
    using Date_now_le(4) [of st] by (simp add: f(2) T_def)
  have ts: "\<not> toISOString_throws (timestamp r)" unfolding r_def by (rule buildCacheData_fresh(2))
  have ev: "evolves st st1" using put by (rule store_evolves)
  then have so: "structured_open st1 = structured_open st" by (rule evolves_structured_open)
  have flags: "idb_tx_throws st1 = idb_tx_throws st" "idb_get_fails st1 = idb_get_fails st"
    by (rule evolves_switches [OF ev])+
  note where_put = store_True [OF key put]
  have tx: "structured_open st \<longrightarrow> \<not> idb_tx_throws st" using where_put tier by auto
  have rec: "consulted_record J st1 k = Some r"
    using where_put tier codec by (auto simp: consulted_record_def so r_def)
  have look: "(t \<le> T + 24 * 60 * 60 * 1000 \<longrightarrow>
                 fst (getCachedConversations J (st1\<lparr>clock := t\<rparr>) admin dt) = Resolved (Some d) \<and>
                 consulted_record J
                   (snd (getCachedConversations J (st1\<lparr>clock := t\<rparr>) admin dt)) k = Some r) \<and>
              (t = T + (23 * 60 + 59) * 60 * 1000 \<longrightarrow>
                 fst (getCachedConversations J (st1\<lparr>clock := t\<rparr>) admin dt) = Resolved (Some d)) \<and>
              (t > T + 24 * 60 * 60 * 1000 \<longrightarrow>
                 fst (getCachedConversations J (st1\<lparr>clock := t\<rparr>) admin dt) = Resolved None \<and>
                 consulted_record J
                   (snd (getCachedConversations J (st1\<lparr>clock := t\<rparr>) admin dt)) k = None) \<and>
              (t = T + (24 * 60 + 1) * 60 * 1000 \<longrightarrow>
                 fst (getCachedConversations J (st1\<lparr>clock := t\<rparr>) admin dt) = Resolved None \<and>
                 consulted_record J
                   (snd (getCachedConversations J (st1\<lparr>clock := t\<rparr>) admin dt)) k = None)"
    if t: "t \<le> DATE_MAX" for t
  proof -
    define st2 where "st2 = st1\<lparr>clock := t\<rparr>"
    have so2: "structured_open st2 = structured_open st"
      unfolding so [symmetric] st2_def by (rule structured_open_cong) simp_all
    have c: "consulted_record J st2 k = Some r"
      unfolding rec [symmetric] st2_def
      by (rule consulted_record_cong) (simp_all add: structured_open_def)
    have ok: "\<not> (structured_open st2 \<and> (idb_tx_throws st2 \<or> idb_get_fails st2))"
      using tier tx by (simp add: so2) (simp add: st2_def flags)
    have now: "Date_now st2 = t" using t by (simp add: Date_now_def st2_def)
    have "\<not> toISOString_throws (timestamp r')" if "consulted_record J st2 k = Some r'" for r'
      using that c ts by simp
    then have "fst (getCachedConversations J st2 admin dt) =
        Resolved (case consulted_record J st2 k of
                    None \<Rightarrow> None
                  | Some r \<Rightarrow> if isExpired r (Date_now st2) then None else data r)"
      by (rule lookup_result [OF key ok])
    then have res: "fst (getCachedConversations J st2 admin dt) =
        Resolved (if isExpired r t then None else Some d)"
      by (simp add: c now f(3))
    have fresh: "\<not> isExpired r t" if "t \<le> T + 24 * 60 * 60 * 1000"
      using that by (simp add: isExpired_def f)
    have stale: "isExpired r t" if "t > T + 24 * 60 * 60 * 1000"
      using that by (simp add: isExpired_def f)
    have kept: "consulted_record J (snd (getCachedConversations J st2 admin dt)) k = Some r"
      if "\<not> isExpired r t"
      using lookup_hit_keeps [OF key ok c _ f(3)] that by (simp add: now)
    have purged: "consulted_record J (snd (getCachedConversations J st2 admin dt)) k = None"
      if "isExpired r t"
      using that by (intro lookup_purges [OF key ok c]) (simp add: now)
    show ?thesis
      unfolding st2_def [symmetric]
    proof (intro conjI impI)
      assume a: "t \<le> T + 24 * 60 * 60 * 1000"
      show "fst (getCachedConversations J st2 admin dt) = Resolved (Some d)"
        using res fresh [OF a] by simp
      show "consulted_record J (snd (getCachedConversations J st2 admin dt)) k = Some r"
        using kept fresh [OF a] by simp
    next
      assume "t = T + (23 * 60 + 59) * 60 * 1000"
      then have "t \<le> T + 24 * 60 * 60 * 1000" by simp
      then show "fst (getCachedConversations J st2 admin dt) = Resolved (Some d)"
        using res fresh by simp
    next
      assume a: "t > T + 24 * 60 * 60 * 1000"
      show "fst (getCachedConversations J st2 admin dt) = Resolved None"
        using res stale [OF a] by simp
      show "consulted_record J (snd (getCachedConversations J st2 admin dt)) k = None"
        using purged stale [OF a] by simp
    next
      assume "t = T + (24 * 60 + 1) * 60 * 1000"
      then have a: "t > T + 24 * 60 * 60 * 1000" by simp
      show "fst (getCachedConversations J st2 admin dt) = Resolved None"
        using res stale [OF a] by simp
      show "consulted_record J (snd (getCachedConversations J st2 admin dt)) k = None"
        using purged stale [OF a] by simp
    qed
  qed
  show ?thesis
    unfolding Let_def r_def [symmetric] T_def [symmetric] using f(1,2) le same rec look by blast
qed

theorem expiry_after_24_hours_witness:
  "getConversationCacheKey (Some ''42'') (DateString ''2024-03-05'') = Inr ''42_2024-03-05'' \<and>
   fst (cacheConversations (example_json record_with_list) fresh_state
          (Some ''42'') (DateString ''2024-03-05'') (Some payload_with_list)) = Resolved True \<and>
   parse (example_json record_with_list)
     (stringify (example_json record_with_list)
        (buildCacheData fresh_state ''42_2024-03-05'' (Some ''42'') (DateString ''2024-03-05'')
           payload_with_list)) =
     Some (buildCacheData fresh_state ''42_2024-03-05'' (Some ''42'') (DateString ''2024-03-05'')
             payload_with_list) \<and>
   structured_open fresh_state \<and> \<not> idb_put_fails fresh_state \<and> \<not> idb_get_fails fresh_state \<and>
   Date_now fresh_state = 1709632800000 \<and> clock_drift fresh_state = 0 \<and>
   buildCacheData fresh_state ''42_2024-03-05'' (Some ''42'') (DateString ''2024-03-05'')
     payload_with_list = record_with_list \<and>
   timestamp record_with_list = Some 1709632800000 \<and>
   expiresAt record_with_list = Some (1709632800000 + 86400000) \<and>
   1709632800000 + 86340000 \<le> DATE_MAX \<and> 1709632800000 + 86460000 \<le> DATE_MAX \<and>
   consulted_record (example_json record_with_list)
     (snd (cacheConversations (example_json record_with_list) fresh_state
          (Some ''42'') (DateString ''2024-03-05'') (Some payload_with_list)))
     ''42_2024-03-05'' = Some record_with_list \<and>
   fst (getCachedConversations (example_json record_with_list)
          ((snd (cacheConversations (example_json record_with_list) fresh_state
                   (Some ''42'') (DateString ''2024-03-05'') (Some payload_with_list)))
             \<lparr>clock := 1709632800000 + 86340000\<rparr>)
          (Some ''42'') (DateString ''2024-03-05'')) = Resolved (Some payload_with_list) \<and>
   consulted_record (example_json record_with_list)
     (snd (getCachedConversations (example_json record_with_list)
          ((snd (cacheConversations (example_json record_with_list) fresh_state
                   (Some ''42'') (DateString ''2024-03-05'') (Some payload_with_list)))
             \<lparr>clock := 1709632800000 + 86340000\<rparr>)
          (Some ''42'') (DateString ''2024-03-05''))) ''42_2024-03-05'' = Some record_with_list \<and>
   fst (getCachedConversations (example_json record_with_list)
          ((snd (cacheConversations (example_json record_with_list) fresh_state
                   (Some ''42'') (DateString ''2024-03-05'') (Some payload_with_list)))
             \<lparr>clock := 1709632800000 + 86460000\<rparr>)
          (Some ''42'') (DateString ''2024-03-05'')) = Resolved None \<and>
   consulted_record (example_json record_with_list)
     (snd (getCachedConversations (example_json record_with_list)
          ((snd (cacheConversations (example_json record_with_list) fresh_state
                   (Some ''42'') (DateString ''2024-03-05'') (Some payload_with_list)))
             \<lparr>clock := 1709632800000 + 86460000\<rparr>)
          (Some ''42'') (DateString ''2024-03-05''))) ''42_2024-03-05'' = None \<and>
   \<not> structured_open (fresh_state\<lparr>INDEXEDDB_AVAILABLE := False\<rparr>) \<and>
   fst (cacheConversations (example_json record_with_list)
          (fresh_state\<lparr>INDEXEDDB_AVAILABLE := False\<rparr>)
          (Some ''42'') (DateString ''2024-03-05'') (Some payload_with_list)) = Resolved True \<and>
   fst (getCachedConversations (example_json record_with_list)
          ((snd (cacheConversations (example_json record_with_list)
                   (fresh_state\<lparr>INDEXEDDB_AVAILABLE := False\<rparr>)
                   (Some ''42'') (DateString ''2024-03-05'') (Some payload_with_list)))
             \<lparr>clock := 1709632800000 + 86340000\<rparr>)
          (Some ''42'') (DateString ''2024-03-05'')) = Resolved (Some payload_with_list) \<and>
   fst (getCachedConversations (example_json record_with_list)
          ((snd (cacheConversations (example_json record_with_list)
                   (fresh_state\<lparr>INDEXEDDB_AVAILABLE := False\<rparr>)
                   (Some ''42'') (DateString ''2024-03-05'') (Some payload_with_list)))
             \<lparr>clock := 1709632800000 + 86460000\<rparr>)
          (Some ''42'') (DateString ''2024-03-05'')) = Resolved None \<and>
   consulted_record (example_json record_with_list)
     (snd (getCachedConversations (example_json record_with_list)
          ((snd (cacheConversations (example_json record_with_list)
                   (fresh_state\<lparr>INDEXEDDB_AVAILABLE := False\<rparr>)
                   (Some ''42'') (DateString ''2024-03-05'') (Some payload_with_list)))
             \<lparr>clock := 1709632800000 + 86460000\<rparr>)
          (Some ''42'') (DateString ''2024-03-05''))) ''42_2024-03-05'' = None"
proof -
  define J where "J = example_json record_with_list"
  define res where "res = cacheConversations J fresh_state
          (Some ''42'') (DateString ''2024-03-05'') (Some payload_with_list)"
  define st1 where "st1 = snd res"
  define flat where "flat = fresh_state\<lparr>INDEXEDDB_AVAILABLE := False\<rparr>"
  define res' where "res' = cacheConversations J flat
          (Some ''42'') (DateString ''2024-03-05'') (Some payload_with_list)"
  define st1' where "st1' = snd res'"
  have ok': "fst res' = Resolved True"
    by (simp add: res'_def flat_def J_def model_defs store_defs example_defs Let_def)
  then have put': "cacheConversations J flat
          (Some ''42'') (DateString ''2024-03-05'') (Some payload_with_list) = (Resolved True, st1')"
    by (simp add: res'_def st1'_def prod_eq_iff)
  have b': "buildCacheData flat ''42_2024-03-05'' (Some ''42'') (DateString ''2024-03-05'')
      payload_with_list = record_with_list"
    by (simp add: flat_def buildCacheData_def String_of_admin_def CACHE_EXPIRY_HOURS_def example_defs
          Date_now_def Date_now_again_def DATE_MAX_def)
  have codec': "parse J (stringify J (buildCacheData flat ''42_2024-03-05'' (Some ''42'')
      (DateString ''2024-03-05'') payload_with_list)) =
     Some (buildCacheData flat ''42_2024-03-05'' (Some ''42'') (DateString ''2024-03-05'')
             payload_with_list)"
    unfolding b' J_def by (rule example_codec)
  have t': "\<not> structured_open flat" by (simp add: structured_open_def flat_def)
  then have tier': "structured_open flat \<longrightarrow> \<not> idb_put_fails flat \<and> \<not> idb_get_fails flat" by simp
  have c0': "Date_now flat = 1709632800000"
    by (simp add: flat_def fresh_state_def Date_now_def DATE_MAX_def)
  have ok: "fst res = Resolved True"
    by (simp add: res_def J_def model_defs store_defs example_defs Let_def)
  then have put: "cacheConversations J fresh_state
          (Some ''42'') (DateString ''2024-03-05'') (Some payload_with_list) = (Resolved True, st1)"
    by (simp add: res_def st1_def prod_eq_iff)
  have codec: "parse J (stringify J (buildCacheData fresh_state ''42_2024-03-05'' (Some ''42'')
      (DateString ''2024-03-05'') payload_with_list)) =
     Some (buildCacheData fresh_state ''42_2024-03-05'' (Some ''42'') (DateString ''2024-03-05'')
             payload_with_list)"
    unfolding built_record_fresh J_def by (rule example_codec)
  have t: "structured_open fresh_state" "\<not> idb_put_fails fresh_state" "\<not> idb_get_fails fresh_state"
    by (simp_all add: structured_open_def fresh_state_def)
  then have tier: "structured_open fresh_state \<longrightarrow>
      \<not> idb_put_fails fresh_state \<and> \<not> idb_get_fails fresh_state" by simp
  have c0: "Date_now fresh_state = 1709632800000" "clock_drift fresh_state = 0"
    by (simp_all add: fresh_state_def Date_now_def DATE_MAX_def)
  have ts: "timestamp record_with_list = Some 1709632800000"
    "expiresAt record_with_list = Some (1709632800000 + 86400000)"
    by (simp_all add: record_with_list_def)
  have b: "(1709632800000::nat) + 86340000 \<le> DATE_MAX" "(1709632800000::nat) + 86460000 \<le> DATE_MAX"
    by (simp_all add: DATE_MAX_def)
  note main = expiry_after_24_hours [OF key_42 put codec tier, unfolded Let_def built_record_fresh c0]
  have rec: "consulted_record J st1 ''42_2024-03-05'' = Some record_with_list"
    using main by (elim conjE)
  have later: "\<forall>t. t \<le> DATE_MAX \<longrightarrow>
     (t \<le> 1709632800000 + 24 * 60 * 60 * 1000 \<longrightarrow>
      fst (getCachedConversations J (st1\<lparr>clock := t\<rparr>) (Some ''42'') (DateString ''2024-03-05'')) =
        Resolved (Some payload_with_list) \<and>
      consulted_record J
        (snd (getCachedConversations J (st1\<lparr>clock := t\<rparr>) (Some ''42'') (DateString ''2024-03-05'')))
        ''42_2024-03-05'' = Some record_with_list) \<and>
     (t = 1709632800000 + (23 * 60 + 59) * 60 * 1000 \<longrightarrow>
      fst (getCachedConversations J (st1\<lparr>clock := t\<rparr>) (Some ''42'') (DateString ''2024-03-05'')) =
        Resolved (Some payload_with_list)) \<and>
     (1709632800000 + 24 * 60 * 60 * 1000 < t \<longrightarrow>
      fst (getCachedConversations J (st1\<lparr>clock := t\<rparr>) (Some ''42'') (DateString ''2024-03-05'')) =
        Resolved None \<and>
      consulted_record J
        (snd (getCachedConversations J (st1\<lparr>clock := t\<rparr>) (Some ''42'') (DateString ''2024-03-05'')))
        ''42_2024-03-05'' = None) \<and>
     (t = 1709632800000 + (24 * 60 + 1) * 60 * 1000 \<longrightarrow>
      fst (getCachedConversations J (st1\<lparr>clock := t\<rparr>) (Some ''42'') (DateString ''2024-03-05'')) =
        Resolved None \<and>
      consulted_record J
        (snd (getCachedConversations J (st1\<lparr>clock := t\<rparr>) (Some ''42'') (DateString ''2024-03-05'')))
        ''42_2024-03-05'' = None)"
    using main by (elim conjE)
  have hit: "fst (getCachedConversations J (st1\<lparr>clock := 1709632800000 + 86340000\<rparr>)
      (Some ''42'') (DateString ''2024-03-05'')) = Resolved (Some payload_with_list) \<and>
    consulted_record J (snd (getCachedConversations J (st1\<lparr>clock := 1709632800000 + 86340000\<rparr>)
      (Some ''42'') (DateString ''2024-03-05''))) ''42_2024-03-05'' = Some record_with_list"
    using later [rule_format, OF b(1), THEN conjunct1] by simp
  have miss: "fst (getCachedConversations J (st1\<lparr>clock := 1709632800000 + 86460000\<rparr>)
      (Some ''42'') (DateString ''2024-03-05'')) = Resolved None \<and>
      consulted_record J (snd (getCachedConversations J (st1\<lparr>clock := 1709632800000 + 86460000\<rparr>)
      (Some ''42'') (DateString ''2024-03-05''))) ''42_2024-03-05'' = None"
    using later [rule_format, OF b(2), THEN conjunct2, THEN conjunct2, THEN conjunct2] by simp
  note main' = expiry_after_24_hours [OF key_42 put' codec' tier', unfolded Let_def b' c0']
  have later': "\<forall>t. t \<le> DATE_MAX \<longrightarrow>
     (t \<le> 1709632800000 + 24 * 60 * 60 * 1000 \<longrightarrow>
      fst (getCachedConversations J (st1'\<lparr>clock := t\<rparr>) (Some ''42'') (DateString ''2024-03-05'')) =
        Resolved (Some payload_with_list) \<and>
      consulted_record J
        (snd (getCachedConversations J (st1'\<lparr>clock := t\<rparr>) (Some ''42'') (DateString ''2024-03-05'')))
        ''42_2024-03-05'' = Some record_with_list) \<and>
     (t = 1709632800000 + (23 * 60 + 59) * 60 * 1000 \<longrightarrow>
      fst (getCachedConversations J (st1'\<lparr>clock := t\<rparr>) (Some ''42'') (DateString ''2024-03-05'')) =
        Resolved (Some payload_with_list)) \<and>
     (1709632800000 + 24 * 60 * 60 * 1000 < t \<longrightarrow>
      fst (getCachedConversations J (st1'\<lparr>clock := t\<rparr>) (Some ''42'') (DateString ''2024-03-05'')) =
        Resolved None \<and>
      consulted_record J
        (snd (getCachedConversations J (st1'\<lparr>clock := t\<rparr>) (Some ''42'') (DateString ''2024-03-05'')))
        ''42_2024-03-05'' = None) \<and>
     (t = 1709632800000 + (24 * 60 + 1) * 60 * 1000 \<longrightarrow>
      fst (getCachedConversations J (st1'\<lparr>clock := t\<rparr>) (Some ''42'') (DateString ''2024-03-05'')) =
        Resolved None \<and>
      consulted_record J
        (snd (getCachedConversations J (st1'\<lparr>clock := t\<rparr>) (Some ''42'') (DateString ''2024-03-05'')))
        ''42_2024-03-05'' = None)"
    using main' by (elim conjE)
  have hit': "fst (getCachedConversations J (st1'\<lparr>clock := 1709632800000 + 86340000\<rparr>)
      (Some ''42'') (DateString ''2024-03-05'')) = Resolved (Some payload_with_list)"
    using later' [rule_format, OF b(1), THEN conjunct1] by simp
  have miss': "fst (getCachedConversations J (st1'\<lparr>clock := 1709632800000 + 86460000\<rparr>)
      (Some ''42'') (DateString ''2024-03-05'')) = Resolved None \<and>
      consulted_record J (snd (getCachedConversations J (st1'\<lparr>clock := 1709632800000 + 86460000\<rparr>)
      (Some ''42'') (DateString ''2024-03-05''))) ''42_2024-03-05'' = None"
    using later' [rule_format, OF b(2), THEN conjunct2, THEN conjunct2, THEN conjunct2] by simp
  from key_42 ok codec t c0 built_record_fresh ts b rec hit miss t' ok' hit' miss' show ?thesis
    unfolding st1_def res_def st1'_def res'_def flat_def J_def by (intro conjI) simp_all
qed

text \<open>
  Claim C6 as stated fails twice. When the clock moves on by a millisecond between the two
  reads of a store, the record's \<open>expiresAt\<close> is not its \<open>timestamp\<close> plus 24 hours. And
  with a handle whose \<^verbatim>\<open>put\<close> request fails, a store at 2024-03-05T10:00:00Z succeeds
  through localStorage, but the lookup reads the object store alone: it reports a miss
  23 hours and 59 minutes later, and 24 hours and 1 minute later it reports a miss and
  leaves the expired entry in localStorage.
\<close>

theorem expiry_counterexample:
  "fst (cacheConversations (example_json record_with_list) (fresh_state\<lparr>clock_drift := 1\<rparr>)
          (Some ''42'') (DateString ''2024-03-05'') (Some payload_with_list)) = Resolved True \<and>
   map (\<lambda>r. (timestamp r, expiresAt r))
     (idb_store (snd (cacheConversations (example_json record_with_list)
          (fresh_state\<lparr>clock_drift := 1\<rparr>)
          (Some ''42'') (DateString ''2024-03-05'') (Some payload_with_list)))) =
     [(Some 1709632800001, Some 1709719200000)] \<and>
   (1709719200000::nat) \<noteq> 1709632800001 + 24 * 60 * 60 * 1000 \<and>
   clock (fresh_state\<lparr>dbInstance := True, idb_put_fails := True\<rparr>) = 1709632800000 \<and>
   fst (cacheConversations (example_json record_with_list)
          (fresh_state\<lparr>dbInstance := True, idb_put_fails := True\<rparr>)
          (Some ''42'') (DateString ''2024-03-05'') (Some payload_with_list)) = Resolved True \<and>
   fst (getCachedConversations (example_json record_with_list)
          ((snd (cacheConversations (example_json record_with_list)
                   (fresh_state\<lparr>dbInstance := True, idb_put_fails := True\<rparr>)
                   (Some ''42'') (DateString ''2024-03-05'') (Some payload_with_list)))
             \<lparr>clock := 1709632800000 + (23 * 60 + 59) * 60 * 1000\<rparr>)
          (Some ''42'') (DateString ''2024-03-05'')) = Resolved None \<and>
   fst (getCachedConversations (example_json record_with_list)
          ((snd (cacheConversations (example_json record_with_list)
                   (fresh_state\<lparr>dbInstance := True, idb_put_fails := True\<rparr>)
                   (Some ''42'') (DateString ''2024-03-05'') (Some payload_with_list)))
             \<lparr>clock := 1709632800000 + (24 * 60 + 1) * 60 * 1000\<rparr>)
          (Some ''42'') (DateString ''2024-03-05'')) = Resolved None \<and>
   map_of (localStorage (snd (getCachedConversations (example_json record_with_list)
          ((snd (cacheConversations (example_json record_with_list)
                   (fresh_state\<lparr>dbInstance := True, idb_put_fails := True\<rparr>)
                   (Some ''42'') (DateString ''2024-03-05'') (Some payload_with_list)))
             \<lparr>clock := 1709632800000 + (24 * 60 + 1) * 60 * 1000\<rparr>)
          (Some ''42'') (DateString ''2024-03-05''))))
     ''admin_conversations_cache_42_2024-03-05'' = Some ''{42_2024-03-05}''"
  by (simp add: model_defs store_defs example_defs Let_def)

section \<open>The structured sweep\<close>

lemma totalSize_sum: "totalSize J entries = sum_list (map (\<lambda>entry. length (stringify J entry)) entries)"
proof -
  have "foldl (\<lambda>sum entry. sum + length (stringify J entry)) a entries =
        a + sum_list (map (\<lambda>entry. length (stringify J entry)) entries)" for a
    by (induction entries arbitrary: a) simp_all
  then show ?thesis by (simp add: totalSize_def)
qed

lemma fold_idb_delete_store:
  "idb_store (foldl (\<lambda>s entry. idb_delete_request (cacheKey entry) s) st es) =
     filter (\<lambda>r. cacheKey r \<notin> cacheKey ` set es) (idb_store st)"
  by (induction es arbitrary: st) (auto simp: idb_delete_def intro: filter_cong)

lemma fold_idb_delete_localStorage:
  "localStorage (foldl (\<lambda>s entry. idb_delete_request (cacheKey entry) s) st es) = localStorage st"
  by (induction es arbitrary: st) simp_all

lemma sweepEntries_store:
  "idb_store (sweepEntries J entries st) =
     filter (\<lambda>r. cacheKey r \<notin> cacheKey ` set (drop (keep_count J entries) entries)) (idb_store st)"
proof -
  have sub: "cacheKey ` set (drop 50 entries) \<subseteq> cacheKey ` set (drop 30 entries)"
    using set_drop_subset_set_drop [of 30 50 entries] by auto
  have both: "filter (\<lambda>x. cacheKey x \<notin> cacheKey ` set (drop 50 entries) \<and>
                         cacheKey x \<notin> cacheKey ` set (drop 30 entries)) rs =
              filter (\<lambda>r. cacheKey r \<notin> cacheKey ` set (drop 30 entries)) rs" for rs
    by (rule filter_cong [OF refl]) (use sub in blast)
  show ?thesis
    by (simp add: sweepEntries_def keep_count_def Let_def fold_idb_delete_store both)
qed

lemma sweepEntries_localStorage: "localStorage (sweepEntries J entries st) = localStorage st"
  by (simp add: sweepEntries_def Let_def fold_idb_delete_localStorage)

lemma cursor_set:
  assumes "\<forall>r\<in>set rs. timestamp r \<noteq> None"
  shows "set (idb_cursor_prev rs) = set rs"
  using assms by (auto simp: idb_cursor_prev_def)

lemma cursor_length:
  assumes "\<forall>r\<in>set rs. timestamp r \<noteq> None"
  shows "length (idb_cursor_prev rs) = length rs"
proof -
  have "filter (\<lambda>r. timestamp r \<noteq> None) rs = rs" using assms by (simp add: filter_id_conv)
  then show ?thesis by (simp add: idb_cursor_prev_def)
qed

lemma cursor_distinct_keys:
  assumes "distinct (map cacheKey rs)"
  shows "distinct (map cacheKey (idb_cursor_prev rs))"
proof -
  let ?f = "filter (\<lambda>r. timestamp r \<noteq> None) rs"
  have "distinct (map cacheKey ?f)" using assms by (rule distinct_map_filter)
  then have "distinct ?f" "inj_on cacheKey (set ?f)" by (simp_all add: distinct_map)
  then show ?thesis by (simp add: idb_cursor_prev_def distinct_map)
qed

lemma cursor_newest_first:
  assumes "a \<in> set (take n (idb_cursor_prev rs))" "b \<in> set (drop n (idb_cursor_prev rs))"
  shows "idb_index_key b \<le> idb_index_key a"
proof -
  let ?es = "idb_cursor_prev rs"
  have "sorted (map idb_index_key (rev ?es))"
    by (simp add: idb_cursor_prev_def sorted_sort_key)
  moreover have "rev ?es = rev (drop n ?es) @ rev (take n ?es)"
    by (metis append_take_drop_id rev_append)
  ultimately have "sorted (map idb_index_key (rev (drop n ?es)) @ map idb_index_key (rev (take n ?es)))"
    by simp
  then show ?thesis using assms by (auto simp: sorted_append)
qed

lemma retained_set:
  assumes "distinct (map cacheKey es)" "set rs = set es"
  shows "set (filter (\<lambda>r. cacheKey r \<notin> cacheKey ` set (drop n es)) rs) = set (take n es)"
proof -
  have d: "distinct (map cacheKey (take n es) @ map cacheKey (drop n es))"
    using assms(1) by (metis append_take_drop_id map_append)
  have u: "set es = set (take n es) \<union> set (drop n es)"
    by (metis append_take_drop_id set_append)
  show ?thesis using d u assms(2) by auto
qed


lemma sweep_structured:
  assumes "structured_open st" "\<not> idb_tx_throws st" "\<not> idb_cursor_fails st"
  shows "clearOldCacheEntries J st =
           (Resolved (), sweepEntries J (idb_cursor_prev (idb_store st))
                           (called IdbCursor (called IdbTransaction (opened st))))"
  using assms by (simp add: clearOldCacheEntries_def getConversationCacheDB_opened Let_def)

text \<open>
  Claim C7. With a handle, a transaction that opens and a cursor that delivers, on an
  object store whose records have distinct keys and all carry a timestamp (as every
  record written by \<^verbatim>\<open>cacheConversations\<close> does): the sweep leaves exactly the first \<open>n\<close>
  entries of the newest-first order, where \<open>n\<close> is 50, or 30 when the serialized
  entries are together longer than 500 MiB; every kept entry is at least as recent as
  every deleted one. So 60 records under the size threshold leave exactly the 50 most
  recently written, and above the threshold at most 30 keys remain.
\<close>

theorem structured_sweep_keeps_newest:
  assumes "structured_open st" "\<not> idb_tx_throws st" "\<not> idb_cursor_fails st"
    and "distinct (map cacheKey (idb_store st))"
    and "\<forall>r\<in>set (idb_store st). timestamp r \<noteq> None"
  shows "let entries = idb_cursor_prev (idb_store st);
             n = keep_count J entries;
             st' = snd (clearOldCacheEntries J st)
         in fst (clearOldCacheEntries J st) = Resolved () \<and>
            set (idb_store st') = set (take n entries) \<and>
            length (idb_store st') = min n (length (idb_store st)) \<and>
            (\<forall>a\<in>set (take n entries). \<forall>b\<in>set (drop n entries).
               \<forall>ta tb. timestamp a = Some ta \<and> timestamp b = Some tb \<longrightarrow> tb \<le> ta) \<and>
            (totalSize J entries \<le> 500 * 1024 * 1024 \<longrightarrow> n = 50) \<and>
            (length (idb_store st) = 60 \<and> totalSize J entries \<le> 500 * 1024 * 1024 \<longrightarrow>
               length (idb_store st') = 50 \<and>
               cacheKey ` set (idb_store st') = cacheKey ` set (take 50 entries)) \<and>
            (totalSize J entries > 500 * 1024 * 1024 \<longrightarrow>
               n = 30 \<and> length (idb_store st') \<le> 30)"
proof -
  define entries where "entries = idb_cursor_prev (idb_store st)"
  define n where "n = keep_count J entries"
  define st' where "st' = snd (clearOldCacheEntries J st)"
  have res: "fst (clearOldCacheEntries J st) = Resolved ()"
    using assms(1-3) by (simp add: sweep_structured)
  have store: "idb_store st' =
      filter (\<lambda>r. cacheKey r \<notin> cacheKey ` set (drop n entries)) (idb_store st)"
    using assms(1-3) by (simp add: st'_def sweep_structured sweepEntries_store n_def entries_def)
  have es: "set (idb_store st) = set entries"
    using assms(5) by (simp add: entries_def cursor_set)
  have len: "length entries = length (idb_store st)"
    using assms(5) by (simp add: entries_def cursor_length)
  have dk: "distinct (map cacheKey entries)"
    using assms(4) unfolding entries_def by (rule cursor_distinct_keys)
  have set': "set (idb_store st') = set (take n entries)"
    unfolding store using dk es by (rule retained_set)
  have "distinct (idb_store st')"
    using assms(4) by (simp add: store distinct_map)
  then have "length (idb_store st') = card (set (take n entries))"
    using set' by (metis distinct_card)
  also have "\<dots> = length (take n entries)"
    using dk by (intro distinct_card) (simp add: distinct_map)
  finally have len': "length (idb_store st') = min n (length (idb_store st))"
    by (simp add: len min.commute)
  have newest: "\<forall>a\<in>set (take n entries). \<forall>b\<in>set (drop n entries).
               \<forall>ta tb. timestamp a = Some ta \<and> timestamp b = Some tb \<longrightarrow> tb \<le> ta"
  proof (intro ballI allI impI)
    fix a b ta tb
    assume ab: "a \<in> set (take n entries)" "b \<in> set (drop n entries)"
      and t: "timestamp a = Some ta \<and> timestamp b = Some tb"
    from ab have "idb_index_key b \<le> idb_index_key a"
      unfolding entries_def by (rule cursor_newest_first)
    with t show "tb \<le> ta" by (auto simp: idb_index_key_def less_eq_prod_def)
  qed
  have n50: "totalSize J entries \<le> 500 * 1024 * 1024 \<longrightarrow> n = 50"
    by (simp add: n_def keep_count_def)
  have n30: "totalSize J entries > 500 * 1024 * 1024 \<longrightarrow> n = 30 \<and> length (idb_store st') \<le> 30"
    using len' by (simp add: n_def keep_count_def)
  have sixty: "length (idb_store st) = 60 \<and> totalSize J entries \<le> 500 * 1024 * 1024 \<longrightarrow>
               length (idb_store st') = 50 \<and>
               cacheKey ` set (idb_store st') = cacheKey ` set (take 50 entries)"
    using len' set' n50 by auto
  show ?thesis
    unfolding Let_def entries_def [symmetric] n_def [symmetric] st'_def [symmetric]
    using res set' len' newest n50 sixty n30 by blast
qed


lemma sixty_sorted: "sorted (map idb_index_key sixty_records)"
proof -
  have "idb_index_key (numbered_record i) \<le> idb_index_key (numbered_record j)" if "i < j" for i j
    using that by (simp add: idb_index_key_def numbered_record_def less_eq_prod_def)
  then have "sorted_wrt (\<lambda>i j. idb_index_key (numbered_record i) \<le> idb_index_key (numbered_record j)) [0..<60]"
    by (intro sorted_wrt_mono_rel [OF _ sorted_wrt_upt]) simp
  then show ?thesis by (simp add: sixty_records_def sorted_wrt_map o_def)
qed

lemma sixty_cursor: "idb_cursor_prev sixty_records = rev sixty_records"
proof -
  have "filter (\<lambda>r. timestamp r \<noteq> None) sixty_records = sixty_records"
    by (simp add: sixty_records_def numbered_record_def filter_id_conv)
  then show ?thesis using sixty_sorted by (simp add: idb_cursor_prev_def sort_key_id_if_sorted)
qed

lemma sixty_distinct: "distinct (map cacheKey sixty_records)"
proof -
  have "inj_on (\<lambda>i. replicate (Suc i) (CHR ''k'')) {0..<60}"
    by (rule inj_onI) (metis length_replicate nat.inject)
  then show ?thesis by (simp add: sixty_records_def numbered_record_def o_def distinct_map)
qed

lemma take_rev_sixty: "take 50 (rev sixty_records) = rev (map numbered_record [10..<60])"
proof -
  have "take 50 (rev sixty_records) = rev (drop 10 sixty_records)"
    by (simp add: take_rev sixty_records_def)
  also have "drop 10 sixty_records = map numbered_record [10..<60]"
    by (simp add: sixty_records_def drop_map)
  finally show ?thesis .
qed

theorem structured_sweep_keeps_newest_witness:
  "structured_open (fresh_state\<lparr>idb_store := sixty_records\<rparr>) \<and>
   \<not> idb_tx_throws (fresh_state\<lparr>idb_store := sixty_records\<rparr>) \<and>
   \<not> idb_cursor_fails (fresh_state\<lparr>idb_store := sixty_records\<rparr>) \<and>
   distinct (map cacheKey (idb_store (fresh_state\<lparr>idb_store := sixty_records\<rparr>))) \<and>
   list_all (\<lambda>r. timestamp r \<noteq> None) (idb_store (fresh_state\<lparr>idb_store := sixty_records\<rparr>)) \<and>
   length (idb_store (fresh_state\<lparr>idb_store := sixty_records\<rparr>)) = 60 \<and>
   set (idb_store (snd (clearOldCacheEntries
          \<lparr>stringify = (\<lambda>r. ''{}''), parse = (\<lambda>s. None)\<rparr>
          (fresh_state\<lparr>idb_store := sixty_records\<rparr>)))) = numbered_record ` {10..<60} \<and>
   length (idb_store (snd (clearOldCacheEntries
          \<lparr>stringify = (\<lambda>r. ''{}''), parse = (\<lambda>s. None)\<rparr>
          (fresh_state\<lparr>idb_store := sixty_records\<rparr>)))) = 50 \<and>
   length (idb_store (snd (clearOldCacheEntries
          \<lparr>stringify = (\<lambda>r. replicate 20971520 (CHR ''x'')), parse = (\<lambda>s. None)\<rparr>
          (fresh_state\<lparr>idb_store := sixty_records\<rparr>)))) = 30"
proof -
  define st where "st = fresh_state\<lparr>idb_store := sixty_records\<rparr>"
  define small where "small = \<lparr>stringify = (\<lambda>r. ''{}''), parse = (\<lambda>s. None)\<rparr>"
  define big where "big = \<lparr>stringify = (\<lambda>r. replicate 20971520 (CHR ''x'')), parse = (\<lambda>s. None)\<rparr>"
  have h: "structured_open st" "\<not> idb_tx_throws st" "\<not> idb_cursor_fails st"
    by (simp_all add: structured_open_def fresh_state_def st_def)
  have d: "distinct (map cacheKey (idb_store st))" using sixty_distinct by (simp add: st_def)
  have t: "\<forall>r\<in>set (idb_store st). timestamp r \<noteq> None"
    by (auto simp: sixty_records_def numbered_record_def st_def)
  have l: "length (idb_store st) = 60" by (simp add: sixty_records_def st_def)
  have c: "idb_cursor_prev (idb_store st) = rev sixty_records" by (simp add: sixty_cursor st_def)
  have tsmall: "totalSize small (rev sixty_records) = 120"
    by (simp add: totalSize_sum sixty_records_def sum_list_triv small_def)
  have tbig: "totalSize big (rev sixty_records) = 1258291200"
    by (simp add: totalSize_sum sixty_records_def sum_list_triv big_def)
  have k50: "keep_count small (rev sixty_records) = 50" by (simp add: keep_count_def tsmall)
  have k30: "keep_count big (rev sixty_records) = 30" by (simp add: keep_count_def tbig)
  have s50: "set (take 50 (rev sixty_records)) = numbered_record ` {10..<60}"
    unfolding take_rev_sixty by (simp only: set_rev set_map set_upt)
  note small_sweep = structured_sweep_keeps_newest [OF h d t, of small, unfolded Let_def c k50 s50 l]
  note big_sweep = structured_sweep_keeps_newest [OF h d t, of big, unfolded Let_def c k30 l]
  have a: "set (idb_store (snd (clearOldCacheEntries small st))) = numbered_record ` {10..<60}"
    using small_sweep by (elim conjE)
  have b: "length (idb_store (snd (clearOldCacheEntries small st))) = 50"
    using small_sweep [THEN conjunct2, THEN conjunct2, THEN conjunct1] by simp
  have e: "length (idb_store (snd (clearOldCacheEntries big st))) = 30"
    using big_sweep [THEN conjunct2, THEN conjunct2, THEN conjunct1] by simp
  from t have t': "list_all (\<lambda>r. timestamp r \<noteq> None) (idb_store st)" by (simp add: list_all_iff)
  from h d t' l a b e show ?thesis
    unfolding st_def small_def big_def by (intro conjI)
qed

section \<open>The flat sweep\<close>

lemma fold_getItem_localStorage [simp]:
  "localStorage (foldl (\<lambda>s k. called (LsGetItem k) s) st ks) = localStorage st"
  by (induction ks arbitrary: st) simp_all

lemma fold_removeItem_localStorage:
  "localStorage (foldl (\<lambda>s entry. ls_removeItem (entry_key entry) s) st es) =
     filter (\<lambda>kv. fst kv \<notin> entry_key ` set es) (localStorage st)"
proof (induction es arbitrary: st)
  case Nil
  show ?case by simp
next
  case (Cons e es)
  have "filter (\<lambda>kv. fst kv \<notin> entry_key ` set es) (AList.delete (entry_key e) (localStorage st)) =
        filter (\<lambda>kv. fst kv \<notin> entry_key ` set (e # es)) (localStorage st)"
    unfolding AList.delete_eq filter_filter by (rule filter_cong [OF refl]) auto
  then show ?case by (simp add: Cons.IH)
qed

lemma cacheEntry_called [simp]: "cacheEntry J (called e st) = cacheEntry J st"
  by (rule ext) (simp add: cacheEntry_def)

lemma entry_key_cacheEntry [simp]: "entry_key (cacheEntry J st k) = k"
  by (simp add: cacheEntry_def split: option.splits)

lemma cache_keys_called [simp]: "cache_keys (called e st) = cache_keys st"
  by (simp add: cache_keys_def)

lemma flat_entries_keys: "set (map entry_key (flat_entries J st)) = set (cache_keys st)"
  by (auto simp: flat_entries_def image_iff)

lemma flat_entries_length [simp]: "length (flat_entries J st) = length (cache_keys st)"
  by (simp add: flat_entries_def)

lemma flat_entries_distinct:
  assumes "distinct (map fst (localStorage st))"
  shows "distinct (map entry_key (flat_entries J st))"
proof -
  have dk: "distinct (cache_keys st)" using assms by (simp add: cache_keys_def)
  have "map entry_key (map (cacheEntry J st) (cache_keys st)) = cache_keys st"
    by (simp add: o_def)
  then have "distinct (map entry_key (map (cacheEntry J st) (cache_keys st)))" using dk by simp
  then have "distinct (map (cacheEntry J st) (cache_keys st))"
    "inj_on entry_key (set (map (cacheEntry J st) (cache_keys st)))"
    by (simp_all only: distinct_map)
  then show ?thesis by (simp add: flat_entries_def distinct_map)
qed

lemma flat_entries_newest_first:
  assumes "a \<in> set (take n (flat_entries J st))" "b \<in> set (drop n (flat_entries J st))"
  shows "entry_timestamp b \<le> entry_timestamp a"
proof -
  let ?es = "flat_entries J st"
  have "sorted (map (\<lambda>e. - int (entry_timestamp e)) ?es)"
    by (simp add: flat_entries_def sorted_sort_key)
  moreover have "?es = take n ?es @ drop n ?es" by simp
  ultimately have "sorted (map (\<lambda>e. - int (entry_timestamp e)) (take n ?es) @
      map (\<lambda>e. - int (entry_timestamp e)) (drop n ?es))"
    by (metis map_append)
  then have "- int (entry_timestamp a) \<le> - int (entry_timestamp b)"
    using assms by (auto simp: sorted_append)
  then show ?thesis by simp
qed

lemma clearOldLocalStorage_storage:
  "localStorage (clearOldLocalStorage J st) =
     filter (\<lambda>kv. fst kv \<notin> entry_key ` set (drop 5 (flat_entries J st))) (localStorage st)"
proof (cases "cache_keys st = []")
  case True
  then have "flat_entries J st = []" by (simp add: flat_entries_def)
  then show ?thesis using True
    by (simp add: clearOldLocalStorage_def Let_def cache_keys_def)
next
  case False
  show ?thesis
  proof (cases "length (cache_keys st) > 5")
    case True
    then show ?thesis using False
      by (simp add: clearOldLocalStorage_def Let_def fold_removeItem_localStorage
            flat_entries_def cache_keys_def)
  next
    case False
    then have "drop 5 (flat_entries J st) = []" by simp
    then show ?thesis using False \<open>cache_keys st \<noteq> []\<close>
      by (simp add: clearOldLocalStorage_def Let_def cache_keys_def)
  qed
qed

lemma retained_keys:
  assumes "distinct (map f es)" "set ks = f ` set es"
  shows "set (filter (\<lambda>k. k \<notin> f ` set (drop n es)) ks) = f ` set (take n es)"
proof -
  have d: "distinct (map f (take n es) @ map f (drop n es))"
    using assms(1) by (metis append_take_drop_id map_append)
  have u: "set es = set (take n es) \<union> set (drop n es)"
    by (metis append_take_drop_id set_append)
  show ?thesis using d u assms(2) by auto
qed

lemma map_fst_filter:
  "map fst (filter (\<lambda>kv. P (fst kv)) xs) = filter P (map fst xs)"
  by (induction xs) simp_all

lemma cache_keys_after_sweep:
  "cache_keys (clearOldLocalStorage J st) =
     filter (\<lambda>k. k \<notin> entry_key ` set (drop 5 (flat_entries J st))) (cache_keys st)"
proof -
  let ?P = "\<lambda>k. k \<notin> entry_key ` set (drop 5 (flat_entries J st))"
  have "cache_keys (clearOldLocalStorage J st) =
      filter isCacheKey (map fst (filter (\<lambda>kv. ?P (fst kv)) (localStorage st)))"
    by (simp only: cache_keys_def clearOldLocalStorage_storage)
  also have "\<dots> = filter isCacheKey (filter ?P (map fst (localStorage st)))"
    using map_fst_filter [of ?P "localStorage st"] by simp
  also have "\<dots> = filter ?P (filter isCacheKey (map fst (localStorage st)))"
    by (simp add: conj_commute)
  finally show ?thesis by (simp only: cache_keys_def)
qed

lemma isCacheKey_prefixes:
  "isCacheKey (CONVERSATION_CACHE_PREFIX @ x)" "isCacheKey (''conversations_cache_'' @ x)"
  by (simp_all add: isCacheKey_def startsWith_def CONVERSATION_CACHE_PREFIX_def)

lemma sweep_flat:
  assumes "\<not> structured_open st"
  shows "clearOldCacheEntries J st = (Resolved (), clearOldLocalStorage J (opened st))"
  using assms by (simp add: clearOldCacheEntries_def getConversationCacheDB_opened)


text \<open>
  Claim C8. The localStorage sweep, on a localStorage with distinct keys: it looks at
  the keys with the cache prefix or the older prefix \<^verbatim>\<open>conversations_cache_\<close>, orders them
  newest first by the timestamp of their values, and removes exactly the entries past
  the 5th: the cache keys that remain are those of the first five entries, each at least
  as recent as every removed one, and every other localStorage entry stays. With 8 cache
  keys exactly 5 remain. \<^verbatim>\<open>clearOldCacheEntries\<close> runs this sweep when there is no database
  handle.
\<close>

theorem flat_sweep_keeps_newest_five:
  assumes "distinct (map fst (localStorage st))"
  shows "let entries = flat_entries J st; st' = clearOldLocalStorage J st
         in localStorage st' =
              filter (\<lambda>kv. fst kv \<notin> entry_key ` set (drop 5 entries)) (localStorage st) \<and>
            set (cache_keys st') = entry_key ` set (take 5 entries) \<and>
            length (cache_keys st') = min 5 (length (cache_keys st)) \<and>
            (\<forall>a\<in>set (take 5 entries). \<forall>b\<in>set (drop 5 entries).
               entry_timestamp b \<le> entry_timestamp a) \<and>
            (length (cache_keys st) = 8 \<longrightarrow> length (cache_keys st') = 5) \<and>
            (\<forall>kv\<in>set (localStorage st). \<not> isCacheKey (fst kv) \<longrightarrow> kv \<in> set (localStorage st')) \<and>
            (\<forall>x. isCacheKey (CONVERSATION_CACHE_PREFIX @ x) \<and>
                 isCacheKey (''conversations_cache_'' @ x)) \<and>
            (\<not> structured_open st \<longrightarrow>
               clearOldCacheEntries J st = (Resolved (), clearOldLocalStorage J (opened st)))"
proof -
  define entries where "entries = flat_entries J st"
  define st' where "st' = clearOldLocalStorage J st"
  have ls: "localStorage st' =
      filter (\<lambda>kv. fst kv \<notin> entry_key ` set (drop 5 entries)) (localStorage st)"
    by (simp add: st'_def entries_def clearOldLocalStorage_storage)
  have ck: "cache_keys st' = filter (\<lambda>k. k \<notin> entry_key ` set (drop 5 entries)) (cache_keys st)"
    by (simp add: st'_def entries_def cache_keys_after_sweep)
  have dk: "distinct (map entry_key entries)"
    using assms unfolding entries_def by (rule flat_entries_distinct)
  have ks: "set (cache_keys st) = entry_key ` set entries"
    using flat_entries_keys [of J st] by (simp add: entries_def)
  have kept: "set (cache_keys st') = entry_key ` set (take 5 entries)"
    unfolding ck using dk ks by (rule retained_keys)
  have "distinct (cache_keys st)" using assms by (simp add: cache_keys_def)
  then have "distinct (cache_keys st')" unfolding ck by (rule distinct_filter)
  then have "length (cache_keys st') = card (entry_key ` set (take 5 entries))"
    using kept by (metis distinct_card)
  also have "\<dots> = length (map entry_key (take 5 entries))"
    using dk by (metis distinct_card distinct_take list.set_map take_map)
  finally have len: "length (cache_keys st') = min 5 (length (cache_keys st))"
    by (simp add: entries_def min.commute)
  have newest: "\<forall>a\<in>set (take 5 entries). \<forall>b\<in>set (drop 5 entries).
      entry_timestamp b \<le> entry_timestamp a"
    unfolding entries_def by (blast intro: flat_entries_newest_first)
  have eight: "length (cache_keys st) = 8 \<longrightarrow> length (cache_keys st') = 5"
    using len by simp
  have others: "\<forall>kv\<in>set (localStorage st). \<not> isCacheKey (fst kv) \<longrightarrow> kv \<in> set (localStorage st')"
  proof (intro ballI impI)
    fix kv assume kv: "kv \<in> set (localStorage st)" "\<not> isCacheKey (fst kv)"
    have "entry_key ` set (drop 5 entries) \<subseteq> set (cache_keys st)"
      using ks set_drop_subset [of 5 entries] by blast
    then have "fst kv \<notin> entry_key ` set (drop 5 entries)"
      using kv(2) by (auto simp: cache_keys_def)
    then show "kv \<in> set (localStorage st')" using kv(1) by (simp add: ls)
  qed
  have prefixes: "\<forall>x. isCacheKey (CONVERSATION_CACHE_PREFIX @ x) \<and>
      isCacheKey (''conversations_cache_'' @ x)"
    using isCacheKey_prefixes by blast
  have whole: "\<not> structured_open st \<longrightarrow>
      clearOldCacheEntries J st = (Resolved (), clearOldLocalStorage J (opened st))"
    by (simp add: sweep_flat)
  show ?thesis
    unfolding Let_def entries_def [symmetric] st'_def [symmetric]
    using ls kept len newest eight others prefixes whole by (intro conjI)
qed


theorem flat_sweep_keeps_newest_five_witness:
  "distinct (map fst
     [(''admin_conversations_cache_a'', ''xxx''), (''theme'', ''dark''),
      (''admin_conversations_cache_b'', ''xxxxxxx''), (''admin_conversations_cache_c'', ''x''),
      (''conversations_cache_old'', ''xx''), (''admin_conversations_cache_d'', ''xxxxxxxx''),
      (''admin_conversations_cache_e'', ''xxxxx''), (''admin_conversations_cache_f'', ''xxxx''),
      (''admin_conversations_cache_g'', ''xxxxxx'')]) \<and>
   length (cache_keys (fresh_state\<lparr>localStorage :=
     [(''admin_conversations_cache_a'', ''xxx''), (''theme'', ''dark''),
      (''admin_conversations_cache_b'', ''xxxxxxx''), (''admin_conversations_cache_c'', ''x''),
      (''conversations_cache_old'', ''xx''), (''admin_conversations_cache_d'', ''xxxxxxxx''),
      (''admin_conversations_cache_e'', ''xxxxx''), (''admin_conversations_cache_f'', ''xxxx''),
      (''admin_conversations_cache_g'', ''xxxxxx'')]\<rparr>)) = 8 \<and>
   localStorage (clearOldLocalStorage
     \<lparr>stringify = (\<lambda>r. ''{}''),
      parse = (\<lambda>s. Some (record_with_list\<lparr>timestamp := Some (length s)\<rparr>))\<rparr>
     (fresh_state\<lparr>localStorage :=
     [(''admin_conversations_cache_a'', ''xxx''), (''theme'', ''dark''),
      (''admin_conversations_cache_b'', ''xxxxxxx''), (''admin_conversations_cache_c'', ''x''),
      (''conversations_cache_old'', ''xx''), (''admin_conversations_cache_d'', ''xxxxxxxx''),
      (''admin_conversations_cache_e'', ''xxxxx''), (''admin_conversations_cache_f'', ''xxxx''),
      (''admin_conversations_cache_g'', ''xxxxxx'')]\<rparr>)) =
     [(''theme'', ''dark''),
      (''admin_conversations_cache_b'', ''xxxxxxx''), (''admin_conversations_cache_d'', ''xxxxxxxx''),
      (''admin_conversations_cache_e'', ''xxxxx''), (''admin_conversations_cache_f'', ''xxxx''),
      (''admin_conversations_cache_g'', ''xxxxxx'')] \<and>
   length (cache_keys (clearOldLocalStorage
     \<lparr>stringify = (\<lambda>r. ''{}''),
      parse = (\<lambda>s. Some (record_with_list\<lparr>timestamp := Some (length s)\<rparr>))\<rparr>
     (fresh_state\<lparr>localStorage :=
     [(''admin_conversations_cache_a'', ''xxx''), (''theme'', ''dark''),
      (''admin_conversations_cache_b'', ''xxxxxxx''), (''admin_conversations_cache_c'', ''x''),
      (''conversations_cache_old'', ''xx''), (''admin_conversations_cache_d'', ''xxxxxxxx''),
      (''admin_conversations_cache_e'', ''xxxxx''), (''admin_conversations_cache_f'', ''xxxx''),
      (''admin_conversations_cache_g'', ''xxxxxx'')]\<rparr>))) = 5"
proof -
  define ls where "ls =
     [(''admin_conversations_cache_a'', ''xxx''), (''theme'', ''dark''),
      (''admin_conversations_cache_b'', ''xxxxxxx''), (''admin_conversations_cache_c'', ''x''),
      (''conversations_cache_old'', ''xx''), (''admin_conversations_cache_d'', ''xxxxxxxx''),
      (''admin_conversations_cache_e'', ''xxxxx''), (''admin_conversations_cache_f'', ''xxxx''),
      (''admin_conversations_cache_g'', ''xxxxxx'')]"
  define J where "J = \<lparr>stringify = (\<lambda>r. ''{}''),
      parse = (\<lambda>s. Some (record_with_list\<lparr>timestamp := Some (length s)\<rparr>))\<rparr>"
  define st where "st = fresh_state\<lparr>localStorage := ls\<rparr>"
  have d: "distinct (map fst (localStorage st))" by (simp add: st_def ls_def)
  have keys: "cache_keys st =
      [''admin_conversations_cache_a'', ''admin_conversations_cache_b'',
       ''admin_conversations_cache_c'', ''conversations_cache_old'',
       ''admin_conversations_cache_d'', ''admin_conversations_cache_e'',
       ''admin_conversations_cache_f'', ''admin_conversations_cache_g'']"
    by (simp add: cache_keys_def st_def ls_def isCacheKey_def startsWith_def
          CONVERSATION_CACHE_PREFIX_def)
  have l8: "length (cache_keys st) = 8" by (simp add: keys)
  have e: "localStorage (clearOldLocalStorage J st) =
     [(''theme'', ''dark''),
      (''admin_conversations_cache_b'', ''xxxxxxx''), (''admin_conversations_cache_d'', ''xxxxxxxx''),
      (''admin_conversations_cache_e'', ''xxxxx''), (''admin_conversations_cache_f'', ''xxxx''),
      (''admin_conversations_cache_g'', ''xxxxxx'')]"
    by (simp add: clearOldLocalStorage_def Let_def st_def ls_def J_def fresh_state_def
          isCacheKey_def startsWith_def CONVERSATION_CACHE_PREFIX_def cacheEntry_def
          called_def ls_removeItem_def AList.delete_eq record_with_list_def)
  note sweep = flat_sweep_keeps_newest_five [OF d, of J, unfolded Let_def]
  have five: "length (cache_keys (clearOldLocalStorage J st)) = 5"
    using sweep [THEN conjunct2, THEN conjunct2, THEN conjunct2, THEN conjunct2, THEN conjunct1] l8
    by simp
  from d l8 e five show ?thesis
    unfolding st_def ls_def J_def by simp
qed

section \<open>Oversized entries\<close>

text \<open>
  Claim C9, as the code has it. A record whose serialized form is longer than 2 MiB is
  rejected by \<^verbatim>\<open>cacheToLocalStorage\<close> with \<^verbatim>\<open>false\<close> and the state is left as it was: no
  \<^verbatim>\<open>setItem\<close>, no sweep, no second attempt. The value \<^verbatim>\<open>false\<close> is not its own: a record
  within the ceiling whose \<^verbatim>\<open>setItem\<close> throws an error other than the quota error is
  answered with \<^verbatim>\<open>false\<close> as well, after that one call.
\<close>

theorem oversize_rejected_before_write:
  "(length (stringify J cacheData) > 2 * 1024 * 1024 \<longrightarrow>
      cacheToLocalStorage J k cacheData st = (Resolved False, st)) \<and>
   (length (stringify J cacheData) \<le> 2 * 1024 * 1024 \<and> ls_set_fails st \<longrightarrow>
      cacheToLocalStorage J k cacheData st =
        (Resolved False,
         called (LsSetItem (CONVERSATION_CACHE_PREFIX @ k) (stringify J cacheData)) st))"
  by (simp add: cacheToLocalStorage_def ls_setItem_def Let_def)

theorem oversize_rejected_before_write_witness:
  "length (stringify \<lparr>stringify = (\<lambda>r. replicate 2097153 (CHR ''x'')), parse = (\<lambda>s. None)\<rparr>
             record_with_list) > 2 * 1024 * 1024 \<and>
   cacheToLocalStorage \<lparr>stringify = (\<lambda>r. replicate 2097153 (CHR ''x'')), parse = (\<lambda>s. None)\<rparr>
     ''42_2024-03-05'' record_with_list fresh_state = (Resolved False, fresh_state) \<and>
   trace fresh_state = [] \<and>
   length (stringify (example_json record_with_list) record_with_list) \<le> 2 * 1024 * 1024 \<and>
   ls_set_fails (fresh_state\<lparr>ls_set_fails := True\<rparr>) \<and>
   cacheToLocalStorage (example_json record_with_list) ''42_2024-03-05'' record_with_list
     (fresh_state\<lparr>ls_set_fails := True\<rparr>) =
     (Resolved False,
      called (LsSetItem (CONVERSATION_CACHE_PREFIX @ ''42_2024-03-05'')
                (stringify (example_json record_with_list) record_with_list))
        (fresh_state\<lparr>ls_set_fails := True\<rparr>))"
proof -
  define J where "J = \<lparr>stringify = (\<lambda>r. replicate 2097153 (CHR ''x'')), parse = (\<lambda>s. None)\<rparr>"
  define J' where "J' = example_json record_with_list"
  define st where "st = fresh_state\<lparr>ls_set_fails := True\<rparr>"
  have big: "length (stringify J record_with_list) > 2 * 1024 * 1024" by (simp add: J_def)
  have t: "trace fresh_state = []" by (simp add: fresh_state_def)
  have small: "length (stringify J' record_with_list) \<le> 2 * 1024 * 1024"
    by (simp add: J'_def example_json_def record_with_list_def)
  have f: "ls_set_fails st" by (simp add: st_def)
  have a: "cacheToLocalStorage J ''42_2024-03-05'' record_with_list fresh_state =
      (Resolved False, fresh_state)"
    using oversize_rejected_before_write [of J record_with_list "''42_2024-03-05''" fresh_state] big
    by blast
  have b: "cacheToLocalStorage J' ''42_2024-03-05'' record_with_list st =
      (Resolved False,
       called (LsSetItem (CONVERSATION_CACHE_PREFIX @ ''42_2024-03-05'')
                 (stringify J' record_with_list)) st)"
    using oversize_rejected_before_write [of J' record_with_list "''42_2024-03-05''" st] small f
    by blast
  from big a t small f b show ?thesis unfolding J_def J'_def st_def by (intro conjI)
qed

text \<open>
  Claim C9 as stated fails in one point: the outcome of an oversized entry is the value
  \<^verbatim>\<open>false\<close>, the same as the outcome of a \<^verbatim>\<open>setItem\<close> that throws some other error.
\<close>

theorem oversize_outcome_counterexample:
  "fst (cacheToLocalStorage \<lparr>stringify = (\<lambda>r. replicate 2097153 (CHR ''x'')), parse = (\<lambda>s. None)\<rparr>
          ''42_2024-03-05'' record_with_list fresh_state) = Resolved False \<and>
   fst (cacheToLocalStorage (example_json record_with_list)
          ''42_2024-03-05'' record_with_list (fresh_state\<lparr>ls_set_fails := True\<rparr>)) = Resolved False \<and>
   fst (cacheToLocalStorage \<lparr>stringify = (\<lambda>r. replicate 2097153 (CHR ''x'')), parse = (\<lambda>s. None)\<rparr>
          ''42_2024-03-05'' record_with_list fresh_state) =
   fst (cacheToLocalStorage (example_json record_with_list)
          ''42_2024-03-05'' record_with_list (fresh_state\<lparr>ls_set_fails := True\<rparr>))"
proof -
  have a: "fst (cacheToLocalStorage
      \<lparr>stringify = (\<lambda>r. replicate 2097153 (CHR ''x'')), parse = (\<lambda>s. None)\<rparr>
      ''42_2024-03-05'' record_with_list fresh_state) = Resolved False"
    by (simp add: cacheToLocalStorage_def)
  have b: "fst (cacheToLocalStorage (example_json record_with_list)
          ''42_2024-03-05'' record_with_list (fresh_state\<lparr>ls_set_fails := True\<rparr>)) = Resolved False"
    by (simp add: cacheToLocalStorage_def ls_setItem_def Let_def example_defs called_def)
  from a b show ?thesis by simp
qed

section \<open>The cache key is canonical\<close>

lemma is_digit_plain: "is_digit c \<Longrightarrow> \<not> js_whitespace c \<and> c \<noteq> CHR ''T''"
  unfolding is_digit_def js_whitespace_def
  by (auto simp: less_eq_char_def)

lemma length10E:
  assumes "length s = 10"
  obtains a b c d e f g h i j where "s = [a,b,c,d,e,f,g,h,i,j]"
proof -
  from assms have "length s = Suc (Suc (Suc (Suc (Suc (Suc (Suc (Suc (Suc (Suc 0)))))))))" by simp
  then show ?thesis using that by (auto simp: length_Suc_conv)
qed

lemma is_ymd_chars: 
  assumes "is_ymd s" shows "\<forall>c\<in>set s. \<not> js_whitespace c \<and> c \<noteq> CHR ''T''"
proof -
  from assms have "length s = 10" by (simp add: is_ymd_def)
  then obtain a b c d e f g h i j where s: "s = [a,b,c,d,e,f,g,h,i,j]" by (rule length10E)
  have dash: "\<not> js_whitespace (CHR ''-'')" by (simp add: js_whitespace_def)
  from assms show ?thesis unfolding s is_ymd_def
    using dash by (auto dest: is_digit_plain)
qed

lemma is_ymd_nonempty: "is_ymd s \<Longrightarrow> s \<noteq> []"
  by (auto simp: is_ymd_def)

lemma dropWhile_none:
  assumes "\<forall>c\<in>set xs. \<not> P c" shows "dropWhile P xs = xs"
  using assms by (cases xs) auto

lemma trim_plain:
  assumes "\<forall>c\<in>set s. \<not> js_whitespace c" shows "trim s = s"
proof -
  have a: "dropWhile js_whitespace s = s" using assms by (rule dropWhile_none)
  have "\<forall>c\<in>set (rev s). \<not> js_whitespace c" using assms by simp
  then have b: "dropWhile js_whitespace (rev s) = rev s" by (rule dropWhile_none)
  show ?thesis unfolding trim_def a b by simp
qed

lemma dropWhile_keeps_tail:
  assumes "\<not> P b"
  obtains w where "dropWhile P (ys @ b # xs) = w @ b # xs"
proof (cases "\<forall>y\<in>set ys. P y")
  case True
  then have "dropWhile P (ys @ b # xs) = [] @ b # xs" using assms by (simp add: dropWhile_append)
  then show ?thesis by (rule that)
next
  case False
  then have "dropWhile P (ys @ b # xs) = dropWhile P ys @ b # xs" by (auto simp: dropWhile_append)
  then show ?thesis by (rule that)
qed

lemma trim_idem: "trim (trim s) = trim s"
proof (cases "dropWhile js_whitespace s")
  case Nil
  show ?thesis unfolding trim_def Nil by simp
next
  case (Cons a u)
  then have a: "\<not> js_whitespace a"
    using hd_dropWhile [of js_whitespace s] by auto
  obtain w where w: "dropWhile js_whitespace (rev u @ a # []) = w @ a # []"
    using a by (rule dropWhile_keeps_tail)
  have t: "trim s = a # rev w" using Cons w by (simp add: trim_def)
  have "dropWhile js_whitespace (w @ [a]) = w @ [a]"
    using dropWhile_idem [of js_whitespace "rev u @ [a]"] w by simp
  then have "trim (a # rev w) = a # rev w" using a by (simp add: trim_def)
  then show ?thesis by (simp add: t)
qed

lemma trim_timestamped:
  assumes "is_timestamped s"
  shows "CHR ''T'' \<in> set (trim s) \<and> before_T (trim s) = take 10 s"
proof -
  define y where "y = take 10 s"
  define r where "r = drop 11 s"
  define T where "T = CHR ''T''"
  from assms have yy: "is_ymd y" and len: "length s > 10" and T: "s ! 10 = T"
    by (simp_all add: is_timestamped_def y_def T_def)
  have "s = take 10 s @ drop 10 s" by simp
  also have "drop 10 s = s ! 10 # drop 11 s" using Cons_nth_drop_Suc [OF len] by simp
  finally have s: "s = y @ T # r" using T by (simp add: y_def r_def)
  have plain: "\<forall>c\<in>set y. \<not> js_whitespace c \<and> c \<noteq> T" using yy unfolding T_def by (rule is_ymd_chars)
  from yy obtain a y' where ay: "y = a # y'" by (cases y) (auto dest: is_ymd_nonempty)
  have a: "\<not> js_whitespace a" using plain ay by simp
  have Tw: "\<not> js_whitespace T" by (simp add: js_whitespace_def T_def)
  have d1: "dropWhile js_whitespace s = s" using a by (simp add: s ay)
  obtain w where w: "dropWhile js_whitespace (rev r @ T # rev y) = w @ T # rev y"
    using Tw by (rule dropWhile_keeps_tail)
  have "rev s = rev r @ T # rev y" by (simp add: s)
  then have "trim s = y @ T # rev w" using w by (simp add: trim_def d1)
  then have "T \<in> set (trim s) \<and> takeWhile (\<lambda>c. c \<noteq> T) (trim s) = y"
    using plain by (simp add: takeWhile_append)
  then show ?thesis by (simp add: before_T_def T_def y_def)
qed

lemma before_T_timestamped:
  assumes "is_timestamped s" shows "before_T s = take 10 s"
proof -
  from assms have yy: "is_ymd (take 10 s)" and len: "length s > 10" and T: "s ! 10 = CHR ''T''"
    by (simp_all add: is_timestamped_def)
  have "s = take 10 s @ drop 10 s" by simp
  also have "drop 10 s = s ! 10 # drop 11 s" using Cons_nth_drop_Suc [OF len] by simp
  finally have s: "s = take 10 s @ CHR ''T'' # drop 11 s" using T by simp
  have plain: "\<forall>c\<in>set (take 10 s). c \<noteq> CHR ''T''" using is_ymd_chars [OF yy] by blast
  have "takeWhile (\<lambda>c. c \<noteq> CHR ''T'') (take 10 s @ CHR ''T'' # drop 11 s) = take 10 s"
    using plain by (simp add: takeWhile_append)
  then show ?thesis unfolding before_T_def using s by simp
qed

lemma normalizedDate_ymd:
  assumes "is_ymd s" shows "normalizedDate (DateString s) = Inr s"
proof -
  have "trim s = s" using is_ymd_chars [OF assms] by (intro trim_plain) blast
  moreover have "CHR ''T'' \<notin> set s" using is_ymd_chars [OF assms] by blast
  moreover have "s \<noteq> []" using assms by (rule is_ymd_nonempty)
  ultimately show ?thesis by simp
qed

lemma normalizedDate_timestamped:
  assumes "is_timestamped s" shows "normalizedDate (DateString s) = Inr (take 10 s)"
proof -
  from assms have "s \<noteq> []" by (auto simp: is_timestamped_def)
  then show ?thesis using trim_timestamped [OF assms] by simp
qed

lemma normalizedDate_valid:
  assumes "valid_date dt"
  shows "normalizedDate dt = Inr (calendar_date dt)" "is_ymd (calendar_date dt)"
proof -
  have "normalizedDate dt = Inr (calendar_date dt) \<and> is_ymd (calendar_date dt)"
  proof (cases dt)
    case (DateString s)
    with assms consider "is_ymd s" | "is_timestamped s" by auto
    then show ?thesis
    proof cases
      case 1
      then have "take 10 s = s" by (simp add: is_ymd_def)
      then show ?thesis using DateString 1 by (simp add: normalizedDate_ymd del: normalizedDate.simps)
    next
      case 2
      then have "is_ymd (take 10 s)" by (simp add: is_timestamped_def)
      then show ?thesis using DateString normalizedDate_timestamped [OF 2] by simp
    qed
  next
    case (DateObject isoString str)
    with assms obtain i where i: "isoString = Some i" "is_timestamped i" by (cases isoString) auto
    then have "is_ymd (take 10 i)" by (simp add: is_timestamped_def)
    then show ?thesis using DateObject i by (simp add: before_T_timestamped)
  qed (use assms in simp_all)
  then show "normalizedDate dt = Inr (calendar_date dt)" "is_ymd (calendar_date dt)" by simp_all
qed

text \<open>
  Claim C10. For every owner and every date of a documented shape, the key is the trimmed
  owner, an underscore and the calendar date that the supplied date denotes, in the form
  \<^verbatim>\<open>YYYY-MM-DD\<close>; normalizing the normalized owner and date again gives the same key; two
  dates of a documented shape that denote the same calendar date give the same key; in
  particular every string that goes on with \<^verbatim>\<open>T\<close> after a date \<^verbatim>\<open>YYYY-MM-DD\<close> gives the key
  of that date alone, as \<^verbatim>\<open>2024-03-05T10:00:00Z\<close> and \<^verbatim>\<open>2024-03-05\<close> do, for every owner.
  (The key is a function of its arguments, so it is deterministic.)
\<close>

theorem key_normalization_idempotent:
  assumes "valid_date dt"
  shows "is_ymd (calendar_date dt) \<and>
         normalizedDate dt = Inr (calendar_date dt) \<and>
         getConversationCacheKey admin dt =
           Inr (normalizedAdminId admin @ ''_'' @ calendar_date dt) \<and>
         getConversationCacheKey (Some (normalizedAdminId admin)) (DateString (calendar_date dt)) =
           getConversationCacheKey admin dt \<and>
         (\<forall>dt'. valid_date dt' \<and> calendar_date dt' = calendar_date dt \<longrightarrow>
            getConversationCacheKey admin dt' = getConversationCacheKey admin dt) \<and>
         (\<forall>s. is_timestamped s \<longrightarrow>
            getConversationCacheKey admin (DateString s) =
              getConversationCacheKey admin (DateString (take 10 s))) \<and>
         getConversationCacheKey admin (DateString ''2024-03-05T10:00:00Z'') =
           getConversationCacheKey admin (DateString ''2024-03-05'')"
proof -
  note nd = normalizedDate_valid [OF assms]
  have k: "getConversationCacheKey admin dt =
      Inr (normalizedAdminId admin @ ''_'' @ calendar_date dt)"
    by (simp add: getConversationCacheKey_def nd(1))
  have "normalizedAdminId (Some (normalizedAdminId admin)) = normalizedAdminId admin"
    by (simp add: normalizedAdminId_def trim_idem)
  then have "getConversationCacheKey (Some (normalizedAdminId admin))
      (DateString (calendar_date dt)) = Inr (normalizedAdminId admin @ ''_'' @ calendar_date dt)"
    unfolding getConversationCacheKey_def normalizedDate_ymd [OF nd(2)] by simp
  then have again: "getConversationCacheKey (Some (normalizedAdminId admin))
      (DateString (calendar_date dt)) = getConversationCacheKey admin dt"
    by (simp only: k)
  have same: "getConversationCacheKey admin dt' = getConversationCacheKey admin dt"
    if "valid_date dt' \<and> calendar_date dt' = calendar_date dt" for dt'
    using that normalizedDate_valid(1) [of dt'] nd(1) by (simp add: getConversationCacheKey_def)
  have stamped: "getConversationCacheKey admin (DateString s) =
      getConversationCacheKey admin (DateString (take 10 s))" if "is_timestamped s" for s
  proof -
    from that have "is_ymd (take 10 s)" by (simp add: is_timestamped_def)
    then show ?thesis
      unfolding getConversationCacheKey_def normalizedDate_timestamped [OF that]
      by (simp only: normalizedDate_ymd)
  qed
  have a: "is_timestamped ''2024-03-05T10:00:00Z''"
    by (simp add: is_timestamped_def is_ymd_def is_digit_def less_eq_char_def)
  have lit: "getConversationCacheKey admin (DateString ''2024-03-05T10:00:00Z'') =
      getConversationCacheKey admin (DateString ''2024-03-05'')"
    using stamped [OF a] by simp
  from nd(2) nd(1) k again same stamped lit show ?thesis by blast
qed

theorem key_normalization_idempotent_witness:
  "valid_date (DateString ''2024-03-05T10:00:00Z'') \<and>
   calendar_date (DateString ''2024-03-05T10:00:00Z'') = ''2024-03-05'' \<and>
   is_ymd ''2024-03-05'' \<and>
   normalizedDate (DateString ''2024-03-05T10:00:00Z'') = Inr ''2024-03-05'' \<and>
   normalizedAdminId (Some '' 42 '') = ''42'' \<and>
   getConversationCacheKey (Some '' 42 '') (DateString ''2024-03-05T10:00:00Z'') = Inr ''42_2024-03-05'' \<and>
   getConversationCacheKey (Some ''42'') (DateString ''2024-03-05'') = Inr ''42_2024-03-05'' \<and>
   valid_date (DateObject (Some ''2024-03-05T23:59:59.999Z'') ''Tue Mar 05 2024'') \<and>
   getConversationCacheKey (Some '' 42 '')
     (DateObject (Some ''2024-03-05T23:59:59.999Z'') ''Tue Mar 05 2024'') = Inr ''42_2024-03-05'' \<and>
   is_timestamped ''2024-12-31T00:00'' \<and>
   getConversationCacheKey (Some '' 42 '') (DateString ''2024-12-31T00:00'') =
     getConversationCacheKey (Some '' 42 '') (DateString ''2024-12-31'')"
proof -
  have v: "valid_date (DateString ''2024-03-05T10:00:00Z'')"
    by (simp add: is_timestamped_def is_ymd_def is_digit_def less_eq_char_def)
  have c: "calendar_date (DateString ''2024-03-05T10:00:00Z'') = ''2024-03-05''" by simp
  have n: "normalizedAdminId (Some '' 42 '') = ''42''"
    by (simp add: normalizedAdminId_def trim_def js_whitespace_def)
  have v': "valid_date (DateObject (Some ''2024-03-05T23:59:59.999Z'') ''Tue Mar 05 2024'')"
    by (simp add: is_timestamped_def is_ymd_def is_digit_def less_eq_char_def)
  have c': "calendar_date (DateObject (Some ''2024-03-05T23:59:59.999Z'') ''Tue Mar 05 2024'') =
      calendar_date (DateString ''2024-03-05T10:00:00Z'')" by simp
  have t: "is_timestamped ''2024-12-31T00:00''"
    by (simp add: is_timestamped_def is_ymd_def is_digit_def less_eq_char_def)
  note main = key_normalization_idempotent [OF v, of "Some '' 42 ''", unfolded c n]
  have y: "is_ymd ''2024-03-05''" using main by (elim conjE)
  have nd: "normalizedDate (DateString ''2024-03-05T10:00:00Z'') = Inr ''2024-03-05''"
    using main by (elim conjE)
  have k1: "getConversationCacheKey (Some '' 42 '') (DateString ''2024-03-05T10:00:00Z'') =
      Inr (''42'' @ ''_'' @ ''2024-03-05'')"
    using main by (elim conjE)
  have k2: "getConversationCacheKey (Some ''42'') (DateString ''2024-03-05'') =
      getConversationCacheKey (Some '' 42 '') (DateString ''2024-03-05T10:00:00Z'')"
    using main by (elim conjE)
  have same: "\<forall>dt'. valid_date dt' \<and> calendar_date dt' = ''2024-03-05'' \<longrightarrow>
      getConversationCacheKey (Some '' 42 '') dt' =
      getConversationCacheKey (Some '' 42 '') (DateString ''2024-03-05T10:00:00Z'')"
    using main by (elim conjE)
  have stamped: "\<forall>s. is_timestamped s \<longrightarrow>
      getConversationCacheKey (Some '' 42 '') (DateString s) =
      getConversationCacheKey (Some '' 42 '') (DateString (take 10 s))"
    using main by (elim conjE)
  have k3: "getConversationCacheKey (Some '' 42 '')
      (DateObject (Some ''2024-03-05T23:59:59.999Z'') ''Tue Mar 05 2024'') = Inr ''42_2024-03-05''"
    using same [rule_format, of "DateObject (Some ''2024-03-05T23:59:59.999Z'') ''Tue Mar 05 2024''"]
      v' k1 by simp
  have k4: "getConversationCacheKey (Some '' 42 '') (DateString ''2024-12-31T00:00'') =
      getConversationCacheKey (Some '' 42 '') (DateString ''2024-12-31'')"
    using stamped [rule_format, OF t] by simp
  from v c y nd n k1 k2 v' k3 t k4 show ?thesis by simp
qed

end
